(* ===== verification/Prelude.thy ===== *)
theory Prelude
  imports Main "HOL-Library.Word" "HOL-Library.Sublist"
begin

text \<open>
  What every component shares: the machine types of the Go sources, nil-able
  slices, the early-return chains of the validators, the indexed loops with a
  ``seen'' map, and the collections of rewrite rules the component theories fill.

  Conventions. A Go \<open>int64\<close> or \<open>uint64\<close> is a \<open>64 word\<close>: the conversion
  between the two is the identity and the signed reading is \<^term>\<open>sint\<close>. Pointers and slices keep
  the address they point to beside the value (below). Strings are byte lists. A validator returns an
  \<open>option\<close> of its error type, with \<^term>\<open>None\<close> for a nil error.
\<close>

named_theorems check_simps \<open>validators: when a chain of checks returns nil\<close>
named_theorems vocab_defs \<open>the wire strings of the budget vocabulary\<close>
named_theorems const_defs \<open>numeric constants of the sources\<close>

type_synonym byte = "8 word"
type_synonym int32 = "32 word"
type_synonym int64 = "64 word"
type_synonym uint64 = "64 word"


section \<open>Pointers and slices\<close>

text \<open>A pointer is nil or an address with the value stored there, and a slice is a
  pointer to its elements. The code read here never compares addresses, so the readers
  below look through them (\<open>deref\<close>, \<open>els\<close>); the addresses matter to the copying code,
  whose contract is that a copy shares no address with its original.\<close>

type_synonym addr = nat

datatype 'a ptr = NilP | Ptr addr 'a

type_synonym 'a slice = "'a list ptr"

primrec deref :: "'a ptr \<Rightarrow> 'a option" where
  "deref NilP = None"
| "deref (Ptr a v) = Some v"

primrec els :: "'a slice \<Rightarrow> 'a list" where
  "els NilP = []"
| "els (Ptr a xs) = xs"

lemma deref_None [simp]: "deref p = None \<longleftrightarrow> p = NilP"
  by (cases p) simp_all

lemma deref_eq_Some: "deref p = Some v \<longleftrightarrow> (\<exists>a. p = Ptr a v)"
  by (cases p) auto

lemma els_deref: "els s = (case deref s of None \<Rightarrow> [] | Some xs \<Rightarrow> xs)"
  by (cases s) simp_all


section \<open>Early-return chains and loops\<close>

definition fail_if :: "bool \<Rightarrow> 'e \<Rightarrow> 'e option" where
  "fail_if b e = (if b then Some e else None)"

primrec first_err :: "'e option list \<Rightarrow> 'e option" where
  "first_err [] = None"
| "first_err (c # cs) = (case c of Some e \<Rightarrow> Some e | None \<Rightarrow> first_err cs)"

text \<open>A loop over a slice whose body is a check that sees the index.\<close>

primrec range_err :: "(nat \<Rightarrow> 'a \<Rightarrow> 'e option) \<Rightarrow> nat \<Rightarrow> 'a list \<Rightarrow> 'e option" where
  "range_err f i [] = None"
| "range_err f i (x # xs) =
     (case f i x of Some e \<Rightarrow> Some e | None \<Rightarrow> range_err f (Suc i) xs)"

text \<open>The same with a \<open>seen\<close> map: the body is told whether the key of the element
  was met before, and the key is recorded after the body.\<close>

primrec range_seen ::
  "(nat \<Rightarrow> bool \<Rightarrow> 'a \<Rightarrow> 'e option) \<Rightarrow> ('a \<Rightarrow> 'k) \<Rightarrow> 'k list \<Rightarrow> nat \<Rightarrow> 'a list \<Rightarrow> 'e option"
where
  "range_seen f key seen i [] = None"
| "range_seen f key seen i (x # xs) =
     (case f i (key x \<in> set seen) x of
        Some e \<Rightarrow> Some e
      | None \<Rightarrow> range_seen f key (key x # seen) (Suc i) xs)"

lemma fail_if_None [check_simps]: "fail_if b e = None \<longleftrightarrow> \<not> b"
  by (simp add: fail_if_def)

lemma fail_if_simps [simp]: "fail_if True e = Some e" "fail_if False e = None"
  by (simp_all add: fail_if_def)

lemma fail_if_Some: "fail_if b e = Some e' \<longleftrightarrow> b \<and> e' = e"
  by (auto simp: fail_if_def)

declare first_err.simps(2) [simp del]

lemmas first_err_eval = first_err.simps

lemma first_err_None_iff: "first_err cs = None \<longleftrightarrow> (\<forall>c \<in> set cs. c = None)"
  by (induction cs) (auto simp: first_err_eval split: option.split)

lemma first_err_Cons_None [check_simps]:
  "first_err (c # cs) = None \<longleftrightarrow> c = None \<and> first_err cs = None"
  by (simp add: first_err_eval split: option.split)

lemma first_err_Nil [check_simps]: "first_err [] = None \<longleftrightarrow> True"
  by simp

lemma first_err_upto [check_simps]: "first_err (map f [0..<n]) = None \<longleftrightarrow> (\<forall>i < n. f i = None)"
  by (auto simp: first_err_None_iff)

lemma first_err_pairs [check_simps]:
  "first_err (concat (map (\<lambda>i. map (f i) [i + 1..<n]) [0..<n])) = None \<longleftrightarrow>
     (\<forall>j < n. \<forall>i < j. f i j = None)"
proof
  assume none: "first_err (concat (map (\<lambda>i. map (f i) [i + 1..<n]) [0..<n])) = None"
  show "\<forall>j < n. \<forall>i < j. f i j = None"
  proof (intro allI impI)
    fix j i assume "j < n" "i < j"
    then have "f i j \<in> set (concat (map (\<lambda>i. map (f i) [i + 1..<n]) [0..<n]))" by force
    with none show "f i j = None" unfolding first_err_None_iff by blast
  qed
qed (auto simp: first_err_None_iff)

lemma first_err_append [simp]:
  "first_err (cs @ ds) = (case first_err cs of Some e \<Rightarrow> Some e | None \<Rightarrow> first_err ds)"
  by (induction cs) (auto simp: first_err_eval split: option.split)

lemma first_err_Some_mem: "first_err cs = Some e \<Longrightarrow> Some e \<in> set cs"
  by (induction cs) (auto simp: first_err_eval split: option.splits)

lemma first_err_SomeD:
  "first_err cs = Some e \<Longrightarrow> \<exists>k < length cs. cs ! k = Some e \<and> (\<forall>j < k. cs ! j = None)"
proof (induction cs)
  case (Cons c cs)
  then show ?case
  proof (cases c)
    case None
    with Cons obtain k where "k < length cs" "cs ! k = Some e" "\<forall>j < k. cs ! j = None"
      by (auto simp: first_err_eval)
    with None show ?thesis
      by (intro exI [of _ "Suc k"]) (auto simp: nth_Cons split: nat.split)
  qed (auto simp: first_err_eval)
qed simp

lemma range_err_None_iff:
  "range_err f i xs = None \<longleftrightarrow> (\<forall>j < length xs. f (i + j) (xs ! j) = None)"
  by (induction xs arbitrary: i) (auto simp: All_less_Suc2 split: option.splits)

lemma range_err_None_all:
  assumes "\<And>i x. f i x = None \<longleftrightarrow> P x"
  shows "range_err f i xs = None \<longleftrightarrow> (\<forall>x \<in> set xs. P x)"
  using assms by (auto simp: range_err_None_iff all_set_conv_all_nth)

lemma range_seen_None_iff:
  assumes "\<And>i d x. f i d x = None \<longleftrightarrow> \<not> d \<and> P x"
  shows "range_seen f key seen i xs = None \<longleftrightarrow>
    (\<forall>x \<in> set xs. P x \<and> key x \<notin> set seen) \<and> distinct (map key xs)"
proof (induction xs arbitrary: seen i)
  case (Cons x xs)
  show ?case
  proof (cases "f i (key x \<in> set seen) x")
    case None
    then have "key x \<notin> set seen" "P x" using assms by auto
    with None show ?thesis by (auto simp: Cons.IH image_iff)
  next
    case (Some e)
    then have "\<not> (key x \<notin> set seen \<and> P x)" using assms [of i "key x \<in> set seen" x] by auto
    with Some show ?thesis by auto
  qed
qed simp

lemma range_seen_start:
  assumes "\<And>i d x. f i d x = None \<longleftrightarrow> \<not> d \<and> P x"
  shows "range_seen f key [] i xs = None \<longleftrightarrow> (\<forall>x \<in> set xs. P x) \<and> distinct (map key xs)"
  by (simp add: range_seen_None_iff [OF assms])


section \<open>Strings\<close>

definition HasPrefix :: "string \<Rightarrow> string \<Rightarrow> bool" where
  "HasPrefix s pre = (length pre \<le> length s \<and> take (length pre) s = pre)"

definition HasSuffix :: "string \<Rightarrow> string \<Rightarrow> bool" where
  "HasSuffix s suf = (length suf \<le> length s \<and> drop (length s - length suf) s = suf)"

lemma HasPrefix_iff: "HasPrefix s pre \<longleftrightarrow> prefix pre s"
  by (auto simp: HasPrefix_def prefix_def) (metis append_take_drop_id)

lemma HasSuffix_iff: "HasSuffix s suf \<longleftrightarrow> suffix suf s"
  by (auto simp: HasSuffix_def suffix_def) (metis append_take_drop_id)


text \<open>The \<open><\<close> of Go strings: lexicographic by bytes.\<close>

definition byte_of :: "char \<Rightarrow> nat" where
  "byte_of c = of_char c"

fun str_less :: "string \<Rightarrow> string \<Rightarrow> bool" where
  "str_less xs [] = False"
| "str_less [] (y # ys) = True"
| "str_less (x # xs) (y # ys) =
     (byte_of x < byte_of y \<or> byte_of x = byte_of y \<and> str_less xs ys)"

lemma byte_of_inj [simp]: "byte_of x = byte_of y \<longleftrightarrow> x = y"
  by (simp add: byte_of_def)

lemma str_less_Nil: "str_less [] ys \<longleftrightarrow> ys \<noteq> []"
  by (cases ys) auto

lemma str_less_irrefl [simp]: "\<not> str_less s s"
  by (induction s) auto

lemma str_less_asym: "str_less s t \<Longrightarrow> \<not> str_less t s"
  by (induction s t rule: str_less.induct) auto

lemma str_less_trans: "str_less s t \<Longrightarrow> str_less t u \<Longrightarrow> str_less s u"
proof (induction s t arbitrary: u rule: str_less.induct)
  case (2 y ys)
  then show ?case by (cases u) auto
next
  case (3 x xs y ys)
  then show ?case by (cases u) auto
qed simp

lemma str_less_total: "s = t \<or> str_less s t \<or> str_less t s"
  by (induction s t rule: str_less.induct) (auto simp: str_less_Nil)

text \<open>\<open>strings.Split\<close> with a one-byte separator.\<close>

primrec split_on :: "char \<Rightarrow> string \<Rightarrow> string list" where
  "split_on c [] = [[]]"
| "split_on c (x # xs) =
     (if x = c then [] # split_on c xs
      else (case split_on c xs of [] \<Rightarrow> [[x]] | y # ys \<Rightarrow> (x # y) # ys))"

primrec join_with :: "char \<Rightarrow> string list \<Rightarrow> string" where
  "join_with c [] = []"
| "join_with c (w # ws) = (if ws = [] then w else w @ c # join_with c ws)"

lemma split_on_not_Nil [simp]: "split_on c s \<noteq> []"
  by (cases s) (auto split: list.split)

lemma split_on_absent [simp]: "c \<notin> set s \<Longrightarrow> split_on c s = [s]"
  by (induction s) auto

lemma split_on_append: "c \<notin> set l \<Longrightarrow> split_on c (l @ c # u) = l # split_on c u"
  by (induction l) auto

lemma split_on_clean: "w \<in> set (split_on c s) \<Longrightarrow> c \<notin> set w"
  by (induction s arbitrary: w) (fastforce split: list.splits if_splits)+

lemma join_split [simp]: "join_with c (split_on c s) = s"
proof (induction s)
  case (Cons x s)
  then show ?case by (cases "split_on c s") auto
qed simp

lemma split_join:
  "ws \<noteq> [] \<Longrightarrow> \<forall>w \<in> set ws. c \<notin> set w \<Longrightarrow> split_on c (join_with c ws) = ws"
  by (induction ws) (auto simp: split_on_append)


section \<open>Time\<close>

text \<open>\<open>time.Time\<close> as its seconds since January 1 of year 1 and nanoseconds, with the
  location pointer (\<^term>\<open>None\<close> is UTC). \<open>metav1.Time\<close> embeds it and keeps its methods.\<close>

record Time =
  time_sec :: int64
  time_nsec :: int32
  time_loc :: "string option"

definition zeroTime :: Time where
  "zeroTime = \<lparr>time_sec = 0, time_nsec = 0, time_loc = None\<rparr>"

definition Time_IsZero :: "Time \<Rightarrow> bool" where
  "Time_IsZero t = (time_sec t = 0 \<and> time_nsec t = 0)"

definition Time_Unix :: "Time \<Rightarrow> int64" where
  "Time_Unix t = time_sec t - 62135596800"

lemma zeroTime_IsZero [simp]: "Time_IsZero zeroTime"
  by (simp add: Time_IsZero_def zeroTime_def)


section \<open>Optional values\<close>

definition opt_err :: "('a \<Rightarrow> 'e option) \<Rightarrow> 'a option \<Rightarrow> 'e option" where
  "opt_err f v = (case v of None \<Rightarrow> None | Some x \<Rightarrow> f x)"

lemma opt_err_simps [simp]: "opt_err f None = None" "opt_err f (Some x) = f x"
  by (simp_all add: opt_err_def)

lemma opt_err_None [check_simps]: "opt_err f v = None \<longleftrightarrow> (\<forall>x. v = Some x \<longrightarrow> f x = None)"
  by (cases v) simp_all

lemma if_None [check_simps]: "(if b then x else None) = None \<longleftrightarrow> (b \<longrightarrow> x = None)"
  by simp

lemma map_option_None [check_simps]: "map_option f v = None \<longleftrightarrow> v = None"
  by simp

end
