(* ===== verification/Vocab.thy ===== *)
theory Vocab
  imports Prelude
begin

text \<open>
  The shared vocabulary of the budget contract (\<open>budget/v1alpha1/vocab.go\<close>) and
  the page code tables (\<open>budget/v1alpha1/page_codes.go\<close>). Every enum of the
  sources is a named string type, so a value outside the enum is representable and
  each \<open>Valid\<close> method is a function on strings.

  Two interfaces are abstracted as locales. \<open>code_table\<close> is a page code table:
  its laws give that codes and values determine each other. \<open>open_enum\<close> is a
  producer-vocabulary enum: its laws give that decoding never lets an unknown
  string through. Each is interpreted on every table and every enum of the sources.
\<close>

section \<open>Helpers of the vocabulary\<close>

text \<open>\<open>oneOf\<close>, the loop over the variadic arguments.\<close>

primrec oneOf :: "'a \<Rightarrow> 'a list \<Rightarrow> bool" where
  "oneOf v [] = False"
| "oneOf v (w # want) = (if v = w then True else oneOf v want)"

lemma oneOf_iff [simp]: "oneOf v ws \<longleftrightarrow> v \<in> set ws"
  by (induction ws) auto

text \<open>The first index at which a table holds a value, counted from \<open>i\<close>: the loop of
  \<open>SignalID.PageCode\<close> and of \<open>pageCode\<close>.\<close>

primrec index_from :: "nat \<Rightarrow> 'a list \<Rightarrow> 'a \<Rightarrow> nat option" where
  "index_from i [] v = None"
| "index_from i (w # ws) v = (if w = v then Some i else index_from (Suc i) ws v)"

lemma index_from_None [simp]: "index_from i ws v = None \<longleftrightarrow> v \<notin> set ws"
  by (induction ws arbitrary: i) auto

lemma index_from_absent [simp]: "v \<notin> set ws \<Longrightarrow> index_from i ws v = None"
  by simp

lemma index_from_SomeD:
  "index_from i ws v = Some k \<Longrightarrow> i \<le> k \<and> k < i + length ws \<and> ws ! (k - i) = v"
proof (induction ws arbitrary: i)
  case (Cons w ws)
  then show ?case
    by (fastforce split: if_splits simp: nth_Cons' not_less_eq_eq)
qed simp

lemma index_from_nth:
  "distinct ws \<Longrightarrow> k < length ws \<Longrightarrow> index_from i ws (ws ! k) = Some (i + k)"
proof (induction ws arbitrary: i k)
  case (Cons w ws)
  then show ?case by (cases k) auto
qed simp


section \<open>Signals\<close>

type_synonym SignalID = string

definition SignalMemoryAvailable :: SignalID where [vocab_defs]: "SignalMemoryAvailable = ''memory.available''"
definition SignalMemoryCompressor :: SignalID where [vocab_defs]: "SignalMemoryCompressor = ''memory.compressor''"
definition SignalMemorySwap :: SignalID where [vocab_defs]: "SignalMemorySwap = ''memory.swap''"
definition SignalSwapfsAvailable :: SignalID where [vocab_defs]: "SignalSwapfsAvailable = ''swapfs.available''"
definition SignalNodefsAvailable :: SignalID where [vocab_defs]: "SignalNodefsAvailable = ''nodefs.available''"
definition SignalImagefsAvailable :: SignalID where [vocab_defs]: "SignalImagefsAvailable = ''imagefs.available''"
definition SignalPIDAvailable :: SignalID where [vocab_defs]: "SignalPIDAvailable = ''pid.available''"

definition signalCodes :: "SignalID list" where
  "signalCodes = [SignalMemoryAvailable, SignalMemoryCompressor, SignalMemorySwap,
     SignalSwapfsAvailable, SignalNodefsAvailable, SignalImagefsAvailable, SignalPIDAvailable]"

definition Signals :: "SignalID list" where
  "Signals = signalCodes"

definition SignalID_PageCode :: "SignalID \<Rightarrow> uint64" where
  "SignalID_PageCode s =
     (case index_from 0 signalCodes s of Some i \<Rightarrow> word_of_nat (i + 1) | None \<Rightarrow> 0)"

definition SignalID_Valid :: "SignalID \<Rightarrow> bool" where
  "SignalID_Valid s = (SignalID_PageCode s \<noteq> 0)"

definition SignalForPageCode :: "uint64 \<Rightarrow> SignalID \<times> bool" where
  "SignalForPageCode c =
     (if c = 0 \<or> c > word_of_nat (length signalCodes) then ('''', False)
      else (signalCodes ! unat (c - 1), True))"

definition IsDescending :: "SignalID \<Rightarrow> bool" where
  "IsDescending s = HasSuffix s ''.available''"

section \<open>Units\<close>

type_synonym SignalUnit = string

definition UnitBytes :: SignalUnit where [vocab_defs]: "UnitBytes = ''bytes''"
definition UnitPermille :: SignalUnit where [vocab_defs]: "UnitPermille = ''permille''"
definition UnitCount :: SignalUnit where [vocab_defs]: "UnitCount = ''count''"

definition SignalUnit_Valid :: "SignalUnit \<Rightarrow> bool" where
  "SignalUnit_Valid v = oneOf v [UnitBytes, UnitPermille, UnitCount]"

definition SignalID_Unit :: "SignalID \<Rightarrow> SignalUnit" where
  "SignalID_Unit s =
     (if s = SignalMemoryCompressor then UnitPermille
      else if s = SignalPIDAvailable then UnitCount
      else if oneOf s [SignalMemoryAvailable, SignalMemorySwap, SignalSwapfsAvailable,
                       SignalNodefsAvailable, SignalImagefsAvailable] then UnitBytes
      else '''')"

section \<open>Levels and bands\<close>

type_synonym Level = string

definition LevelOK :: Level where [vocab_defs]: "LevelOK = ''ok''"
definition LevelWarn :: Level where [vocab_defs]: "LevelWarn = ''warn''"
definition LevelCritical :: Level where [vocab_defs]: "LevelCritical = ''critical''"
definition LevelEvicting :: Level where [vocab_defs]: "LevelEvicting = ''evicting''"

definition Level_Valid :: "Level \<Rightarrow> bool" where
  "Level_Valid v = oneOf v [LevelOK, LevelWarn, LevelCritical, LevelEvicting]"

type_synonym Band = string

definition BandCritical :: Band where [vocab_defs]: "BandCritical = ''critical''"
definition BandStandard :: Band where [vocab_defs]: "BandStandard = ''standard''"
definition BandBatch :: Band where [vocab_defs]: "BandBatch = ''batch''"

definition Bands :: "Band list" where
  "Bands = [BandCritical, BandStandard, BandBatch]"

definition Band_Valid :: "Band \<Rightarrow> bool" where
  "Band_Valid v = oneOf v [BandCritical, BandStandard, BandBatch]"

section \<open>Trend and limiting resource\<close>

type_synonym Trend = string

definition TrendFalling :: Trend where [vocab_defs]: "TrendFalling = ''falling''"
definition TrendSteady :: Trend where [vocab_defs]: "TrendSteady = ''steady''"
definition TrendRising :: Trend where [vocab_defs]: "TrendRising = ''rising''"
definition TrendUnknown :: Trend where [vocab_defs]: "TrendUnknown = ''unknown''"

definition Trend_Valid :: "Trend \<Rightarrow> bool" where
  "Trend_Valid v = oneOf v [TrendFalling, TrendSteady, TrendRising, TrendUnknown]"

type_synonym LimitingResource = string

definition ResourceMemory :: LimitingResource where [vocab_defs]: "ResourceMemory = ''memory''"
definition ResourceSwapfs :: LimitingResource where [vocab_defs]: "ResourceSwapfs = ''swapfs''"
definition ResourceNodefs :: LimitingResource where [vocab_defs]: "ResourceNodefs = ''nodefs''"
definition ResourceImagefs :: LimitingResource where [vocab_defs]: "ResourceImagefs = ''imagefs''"
definition ResourcePID :: LimitingResource where [vocab_defs]: "ResourcePID = ''pid''"
definition ResourceCPU :: LimitingResource where [vocab_defs]: "ResourceCPU = ''cpu''"
definition ResourceUnknown :: LimitingResource where [vocab_defs]: "ResourceUnknown = ''unknown''"

definition LimitingResource_Valid :: "LimitingResource \<Rightarrow> bool" where
  "LimitingResource_Valid v = oneOf v [ResourceMemory, ResourceSwapfs, ResourceNodefs,
     ResourceImagefs, ResourcePID, ResourceCPU, ResourceUnknown]"

section \<open>Kill modes and reasons\<close>

type_synonym KillModeName = string

definition KillModeAuto :: KillModeName where [vocab_defs]: "KillModeAuto = ''auto''"
definition KillModeOn :: KillModeName where [vocab_defs]: "KillModeOn = ''on''"
definition KillModeOff :: KillModeName where [vocab_defs]: "KillModeOff = ''off''"

definition KillModeName_Valid :: "KillModeName \<Rightarrow> bool" where
  "KillModeName_Valid v = oneOf v [KillModeAuto, KillModeOn, KillModeOff]"

type_synonym KillModeReason = string

definition KillReasonColdStart :: KillModeReason where [vocab_defs]: "KillReasonColdStart = ''cold-start''"
definition KillReasonObserving :: KillModeReason where [vocab_defs]: "KillReasonObserving = ''observing''"
definition KillReasonArmed :: KillModeReason where [vocab_defs]: "KillReasonArmed = ''armed''"
definition KillReasonPolicyOff :: KillModeReason where [vocab_defs]: "KillReasonPolicyOff = ''policy-off''"
definition KillReasonDisarmFile :: KillModeReason where [vocab_defs]: "KillReasonDisarmFile = ''disarm-file''"
definition KillReasonUnknown :: KillModeReason where [vocab_defs]: "KillReasonUnknown = ''unknown''"

definition KillModeReason_Valid :: "KillModeReason \<Rightarrow> bool" where
  "KillModeReason_Valid v = oneOf v [KillReasonColdStart, KillReasonObserving,
     KillReasonArmed, KillReasonPolicyOff, KillReasonDisarmFile, KillReasonUnknown]"

type_synonym WouldKillReason = string

definition WouldKillHeldPressure :: WouldKillReason where [vocab_defs]: "WouldKillHeldPressure = ''held-pressure''"
definition WouldKillMemoryFloor :: WouldKillReason where [vocab_defs]: "WouldKillMemoryFloor = ''memory-floor''"
definition WouldKillUnknown :: WouldKillReason where [vocab_defs]: "WouldKillUnknown = ''unknown''"

definition WouldKillReason_Valid :: "WouldKillReason \<Rightarrow> bool" where
  "WouldKillReason_Valid v = oneOf v [WouldKillHeldPressure, WouldKillMemoryFloor,
     WouldKillUnknown]"

section \<open>Policy vocabulary\<close>

type_synonym PolicyOutcome = string

definition PolicyApplied :: PolicyOutcome where [vocab_defs]: "PolicyApplied = ''applied''"
definition PolicyRejected :: PolicyOutcome where [vocab_defs]: "PolicyRejected = ''rejected''"
definition PolicyClamped :: PolicyOutcome where [vocab_defs]: "PolicyClamped = ''clamped''"

definition PolicyOutcome_Valid :: "PolicyOutcome \<Rightarrow> bool" where
  "PolicyOutcome_Valid v = oneOf v [PolicyApplied, PolicyRejected, PolicyClamped]"

type_synonym PolicyField = string

definition FieldTier1GraceSeconds :: PolicyField where [vocab_defs]: "FieldTier1GraceSeconds = ''tier1GraceSeconds''"
definition FieldTier1HeldSeconds :: PolicyField where [vocab_defs]: "FieldTier1HeldSeconds = ''tier1HeldSeconds''"
definition FieldTier1MaxDeliveriesPerHour :: PolicyField where [vocab_defs]: "FieldTier1MaxDeliveriesPerHour = ''tier1MaxDeliveriesPerHour''"
definition FieldTier1CooloffSeconds :: PolicyField where [vocab_defs]: "FieldTier1CooloffSeconds = ''tier1CooloffSeconds''"
definition FieldReservesCPUSystemReserveMilli :: PolicyField where [vocab_defs]: "FieldReservesCPUSystemReserveMilli = ''reserves.cpuSystemReserveMilli''"
definition FieldReservesMemSystemReserveBytes :: PolicyField where [vocab_defs]: "FieldReservesMemSystemReserveBytes = ''reserves.memSystemReserveBytes''"
definition FieldReservesMemEvictionReserveBytes :: PolicyField where [vocab_defs]: "FieldReservesMemEvictionReserveBytes = ''reserves.memEvictionReserveBytes''"

definition PolicyFields :: "PolicyField list" where
  "PolicyFields = [FieldTier1GraceSeconds, FieldTier1HeldSeconds, FieldTier1MaxDeliveriesPerHour,
     FieldTier1CooloffSeconds, FieldReservesCPUSystemReserveMilli,
     FieldReservesMemSystemReserveBytes, FieldReservesMemEvictionReserveBytes]"

definition PolicyField_Valid :: "PolicyField \<Rightarrow> bool" where
  "PolicyField_Valid f = oneOf f PolicyFields"

section \<open>Counters, writers and platforms\<close>

type_synonym CounterWindow = string

definition Window1h :: CounterWindow where [vocab_defs]: "Window1h = ''1h''"
definition Window24h :: CounterWindow where [vocab_defs]: "Window24h = ''24h''"

definition CounterWindow_Valid :: "CounterWindow \<Rightarrow> bool" where
  "CounterWindow_Valid v = oneOf v [Window1h, Window24h]"

type_synonym CounterReason = string

definition CounterEviction :: CounterReason where [vocab_defs]: "CounterEviction = ''eviction''"
definition CounterOOMKill :: CounterReason where [vocab_defs]: "CounterOOMKill = ''oom-kill''"
definition CounterKernelKill :: CounterReason where [vocab_defs]: "CounterKernelKill = ''kernel-kill''"
definition CounterRestart :: CounterReason where [vocab_defs]: "CounterRestart = ''restart''"
definition CounterMemHigh :: CounterReason where [vocab_defs]: "CounterMemHigh = ''mem-high''"
definition CounterTier1Refused :: CounterReason where [vocab_defs]: "CounterTier1Refused = ''tier1-refused''"
definition CounterUnknown :: CounterReason where [vocab_defs]: "CounterUnknown = ''unknown''"

definition CounterReason_Valid :: "CounterReason \<Rightarrow> bool" where
  "CounterReason_Valid v = oneOf v [CounterEviction, CounterOOMKill, CounterKernelKill,
     CounterRestart, CounterMemHigh, CounterTier1Refused, CounterUnknown]"

type_synonym WriterShape = string

definition WriterAnnotationRelay :: WriterShape where [vocab_defs]: "WriterAnnotationRelay = ''annotation-relay''"
definition WriterOwnNode :: WriterShape where [vocab_defs]: "WriterOwnNode = ''own-node''"

definition WriterShape_Valid :: "WriterShape \<Rightarrow> bool" where
  "WriterShape_Valid v = oneOf v [WriterAnnotationRelay, WriterOwnNode]"

type_synonym Platform = string

definition PlatformDarwin :: Platform where [vocab_defs]: "PlatformDarwin = ''darwin''"
definition PlatformLinux :: Platform where [vocab_defs]: "PlatformLinux = ''linux''"

definition Platform_Valid :: "Platform \<Rightarrow> bool" where
  "Platform_Valid v = oneOf v [PlatformDarwin, PlatformLinux]"

section \<open>Conditions\<close>

definition ConditionReporting :: string where [vocab_defs]: "ConditionReporting = ''Reporting''"
definition ConditionPolicyRejected :: string where [vocab_defs]: "ConditionPolicyRejected = ''PolicyRejected''"
definition ConditionPolicyClamped :: string where [vocab_defs]: "ConditionPolicyClamped = ''PolicyClamped''"
definition ConditionPolicyConflict :: string where [vocab_defs]: "ConditionPolicyConflict = ''PolicyConflict''"
definition ReasonNodeReporting :: string where [vocab_defs]: "ReasonNodeReporting = ''NodeReporting''"
definition ReasonNodeNotReporting :: string where [vocab_defs]: "ReasonNodeNotReporting = ''NodeNotReporting''"
definition ReasonAnnotationMalformed :: string where [vocab_defs]: "ReasonAnnotationMalformed = ''AnnotationMalformed''"
definition ReasonSchemaUnsupported :: string where [vocab_defs]: "ReasonSchemaUnsupported = ''SchemaUnsupported''"
definition ReasonAnnotationTooLarge :: string where [vocab_defs]: "ReasonAnnotationTooLarge = ''AnnotationTooLarge''"
definition ReasonPolicyInvalid :: string where [vocab_defs]: "ReasonPolicyInvalid = ''PolicyInvalid''"
definition ReasonMergedLadderInverted :: string where [vocab_defs]: "ReasonMergedLadderInverted = ''MergedLadderInverted''"
definition ReasonPolicyAccepted :: string where [vocab_defs]: "ReasonPolicyAccepted = ''PolicyAccepted''"
definition ReasonFieldsClamped :: string where [vocab_defs]: "ReasonFieldsClamped = ''FieldsClamped''"
definition ReasonNoFieldsClamped :: string where [vocab_defs]: "ReasonNoFieldsClamped = ''NoFieldsClamped''"
definition ReasonMultiplePolicies :: string where [vocab_defs]: "ReasonMultiplePolicies = ''MultiplePolicies''"
definition ReasonSinglePolicy :: string where [vocab_defs]: "ReasonSinglePolicy = ''SinglePolicy''"

text \<open>\<^term>\<open>None\<close> is the nil slice, which the caller tests for.\<close>

definition ConditionReasons :: "string \<Rightarrow> string \<Rightarrow> string list option" where
  "ConditionReasons conditionType status =
     (let k = conditionType @ ''/'' @ status in
      if k = ConditionReporting @ ''/True'' then Some [ReasonNodeReporting]
      else if k = ConditionReporting @ ''/False'' then
        Some [ReasonNodeNotReporting, ReasonAnnotationMalformed, ReasonSchemaUnsupported,
              ReasonAnnotationTooLarge]
      else if k = ConditionPolicyRejected @ ''/True'' then
        Some [ReasonPolicyInvalid, ReasonMergedLadderInverted]
      else if k = ConditionPolicyRejected @ ''/False'' then Some [ReasonPolicyAccepted]
      else if k = ConditionPolicyClamped @ ''/True'' then Some [ReasonFieldsClamped]
      else if k = ConditionPolicyClamped @ ''/False'' then Some [ReasonNoFieldsClamped]
      else if k = ConditionPolicyConflict @ ''/True'' then Some [ReasonMultiplePolicies]
      else if k = ConditionPolicyConflict @ ''/False'' then Some [ReasonSinglePolicy]
      else None)"

section \<open>Open enums\<close>

text \<open>\<open>decodeOpenEnum\<close>. The JSON decoder is a parameter: \<open>unmarshal b\<close> is the string
  \<open>json.Unmarshal\<close> stores for the bytes \<open>b\<close>, or its error.\<close>

definition decodeOpenEnum ::
  "(string \<Rightarrow> 'e + string) \<Rightarrow> (string \<Rightarrow> bool) \<Rightarrow> string \<Rightarrow> string \<Rightarrow> 'e + string"
where
  "decodeOpenEnum unmarshal valid b unknown =
     (case unmarshal b of
        Inl err \<Rightarrow> Inl err
      | Inr s \<Rightarrow> Inr (if s \<noteq> '''' \<and> \<not> valid s then unknown else s))"

definition Trend_UnmarshalJSON where
  "Trend_UnmarshalJSON unmarshal b = decodeOpenEnum unmarshal Trend_Valid b TrendUnknown"

definition LimitingResource_UnmarshalJSON where
  "LimitingResource_UnmarshalJSON unmarshal b =
     decodeOpenEnum unmarshal LimitingResource_Valid b ResourceUnknown"

definition KillModeReason_UnmarshalJSON where
  "KillModeReason_UnmarshalJSON unmarshal b =
     decodeOpenEnum unmarshal KillModeReason_Valid b KillReasonUnknown"

definition WouldKillReason_UnmarshalJSON where
  "WouldKillReason_UnmarshalJSON unmarshal b =
     decodeOpenEnum unmarshal WouldKillReason_Valid b WouldKillUnknown"

definition CounterReason_UnmarshalJSON where
  "CounterReason_UnmarshalJSON unmarshal b =
     decodeOpenEnum unmarshal CounterReason_Valid b CounterUnknown"

section \<open>Page code tables\<close>

definition pageUnitCodes :: "SignalUnit list" where
  "pageUnitCodes = [UnitBytes, UnitPermille, UnitCount]"

definition pageLevelCodes :: "Level list" where
  "pageLevelCodes = [LevelOK, LevelWarn, LevelCritical, LevelEvicting]"

definition pageBandCodes :: "Band list" where
  "pageBandCodes = [BandCritical, BandStandard, BandBatch]"

definition pagePlatformCodes :: "Platform list" where
  "pagePlatformCodes = [PlatformDarwin, PlatformLinux]"

definition pageKillModeCodes :: "KillModeName list" where
  "pageKillModeCodes = [KillModeAuto, KillModeOn, KillModeOff]"

definition pageTrendCodes :: "Trend list" where
  "pageTrendCodes = [TrendFalling, TrendSteady, TrendRising]"

definition pageLimitingResourceCodes :: "LimitingResource list" where
  "pageLimitingResourceCodes =
     [ResourceMemory, ResourceSwapfs, ResourceNodefs, ResourceImagefs, ResourcePID, ResourceCPU]"

definition pageKillModeReasonCodes :: "KillModeReason list" where
  "pageKillModeReasonCodes = [KillReasonColdStart, KillReasonObserving, KillReasonArmed,
     KillReasonPolicyOff, KillReasonDisarmFile]"

definition pageCode :: "string list \<Rightarrow> string \<Rightarrow> string \<Rightarrow> uint64 \<times> bool" where
  "pageCode table v unknown =
     (if v = '''' \<or> (unknown \<noteq> '''' \<and> v = unknown) then (0, True)
      else case index_from 0 table v of
             Some i \<Rightarrow> (word_of_nat (i + 1), True)
           | None \<Rightarrow> (0, False))"

text \<open>The Go map of tables by manifest name, as an association list.\<close>

definition PageCodeTables :: "(string \<times> string list) list" where
  "PageCodeTables =
     [(''signal'', signalCodes), (''unit'', pageUnitCodes), (''level'', pageLevelCodes),
      (''band'', pageBandCodes), (''platform'', pagePlatformCodes),
      (''killMode'', pageKillModeCodes), (''trend'', pageTrendCodes),
      (''limitingResource'', pageLimitingResourceCodes),
      (''killModeReason'', pageKillModeReasonCodes)]"

lemmas table_defs =
  signalCodes_def pageUnitCodes_def pageLevelCodes_def pageBandCodes_def pagePlatformCodes_def
  pageKillModeCodes_def pageTrendCodes_def pageLimitingResourceCodes_def
  pageKillModeReasonCodes_def

text \<open>What a reader does with a code: the value at index \<open>c - 1\<close>.\<close>

definition codeValue :: "string list \<Rightarrow> uint64 \<Rightarrow> string option" where
  "codeValue table c =
     (if c = 0 \<or> length table < unat c then None else Some (table ! (unat c - 1)))"

locale code_table =
  fixes table :: "string list" and unknown :: string
  assumes distinct_table: "distinct table"
    and empty_free: "'''' \<notin> set table"
    and unknown_free: "unknown \<notin> set table"
    and short_table: "length table < 2 ^ 63"
begin

lemma code_small: "k < length table \<Longrightarrow> unat (word_of_nat (k + 1) :: uint64) = k + 1"
  using short_table by (simp only: unat_of_nat) simp

lemma pageCode_nth:
  "k < length table \<Longrightarrow> pageCode table (table ! k) unknown = (word_of_nat (k + 1), True)"
  using empty_free unknown_free distinct_table
  by (auto simp: pageCode_def index_from_nth dest: nth_mem)

lemma pageCode_value:
  assumes "pageCode table v unknown = (c, True)"
  shows "codeValue table c = (if v = '''' \<or> v = unknown then None else Some v)"
proof (cases "v = '''' \<or> (unknown \<noteq> '''' \<and> v = unknown)")
  case True
  with assms show ?thesis by (auto simp: pageCode_def codeValue_def)
next
  case False
  with assms obtain k where k: "index_from 0 table v = Some k" and c: "c = word_of_nat (k + 1)"
    by (auto simp: pageCode_def split: option.splits)
  from index_from_SomeD [OF k] have "k < length table" "table ! k = v" by auto
  with code_small [of k] c have u: "unat c = k + 1" by simp
  then have "c \<noteq> 0" by force
  with u \<open>k < length table\<close> \<open>table ! k = v\<close> False show ?thesis
    by (auto simp: codeValue_def)
qed

lemma pageCode_ok_iff:
  "snd (pageCode table v unknown) \<longleftrightarrow> v = '''' \<or> v = unknown \<or> v \<in> set table"
  by (cases "v \<in> set table") (auto simp: pageCode_def split: option.split)

lemma pageCode_range: "unat (fst (pageCode table v unknown)) \<le> length table"
proof (cases "index_from 0 table v")
  case (Some k)
  from index_from_SomeD [OF this] have "k < length table" by simp
  with Some code_small [of k] show ?thesis by (simp add: pageCode_def)
qed (simp add: pageCode_def)

lemma pageCode_inj:
  assumes "pageCode table v unknown = (c, True)" "pageCode table w unknown = (c, True)" "c \<noteq> 0"
  shows "v = w"
proof -
  from assms have "v \<noteq> ''''" "v \<noteq> unknown" "w \<noteq> ''''" "w \<noteq> unknown"
    by (auto simp: pageCode_def)
  with pageCode_value [OF assms(1)] pageCode_value [OF assms(2)] show ?thesis by simp
qed

lemma pageCode_codeValue:
  assumes "codeValue table c = Some v"
  shows "pageCode table v unknown = (c, True)"
proof -
  from assms have c: "c \<noteq> 0" "unat c \<le> length table" "v = table ! (unat c - 1)"
    by (auto simp: codeValue_def split: if_splits)
  from c(1) have "unat c > 0" by (simp add: unat_gt_0)
  with c pageCode_nth [of "unat c - 1"] show ?thesis by simp
qed

end

interpretation signal_table: code_table signalCodes "''''"
  by unfold_locales (simp_all add: table_defs vocab_defs)
interpretation unit_table: code_table pageUnitCodes "''''"
  by unfold_locales (simp_all add: table_defs vocab_defs)
interpretation level_table: code_table pageLevelCodes "''''"
  by unfold_locales (simp_all add: table_defs vocab_defs)
interpretation band_table: code_table pageBandCodes "''''"
  by unfold_locales (simp_all add: table_defs vocab_defs)
interpretation platform_table: code_table pagePlatformCodes "''''"
  by unfold_locales (simp_all add: table_defs vocab_defs)
interpretation killmode_table: code_table pageKillModeCodes "''''"
  by unfold_locales (simp_all add: table_defs vocab_defs)
interpretation trend_table: code_table pageTrendCodes TrendUnknown
  by unfold_locales (simp_all add: table_defs vocab_defs)
interpretation resource_table: code_table pageLimitingResourceCodes ResourceUnknown
  by unfold_locales (simp_all add: table_defs vocab_defs)
interpretation killreason_table: code_table pageKillModeReasonCodes KillReasonUnknown
  by unfold_locales (simp_all add: table_defs vocab_defs)


section \<open>Open enums never let an unknown string through\<close>

locale open_enum =
  fixes valid :: "string \<Rightarrow> bool" and unknown :: string
  assumes unknown_valid: "valid unknown" and unknown_set: "unknown \<noteq> ''''"
begin

lemma decode_known:
  "decodeOpenEnum um valid b unknown = Inr v \<Longrightarrow> v = '''' \<or> valid v"
  using unknown_valid by (auto simp: decodeOpenEnum_def split: sum.splits if_splits)

lemma decode_spec:
  "(case um b of
      Inl err \<Rightarrow> decodeOpenEnum um valid b unknown = Inl err
    | Inr s \<Rightarrow> decodeOpenEnum um valid b unknown = Inr (if s = [] \<or> valid s then s else unknown)) \<and>
   (\<forall>v. decodeOpenEnum um valid b unknown = Inr v \<longrightarrow> v = [] \<or> valid v)"
  using decode_known [of um b] by (auto simp: decodeOpenEnum_def split: sum.split)

lemma decode_total:
  "um b = Inr s \<Longrightarrow> \<exists>v. decodeOpenEnum um valid b unknown = Inr v"
  by (simp add: decodeOpenEnum_def)

lemma decode_keeps:
  "um b = Inr s \<Longrightarrow> s = '''' \<or> valid s \<Longrightarrow> decodeOpenEnum um valid b unknown = Inr s"
  by (auto simp: decodeOpenEnum_def)

lemma decode_empty:
  "decodeOpenEnum um valid b unknown = Inr '''' \<longleftrightarrow> um b = Inr ''''"
  using unknown_set by (auto simp: decodeOpenEnum_def split: sum.splits if_splits)

end

lemmas valid_defs =
  SignalUnit_Valid_def Level_Valid_def Band_Valid_def Trend_Valid_def LimitingResource_Valid_def
  KillModeName_Valid_def KillModeReason_Valid_def WouldKillReason_Valid_def
  PolicyOutcome_Valid_def PolicyField_Valid_def CounterWindow_Valid_def CounterReason_Valid_def
  WriterShape_Valid_def Platform_Valid_def

interpretation trend_enum: open_enum Trend_Valid TrendUnknown
  by unfold_locales (simp_all add: valid_defs vocab_defs)
interpretation resource_enum: open_enum LimitingResource_Valid ResourceUnknown
  by unfold_locales (simp_all add: valid_defs vocab_defs)
interpretation killreason_enum: open_enum KillModeReason_Valid KillReasonUnknown
  by unfold_locales (simp_all add: valid_defs vocab_defs)
interpretation wouldkill_enum: open_enum WouldKillReason_Valid WouldKillUnknown
  by unfold_locales (simp_all add: valid_defs vocab_defs)
interpretation counter_enum: open_enum CounterReason_Valid CounterUnknown
  by unfold_locales (simp_all add: valid_defs vocab_defs)


section \<open>Signals\<close>

lemma SignalID_PageCode_pageCode:
  "SignalID_PageCode s = fst (pageCode signalCodes s '''')"
  using signal_table.empty_free
  by (auto simp: SignalID_PageCode_def pageCode_def split: option.split)

lemma SignalID_Valid_iff: "SignalID_Valid s \<longleftrightarrow> s \<in> set signalCodes"
proof
  assume "SignalID_Valid s"
  then show "s \<in> set signalCodes"
    by (rule contrapos_pp) (simp add: SignalID_Valid_def SignalID_PageCode_def)
next
  assume "s \<in> set signalCodes"
  then obtain k where k: "k < length signalCodes" "s = signalCodes ! k" by (metis in_set_conv_nth)
  with signal_table.pageCode_nth [of k] signal_table.code_small [of k]
  have "unat (SignalID_PageCode s) = k + 1" by (simp add: SignalID_PageCode_pageCode)
  then show "SignalID_Valid s" by (auto simp: SignalID_Valid_def)
qed

lemma SignalForPageCode_codeValue:
  "SignalForPageCode c =
     (case codeValue signalCodes c of None \<Rightarrow> ('''', False) | Some s \<Rightarrow> (s, True))"
proof -
  have "word_of_nat (length signalCodes) < c \<longleftrightarrow> length signalCodes < unat c"
    using signal_table.short_table by (simp add: word_less_nat_alt unat_of_nat)
  moreover have "c \<noteq> 0 \<Longrightarrow> unat (c - 1) = unat c - 1"
    by (simp add: unat_minus_one)
  ultimately show ?thesis by (simp add: SignalForPageCode_def codeValue_def)
qed

lemma signal_cases:
  assumes "SignalID_Valid s"
  obtains "s = SignalMemoryAvailable" | "s = SignalMemoryCompressor" | "s = SignalMemorySwap"
  | "s = SignalSwapfsAvailable" | "s = SignalNodefsAvailable" | "s = SignalImagefsAvailable"
  | "s = SignalPIDAvailable"
  using assms by (auto simp: SignalID_Valid_iff signalCodes_def)

lemma SignalID_Unit_valid: "SignalID_Unit s \<noteq> [] \<longleftrightarrow> SignalID_Valid s"
proof
  assume "SignalID_Unit s \<noteq> []"
  then show "SignalID_Valid s"
    by (auto simp: SignalID_Valid_iff SignalID_Unit_def signalCodes_def split: if_splits)
next
  assume "SignalID_Valid s"
  moreover have "UnitPermille \<noteq> []" "UnitCount \<noteq> []" "UnitBytes \<noteq> []"
    by (simp_all add: vocab_defs)
  ultimately show "SignalID_Unit s \<noteq> []"
    by (auto elim!: signal_cases simp: SignalID_Unit_def)
qed

lemma IsDescending_known:
  "SignalID_Valid s \<Longrightarrow>
   IsDescending s \<longleftrightarrow> s \<noteq> SignalMemoryCompressor \<and> s \<noteq> SignalMemorySwap"
  by (erule signal_cases) (simp_all add: IsDescending_def HasSuffix_def vocab_defs)

section \<open>Properties\<close>

text \<open>Signals and page codes determine each other: a code names a signal exactly when
  that signal is one this release knows and its \<open>PageCode\<close> is that code. So decoding inverts
  encoding, no two signals share a code, and 0 names none.\<close>

theorem SignalForPageCode_inverts:
  "SignalForPageCode c = (s, True) \<longleftrightarrow> SignalID_Valid s \<and> SignalID_PageCode s = c"
proof
  assume "SignalForPageCode c = (s, True)"
  then have v: "codeValue signalCodes c = Some s"
    by (auto simp: SignalForPageCode_codeValue split: option.splits)
  from signal_table.pageCode_codeValue [OF v] have "SignalID_PageCode s = c"
    by (simp add: SignalID_PageCode_pageCode)
  moreover from v have "c \<noteq> 0" by (auto simp: codeValue_def)
  ultimately show "SignalID_Valid s \<and> SignalID_PageCode s = c" by (simp add: SignalID_Valid_def)
next
  assume s: "SignalID_Valid s \<and> SignalID_PageCode s = c"
  then have "snd (pageCode signalCodes s '''')"
    by (simp add: signal_table.pageCode_ok_iff SignalID_Valid_iff)
  with s have "pageCode signalCodes s '''' = (c, True)"
    by (simp add: SignalID_PageCode_pageCode prod_eq_iff)
  from signal_table.pageCode_value [OF this] s have "codeValue signalCodes c = Some s"
    using signal_table.empty_free by (auto simp: SignalID_Valid_iff)
  then show "SignalForPageCode c = (s, True)" by (simp add: SignalForPageCode_codeValue)
qed

text \<open>Every page table encodes without loss: a value a table accepts is recovered from
  its code, except that the empty value and the type's unknown value both encode as 0; a
  value outside the table is refused.\<close>

theorem page_tables_lossless:
  assumes "(table, unknown) \<in> {(signalCodes, ''''), (pageUnitCodes, ''''), (pageLevelCodes, ''''),
    (pageBandCodes, ''''), (pagePlatformCodes, ''''), (pageKillModeCodes, ''''),
    (pageTrendCodes, TrendUnknown), (pageLimitingResourceCodes, ResourceUnknown),
    (pageKillModeReasonCodes, KillReasonUnknown)}"
  shows "case pageCode table v unknown of
      (c, True) \<Rightarrow> codeValue table c = (if v = '''' \<or> v = unknown then None else Some v)
    | (c, False) \<Rightarrow> v \<notin> set table \<and> v \<noteq> '''' \<and> v \<noteq> unknown"
proof -
  have step: "code_table t u \<Longrightarrow> case pageCode t v u of
      (c, True) \<Rightarrow> codeValue t c = (if v = '''' \<or> v = u then None else Some v)
    | (c, False) \<Rightarrow> v \<notin> set t \<and> v \<noteq> '''' \<and> v \<noteq> u" for t u
    using code_table.pageCode_value [of t u v] code_table.pageCode_ok_iff [of t u v]
    by (cases "pageCode t v u") (auto split: bool.split)
  from assms have "code_table table unknown"
    using signal_table.code_table_axioms unit_table.code_table_axioms level_table.code_table_axioms
      band_table.code_table_axioms platform_table.code_table_axioms killmode_table.code_table_axioms
      trend_table.code_table_axioms resource_table.code_table_axioms
      killreason_table.code_table_axioms
    by auto
  then show ?thesis by (rule step)
qed

theorem page_tables_lossless_witness:
  "pageCode pageTrendCodes TrendRising TrendUnknown = (3, True) \<and>
   codeValue pageTrendCodes 3 = Some TrendRising"
  using page_tables_lossless [of pageTrendCodes TrendUnknown TrendRising]
  by (simp add: pageCode_def pageTrendCodes_def vocab_defs)

text \<open>The decoders of the producer vocabularies never let a newer producer's text
  through: each fails exactly when the JSON is not a string, and otherwise yields the decoded
  string when it is empty or known, and the type's unknown value when it is not.\<close>

theorem open_enums_closed:
  fixes um :: "string \<Rightarrow> 'e + string"
  assumes "dec \<in> {(Trend_UnmarshalJSON um, Trend_Valid, TrendUnknown),
    (LimitingResource_UnmarshalJSON um, LimitingResource_Valid, ResourceUnknown),
    (KillModeReason_UnmarshalJSON um, KillModeReason_Valid, KillReasonUnknown),
    (WouldKillReason_UnmarshalJSON um, WouldKillReason_Valid, WouldKillUnknown),
    (CounterReason_UnmarshalJSON um, CounterReason_Valid, CounterUnknown)}"
  shows "case dec of (unmarshalJSON, valid, unknown) \<Rightarrow>
    (case um b of
       Inl err \<Rightarrow> unmarshalJSON b = Inl err
     | Inr s \<Rightarrow> unmarshalJSON b = Inr (if s = '''' \<or> valid s then s else unknown)) \<and>
    (\<forall>v. unmarshalJSON b = Inr v \<longrightarrow> v = '''' \<or> valid v)"
proof -
  obtain f valid unknown where dec: "dec = (f, valid, unknown)" by (cases dec)
  from assms dec have f: "f b = decodeOpenEnum um valid b unknown" and "open_enum valid unknown"
    using trend_enum.open_enum_axioms resource_enum.open_enum_axioms
      killreason_enum.open_enum_axioms wouldkill_enum.open_enum_axioms counter_enum.open_enum_axioms
    by (auto simp: Trend_UnmarshalJSON_def LimitingResource_UnmarshalJSON_def
        KillModeReason_UnmarshalJSON_def WouldKillReason_UnmarshalJSON_def CounterReason_UnmarshalJSON_def)
  from open_enum.decode_spec [OF this(2)] show ?thesis unfolding dec prod.case f .
qed

theorem open_enums_closed_witness:
  "Trend_UnmarshalJSON (\<lambda>b. Inr b :: unit + string) ''sideways'' = Inr TrendUnknown"
  using open_enums_closed [of "(Trend_UnmarshalJSON (\<lambda>b. Inr b :: unit + string), Trend_Valid, TrendUnknown)"
      "\<lambda>b. Inr b" "''sideways''"]
  by (simp add: Trend_Valid_def vocab_defs)

end
