(* ===== verification/Regex.thy ===== *)
theory Regex
  imports Prelude
begin

text \<open>
  The regular expressions of the sources and their matcher. \<open>rexp\<close> covers the operators
  the patterns use (classes, concatenation, alternation, \<open>*\<close> and \<open>?\<close>), the matcher
  takes Brzozowski derivatives and is shown to decide the language. The two DNS-1123
  patterns, repeated in \<open>budget/v1alpha1/validate.go\<close>, \<open>net/v1alpha1/interconnect.go\<close>
  and \<open>storage/v1/storage.go\<close>, get a characterisation without regular expressions.
\<close>

section \<open>Byte classes\<close>

definition is_lower :: "char \<Rightarrow> bool" where
  "is_lower c = (97 \<le> byte_of c \<and> byte_of c \<le> 122)"

definition is_upper :: "char \<Rightarrow> bool" where
  "is_upper c = (65 \<le> byte_of c \<and> byte_of c \<le> 90)"

definition is_digit :: "char \<Rightarrow> bool" where
  "is_digit c = (48 \<le> byte_of c \<and> byte_of c \<le> 57)"

definition lower_alnum :: "char \<Rightarrow> bool" where
  "lower_alnum c = (is_lower c \<or> is_digit c)"

lemma lower_alnum_not_special [simp]: "\<not> lower_alnum (CHR ''.'')" "\<not> lower_alnum (CHR ''-'')"
  by (simp_all add: lower_alnum_def is_lower_def is_digit_def byte_of_def)


section \<open>Expressions and their languages\<close>

datatype rexp =
    Empty
  | Cls "char \<Rightarrow> bool"
  | Seq rexp rexp
  | Alt rexp rexp
  | Star rexp
  | Void

abbreviation Opt :: "rexp \<Rightarrow> rexp" where
  "Opt r \<equiv> Alt Empty r"

inductive matches :: "rexp \<Rightarrow> string \<Rightarrow> bool" where
  m_Empty: "matches Empty []"
| m_Cls: "p c \<Longrightarrow> matches (Cls p) [c]"
| m_Seq: "matches r s \<Longrightarrow> matches q t \<Longrightarrow> matches (Seq r q) (s @ t)"
| m_AltL: "matches r s \<Longrightarrow> matches (Alt r q) s"
| m_AltR: "matches q s \<Longrightarrow> matches (Alt r q) s"
| m_Star_done: "matches (Star r) []"
| m_Star_step: "matches r s \<Longrightarrow> matches (Star r) t \<Longrightarrow> matches (Star r) (s @ t)"

inductive_simps m_Empty_iff [simp]: "matches Empty s"
inductive_simps m_Void_iff [simp]: "matches Void s"
inductive_simps m_Cls_iff: "matches (Cls p) s"
inductive_simps m_Seq_iff: "matches (Seq r q) s"
inductive_simps m_Alt_iff: "matches (Alt r q) s"

primrec nullable :: "rexp \<Rightarrow> bool" where
  "nullable Void = False"
| "nullable Empty = True"
| "nullable (Cls p) = False"
| "nullable (Seq r q) = (nullable r \<and> nullable q)"
| "nullable (Alt r q) = (nullable r \<or> nullable q)"
| "nullable (Star r) = True"

primrec deriv :: "char \<Rightarrow> rexp \<Rightarrow> rexp" where
  "deriv c Void = Void"
| "deriv c Empty = Void"
| "deriv c (Cls p) = (if p c then Empty else Void)"
| "deriv c (Seq r q) =
     (if nullable r then Alt (Seq (deriv c r) q) (deriv c q) else Seq (deriv c r) q)"
| "deriv c (Alt r q) = Alt (deriv c r) (deriv c q)"
| "deriv c (Star r) = Seq (deriv c r) (Star r)"

primrec MatchString :: "rexp \<Rightarrow> string \<Rightarrow> bool" where
  "MatchString r [] = nullable r"
| "MatchString r (c # s) = MatchString (deriv c r) s"

lemma nullable_iff: "nullable r \<longleftrightarrow> matches r []"
  by (induction r) (auto simp: m_Seq_iff m_Alt_iff m_Cls_iff intro: matches.intros)

lemma star_Cons:
  "matches (Star r) u \<Longrightarrow> u = c # s \<Longrightarrow>
   \<exists>s1 s2. s = s1 @ s2 \<and> matches r (c # s1) \<and> matches (Star r) s2"
proof (induction "Star r" u arbitrary: s rule: matches.induct)
  case (m_Star_step x t)
  show ?case
  proof (cases x)
    case Nil
    with m_Star_step show ?thesis by auto
  next
    case (Cons d y)
    with m_Star_step show ?thesis by auto
  qed
qed simp

lemma deriv_iff: "matches (deriv c r) s \<longleftrightarrow> matches r (c # s)"
proof (induction r arbitrary: s)
  case (Seq r q)
  then show ?case
    by (auto simp: m_Seq_iff m_Alt_iff nullable_iff Cons_eq_append_conv)
next
  case (Star r)
  show ?case
  proof
    assume "matches (deriv c (Star r)) s"
    then obtain x y where "s = x @ y" "matches r (c # x)" "matches (Star r) y"
      using Star by (auto simp: m_Seq_iff)
    then show "matches (Star r) (c # s)"
      using m_Star_step [of r "c # x" y] by simp
  next
    assume "matches (Star r) (c # s)"
    from star_Cons [OF this refl] show "matches (deriv c (Star r)) s"
      using Star by (auto intro: m_Seq)
  qed
qed (auto simp: m_Alt_iff m_Cls_iff intro: matches.intros)

theorem MatchString_iff: "MatchString r s \<longleftrightarrow> matches r s"
  by (induction s arbitrary: r) (simp_all add: nullable_iff deriv_iff)

section \<open>The DNS-1123 patterns\<close>

lemma m_Seq_head: "matches (Seq (Cls p) r) s \<longleftrightarrow> (\<exists>c t. s = c # t \<and> p c \<and> matches r t)"
proof
  assume "matches (Seq (Cls p) r) s"
  then show "\<exists>c t. s = c # t \<and> p c \<and> matches r t" by (auto simp: m_Seq_iff m_Cls_iff)
next
  assume "\<exists>c t. s = c # t \<and> p c \<and> matches r t"
  then obtain c t where "s = [c] @ t" "p c" "matches r t" by auto
  then show "matches (Seq (Cls p) r) s" by (simp only: m_Seq m_Cls)
qed

lemma m_Seq_last: "matches (Seq r (Cls p)) s \<longleftrightarrow> (\<exists>m d. s = m @ [d] \<and> matches r m \<and> p d)"
proof
  assume "matches (Seq r (Cls p)) s"
  then show "\<exists>m d. s = m @ [d] \<and> matches r m \<and> p d" by (auto simp: m_Seq_iff m_Cls_iff)
next
  assume "\<exists>m d. s = m @ [d] \<and> matches r m \<and> p d"
  then obtain m d where "s = m @ [d]" "p d" "matches r m" by blast
  then show "matches (Seq r (Cls p)) s" by (simp only: m_Seq m_Cls)
qed

lemma star_Cls: "matches (Star (Cls p)) s \<longleftrightarrow> (\<forall>c \<in> set s. p c)"
proof
  assume "matches (Star (Cls p)) s"
  then show "\<forall>c \<in> set s. p c"
    by (induction "Star (Cls p)" s rule: matches.induct) (auto simp: m_Cls_iff)
next
  assume "\<forall>c \<in> set s. p c"
  then show "matches (Star (Cls p)) s"
  proof (induction s)
    case (Cons c s)
    then show ?case using m_Star_step [of "Cls p" "[c]" s] by (auto intro: m_Cls)
  qed (rule m_Star_done)
qed

definition label_byte :: "char \<Rightarrow> bool" where
  "label_byte c = (c = CHR ''-'' \<or> lower_alnum c)"

definition dns1123LabelRE :: rexp where
  "dns1123LabelRE =
     Seq (Cls lower_alnum) (Opt (Seq (Star (Cls label_byte)) (Cls lower_alnum)))"

definition dns1123SubdomainRE :: rexp where
  "dns1123SubdomainRE =
     Seq dns1123LabelRE (Star (Seq (Cls (\<lambda>c. c = CHR ''.'')) dns1123LabelRE))"

text \<open>The same shapes without regular expressions: a label is a non-empty run of
  letters, digits and dashes that starts and ends with a letter or digit, and a
  subdomain is labels separated by dots.\<close>

definition label_ok :: "string \<Rightarrow> bool" where
  "label_ok s = (s \<noteq> [] \<and> lower_alnum (hd s) \<and> lower_alnum (last s) \<and> (\<forall>c \<in> set s. label_byte c))"

definition subdomain_ok :: "string \<Rightarrow> bool" where
  "subdomain_ok s = (\<forall>l \<in> set (split_on (CHR ''.'') s). label_ok l)"

lemma label_byte_alnum: "lower_alnum c \<Longrightarrow> label_byte c"
  by (simp add: label_byte_def)

lemma label_byte_dot: "\<not> label_byte (CHR ''.'')"
  by (simp add: label_byte_def)

lemma matches_label_parts:
  "matches dns1123LabelRE s \<longleftrightarrow>
     (\<exists>c t. s = c # t \<and> lower_alnum c \<and>
       (t = [] \<or> (\<exists>m d. t = m @ [d] \<and> (\<forall>x \<in> set m. label_byte x) \<and> lower_alnum d)))"
  by (simp add: dns1123LabelRE_def m_Alt_iff m_Seq_head m_Seq_last star_Cls)

lemma dns1123Label_iff: "MatchString dns1123LabelRE s \<longleftrightarrow> label_ok s"
  unfolding MatchString_iff matches_label_parts
proof
  assume "\<exists>c t. s = c # t \<and> lower_alnum c \<and>
    (t = [] \<or> (\<exists>m d. t = m @ [d] \<and> (\<forall>x \<in> set m. label_byte x) \<and> lower_alnum d))"
  then show "label_ok s" by (elim exE conjE disjE) (simp_all add: label_ok_def label_byte_alnum)
next
  assume ok: "label_ok s"
  then obtain c t where s: "s = c # t" by (cases s) (auto simp: label_ok_def)
  show "\<exists>c t. s = c # t \<and> lower_alnum c \<and>
    (t = [] \<or> (\<exists>m d. t = m @ [d] \<and> (\<forall>x \<in> set m. label_byte x) \<and> lower_alnum d))"
    using ok s by (cases t rule: rev_cases) (simp_all add: label_ok_def)
qed

lemmas matches_label_iff = dns1123Label_iff [unfolded MatchString_iff]

lemma label_ok_no_dot: "label_ok l \<Longrightarrow> CHR ''.'' \<notin> set l"
  using label_byte_dot unfolding label_ok_def by blast

lemma dot_labels_split:
  assumes "matches (Star (Seq (Cls (\<lambda>c. c = CHR ''.'')) dns1123LabelRE)) t" "label_ok l"
  shows "subdomain_ok (l @ t)"
  using assms
proof (induction "Star (Seq (Cls (\<lambda>c. c = CHR ''.'')) dns1123LabelRE)" t arbitrary: l rule: matches.induct)
  case m_Star_done
  then show ?case by (simp add: subdomain_ok_def label_ok_no_dot)
next
  case (m_Star_step x u)
  then obtain k where x: "x = CHR ''.'' # k" and k: "label_ok k"
    by (auto simp: m_Seq_head matches_label_iff)
  have "subdomain_ok (k @ u)" using m_Star_step.hyps k by blast
  moreover have "split_on (CHR ''.'') (l @ x @ u) = l # split_on (CHR ''.'') (k @ u)"
    using split_on_append [OF label_ok_no_dot [OF m_Star_step.prems]] by (simp only: x append_Cons)
  ultimately show ?case
    unfolding subdomain_ok_def by (simp only: list.set ball_simps m_Star_step.prems simp_thms)
qed

lemma split_labels_matches:
  assumes "ws \<noteq> []" "\<forall>l \<in> set ws. label_ok l"
  shows "matches dns1123SubdomainRE (join_with (CHR ''.'') ws)"
proof -
  let ?d = "Seq (Cls (\<lambda>c. c = CHR ''.'')) dns1123LabelRE"
  have star: "\<forall>l \<in> set ks. label_ok l \<Longrightarrow> ks \<noteq> [] \<Longrightarrow> matches (Star ?d) (CHR ''.'' # join_with (CHR ''.'') ks)" for ks
  proof (induction ks)
    case (Cons k ks)
    from Cons.prems have k: "matches ?d (CHR ''.'' # k)"
      by (simp add: m_Seq_head matches_label_iff)
    show ?case
    proof (cases "ks = []")
      case True
      with k show ?thesis using m_Star_step [OF k m_Star_done] by simp
    next
      case False
      with Cons.prems have "matches (Star ?d) (CHR ''.'' # join_with (CHR ''.'') ks)"
        by (intro Cons.IH) simp_all
      from m_Star_step [OF k this] False show ?thesis by simp
    qed
  qed simp
  obtain w ks where ws: "ws = w # ks" using assms(1) by (cases ws) auto
  with assms have w: "matches dns1123LabelRE w"
    by (simp add: matches_label_iff)
  show ?thesis
  proof (cases "ks = []")
    case True
    with ws show ?thesis
      using m_Seq [OF w m_Star_done] by (simp add: dns1123SubdomainRE_def)
  next
    case False
    with ws assms have "matches (Star ?d) (CHR ''.'' # join_with (CHR ''.'') ks)"
      by (intro star) simp_all
    from m_Seq [OF w this] ws False show ?thesis by (simp add: dns1123SubdomainRE_def)
  qed
qed

theorem dns1123Subdomain_iff: "MatchString dns1123SubdomainRE s \<longleftrightarrow> subdomain_ok s"
proof
  assume "MatchString dns1123SubdomainRE s"
  then obtain l t where "s = l @ t" "label_ok l"
    "matches (Star (Seq (Cls (\<lambda>c. c = CHR ''.'')) dns1123LabelRE)) t"
    unfolding MatchString_iff dns1123SubdomainRE_def m_Seq_iff matches_label_iff by blast
  then show "subdomain_ok s" by (simp add: dot_labels_split)
next
  assume "subdomain_ok s"
  then show "MatchString dns1123SubdomainRE s"
    using split_labels_matches [of "split_on (CHR ''.'') s"]
    by (simp add: MatchString_iff subdomain_ok_def)
qed

end
