(* ===== verification/Ladder.thy ===== *)
theory Ladder
  imports Vocab Regex "HOL-Library.More_List"
begin

text \<open>
  The field checks of \<open>budget/v1alpha1/validate.go\<close>, the compiled floors of
  \<open>floors.go\<close>, and the pressure ladder rules (\<open>checkLadder\<close> in
  \<open>nodebudgetpolicy.go\<close>), which both the observation and the policy validators call.
  \<open>ladder_ok\<close> is the rule as the CRD states it; \<open>checkLadder_iff\<close> shows that the loops
  decide exactly that, and \<open>ladder_reached_mono\<close> what the order of the rungs buys a
  reader.
\<close>

section \<open>Field checks\<close>

datatype field_err =
    Negative string int
  | NotPermille string int

definition nonNegative :: "string \<Rightarrow> 'w::len word ptr \<Rightarrow> field_err option" where
  "nonNegative name v =
     opt_err (\<lambda>x. fail_if (sint x < 0) (Negative name (sint x))) (deref v)"

definition permille :: "string \<Rightarrow> 'w::len word ptr \<Rightarrow> field_err option" where
  "permille name v =
     opt_err (\<lambda>x. fail_if (sint x < 0 \<or> sint x > 1000) (NotPermille name (sint x))) (deref v)"

definition isObjectName :: "string \<Rightarrow> bool" where
  "isObjectName s = (length s \<le> 253 \<and> MatchString dns1123SubdomainRE s)"

definition isPrintableASCII :: "string \<Rightarrow> nat \<Rightarrow> bool" where
  "isPrintableASCII s mx =
     (if s = [] \<or> length s > mx then False
      else list_all (\<lambda>c. \<not> (byte_of c < 32 \<or> byte_of c > 126)) s)"

text \<open>A set value is not negative.\<close>

definition nonneg :: "'w::len word ptr \<Rightarrow> bool" where
  "nonneg p = (\<forall>v. deref p = Some v \<longrightarrow> 0 \<le> sint v)"

definition in_permille :: "'w::len word ptr \<Rightarrow> bool" where
  "in_permille p = (\<forall>v. deref p = Some v \<longrightarrow> 0 \<le> sint v \<and> sint v \<le> 1000)"

lemma nonneg_simps [simp]: "nonneg NilP" "nonneg (Ptr a v) \<longleftrightarrow> 0 \<le> sint v"
  by (simp_all add: nonneg_def)

lemma in_permille_simps [simp]:
  "in_permille NilP" "in_permille (Ptr a v) \<longleftrightarrow> 0 \<le> sint v \<and> sint v \<le> 1000"
  by (simp_all add: in_permille_def)

lemma nonNegative_None [check_simps]: "nonNegative name v = None \<longleftrightarrow> nonneg v"
  by (cases v) (simp_all add: nonNegative_def check_simps not_less)

lemma permille_None [check_simps]: "permille name v = None \<longleftrightarrow> in_permille v"
  by (cases v) (auto simp: permille_def check_simps)

lemma isObjectName_iff: "isObjectName s \<longleftrightarrow> length s \<le> 253 \<and> subdomain_ok s"
  by (simp add: isObjectName_def dns1123Subdomain_iff)

lemma isObjectName_not_Nil: "isObjectName s \<Longrightarrow> s \<noteq> []"
  by (auto simp: isObjectName_iff subdomain_ok_def label_ok_def)

lemma isPrintableASCII_iff:
  "isPrintableASCII s mx \<longleftrightarrow>
     0 < length s \<and> length s \<le> mx \<and> (\<forall>c \<in> set s. 32 \<le> byte_of c \<and> byte_of c \<le> 126)"
  by (auto simp: isPrintableASCII_def list_all_iff not_less)


section \<open>Compiled floors\<close>

definition MinTier1GraceSeconds :: int64 where [const_defs]: "MinTier1GraceSeconds = 10"
definition MinTier1HeldSeconds :: int64 where [const_defs]: "MinTier1HeldSeconds = 10"
definition DefaultTier1HeldSeconds :: int64 where [const_defs]: "DefaultTier1HeldSeconds = 30"
definition MaxTier1DeliveriesPerHour :: int32 where [const_defs]: "MaxTier1DeliveriesPerHour = 6"
definition MinTier1DeliveriesPerHour :: int32 where [const_defs]: "MinTier1DeliveriesPerHour = 1"
definition MinTier1CooloffSeconds :: int64 where [const_defs]: "MinTier1CooloffSeconds = 300"
definition DefaultTier1CooloffSeconds :: int64 where [const_defs]: "DefaultTier1CooloffSeconds = 1800"
definition ArmingEpisodesRequired :: int32 where [const_defs]: "ArmingEpisodesRequired = 3"
definition DefaultMemoryHalfLifeSeconds :: int64 where
  [const_defs]: "DefaultMemoryHalfLifeSeconds = 172800"
definition DefaultCPUHalfLifeSeconds :: int64 where
  [const_defs]: "DefaultCPUHalfLifeSeconds = 43200"
definition DefaultMarginPermille :: int32 where [const_defs]: "DefaultMarginPermille = 150"


section \<open>The ladder\<close>

definition rungNames :: "string list" where
  "rungNames = [''warnThreshold'', ''admitStopThreshold'', ''criticalThreshold'',
     ''evictSoftThreshold'', ''evictHardThreshold'']"

definition releaseNames :: "string list" where
  "releaseNames = [''warnRelease'', ''admitStopRelease'', ''criticalRelease'',
     ''evictSoftRelease'', ''evictHardRelease'']"

datatype ladder_err =
    LadderField field_err
  | MustBeAbove string int string int
  | MustBeBelow string int string int
  | NoEvictSoftRung

text \<open>The body of the two ordering loops: \<open>a\<close> is the value that must lie on the calm
  side of \<open>b\<close>. A nil operand is skipped.\<close>

definition checkOrder ::
  "bool \<Rightarrow> string \<Rightarrow> int64 ptr \<Rightarrow> string \<Rightarrow> int64 ptr \<Rightarrow> ladder_err option"
where
  "checkOrder desc na a nb b =
     (case (deref a, deref b) of
        (Some x, Some y) \<Rightarrow>
          if desc \<and> sint x \<le> sint y then Some (MustBeAbove na (sint x) nb (sint y))
          else if \<not> desc \<and> sint x \<ge> sint y then Some (MustBeBelow na (sint x) nb (sint y))
          else None
      | _ \<Rightarrow> None)"

definition checkLadder ::
  "SignalID \<Rightarrow> int64 ptr list \<Rightarrow> int64 ptr list \<Rightarrow> ladder_err option"
where
  "checkLadder sig rungs releases =
     (let desc = IsDescending sig; n = length rungs in
      first_err
        [first_err (map (\<lambda>i. first_err
             [map_option LadderField (nonNegative (rungNames ! i) (rungs ! i)),
              map_option LadderField (nonNegative (releaseNames ! i) (releases ! i))]) [0..<n]),
         first_err (concat (map (\<lambda>i. map (\<lambda>j.
             checkOrder desc (rungNames ! i) (rungs ! i) (rungNames ! j) (rungs ! j))
             [i + 1..<n]) [0..<n])),
         first_err (map (\<lambda>i.
             checkOrder desc (releaseNames ! i) (releases ! i) (rungNames ! i) (rungs ! i)) [0..<n]),
         fail_if (sig = SignalMemorySwap \<and> rungs ! 3 \<noteq> NilP) NoEvictSoftRung])"

text \<open>The rule: \<open>a\<close> is on the calm side of \<open>b\<close>, strictly.\<close>

definition calmer :: "bool \<Rightarrow> int64 \<Rightarrow> int64 \<Rightarrow> bool" where
  "calmer desc a b = (if desc then sint b < sint a else sint a < sint b)"

definition ladder_ok :: "SignalID \<Rightarrow> int64 ptr list \<Rightarrow> int64 ptr list \<Rightarrow> bool" where
  "ladder_ok sig rungs releases =
     (list_all nonneg rungs \<and> list_all nonneg releases \<and>
      sorted_wrt (calmer (IsDescending sig)) (List.map_filter deref rungs) \<and>
      list_all2 (\<lambda>rel r. \<forall>x y. deref rel = Some x \<longrightarrow> deref r = Some y \<longrightarrow>
          calmer (IsDescending sig) x y) releases rungs \<and>
      (sig = SignalMemorySwap \<longrightarrow> rungs ! 3 = NilP))"

lemma checkOrder_None:
  "checkOrder desc na a nb b = None \<longleftrightarrow>
     (\<forall>x y. deref a = Some x \<longrightarrow> deref b = Some y \<longrightarrow> calmer desc x y)"
  by (cases a; cases b) (auto simp: checkOrder_def calmer_def)

lemma sorted_wrt_map_filter:
  "sorted_wrt P (List.map_filter f xs) \<longleftrightarrow>
     (\<forall>j < length xs. \<forall>i < j. \<forall>a b. f (xs ! i) = Some a \<longrightarrow> f (xs ! j) = Some b \<longrightarrow> P a b)"
proof (induction xs)
  case (Cons x xs)
  have mem: "b \<in> set (List.map_filter f xs) \<longleftrightarrow> (\<exists>j < length xs. f (xs ! j) = Some b)" for b
    by (induction xs) (auto simp: map_filter_simps Ex_less_Suc2 split: option.split)
  show ?case
    by (cases "f x") (auto simp: Cons mem map_filter_simps All_less_Suc2)
qed (simp add: map_filter_simps)

theorem checkLadder_iff:
  assumes "length releases = length rungs"
  shows "checkLadder sig rungs releases = None \<longleftrightarrow> ladder_ok sig rungs releases"
  using assms unfolding checkLadder_def Let_def check_simps checkOrder_None ladder_ok_def
    sorted_wrt_map_filter list_all_length list_all2_conv_all_nth
  by auto

text \<open>A value has reached a rung when it is at the rung or past it in the direction of
  rising pressure. On a ladder that passes the checks, a value that reached a rung has
  reached every earlier set rung, and a value at a release has not reached its rung.\<close>

definition reached :: "bool \<Rightarrow> int64 \<Rightarrow> int64 \<Rightarrow> bool" where
  "reached desc v r = (if desc then sint v \<le> sint r else sint r \<le> sint v)"

lemma ladder_reached_mono:
  assumes "ladder_ok sig rungs releases" "j < length rungs" "i < j"
    and "deref (rungs ! i) = Some a" "deref (rungs ! j) = Some b"
    and "reached (IsDescending sig) v b"
  shows "reached (IsDescending sig) v a"
proof -
  from assms have "calmer (IsDescending sig) a b"
    by (simp add: ladder_ok_def sorted_wrt_map_filter)
  with assms(6) show ?thesis by (simp add: reached_def calmer_def split: if_splits)
qed

lemma ladder_release_clears:
  assumes "ladder_ok sig rungs releases" "i < length rungs"
    and "deref (rungs ! i) = Some r" "deref (releases ! i) = Some rel"
  shows "\<not> reached (IsDescending sig) rel r"
proof -
  from assms have "calmer (IsDescending sig) rel r"
    by (auto simp: ladder_ok_def list_all2_conv_all_nth)
  then show ?thesis by (simp add: reached_def calmer_def split: if_splits)
qed

section \<open>Properties\<close>

text \<open>(C28) The nested loops of \<open>checkLadder\<close> decide the ladder rule of the contract: no set
  rung or release is negative, the set rungs are strictly ordered in the direction of rising
  pressure, every set release is strictly on the calm side of its set rung, and memory.swap
  has no evict-soft rung.\<close>

theorem checkLadder_decides:
  "checkLadder sig [r0, r1, r2, r3, r4] [q0, q1, q2, q3, q4] = None \<longleftrightarrow>
   ladder_ok sig [r0, r1, r2, r3, r4] [q0, q1, q2, q3, q4]"
  by (rule checkLadder_iff) simp

text \<open>On a ladder that passes \<open>checkLadder\<close> the rungs nest: a value that has reached a
  rung has reached every earlier set rung, and a value at a rung's release has not reached
  that rung, so a level cannot be entered and released at the same value.\<close>

theorem checked_ladder_nests:
  assumes "checkLadder sig rungs releases = None" "length releases = length rungs"
    and "j < length rungs" "deref (rungs ! j) = Some b"
  shows "(\<forall>i < j. \<forall>a v. deref (rungs ! i) = Some a \<longrightarrow> reached (IsDescending sig) v b \<longrightarrow>
            reached (IsDescending sig) v a) \<and>
         (\<forall>rel. deref (releases ! j) = Some rel \<longrightarrow> \<not> reached (IsDescending sig) rel b)"
  using assms ladder_reached_mono ladder_release_clears checkLadder_iff by blast

theorem checked_ladder_nests_witness:
  "checkLadder SignalMemorySwap [Ptr 0 1, NilP, Ptr 1 7, NilP, NilP] [NilP, NilP, Ptr 2 5, NilP, NilP] = None \<and>
   reached (IsDescending SignalMemorySwap) 9 7 \<and> reached (IsDescending SignalMemorySwap) 9 1 \<and>
   \<not> reached (IsDescending SignalMemorySwap) 5 7"
proof -
  have ok: "checkLadder SignalMemorySwap [Ptr 0 1, NilP, Ptr 1 7, NilP, NilP]
      [NilP, NilP, Ptr 2 5, NilP, NilP] = None"
    by (simp add: checkLadder_def Let_def upt_rec first_err_eval nonNegative_def checkOrder_def
        IsDescending_def HasSuffix_def vocab_defs)
  have "reached (IsDescending SignalMemorySwap) 9 7"
    by (simp add: reached_def IsDescending_def HasSuffix_def vocab_defs)
  with ok checked_ladder_nests [OF ok, of 2 7] show ?thesis by force
qed

end
