(* ===== verification/Observation.thy ===== *)
theory Observation
  imports Ladder
begin

text \<open>
  The NodeBudget types and validators of \<open>budget/v1alpha1/nodebudget.go\<close>. Each struct is
  a record whose fields keep the source's names behind a short prefix, each \<open>validate\<close>
  method is a definition that returns the error the method returns, in the order of its
  checks. \<open>well_formed\<close> predicates state what the contract promises of a valid value, and
  the \<open>..._iff\<close> lemmas show that the checks decide exactly that.
\<close>

definition MaxBudgetSignals :: nat where [const_defs]: "MaxBudgetSignals = 8"
definition MaxBudgetConditions :: nat where [const_defs]: "MaxBudgetConditions = 8"
definition MaxClampedFields :: nat where [const_defs]: "MaxClampedFields = 8"
definition MaxPolicyResourceVersionBytes :: nat where
  [const_defs]: "MaxPolicyResourceVersionBytes = 64"
definition MaxWindowCounts :: nat where [const_defs]: "MaxWindowCounts = 12"


section \<open>Types\<close>

record BudgetCapacity =
  cap_CPUCapacityMilli :: "int64 ptr"
  cap_CPUSystemReserveMilli :: "int64 ptr"
  cap_MemCapacityBytes :: "int64 ptr"
  cap_MemSystemReserveBytes :: "int64 ptr"
  cap_MemEvictionReserveBytes :: "int64 ptr"
  cap_MemAllocatableBytes :: "int64 ptr"
  cap_SwapTotalBytes :: "int64 ptr"
  cap_SwapUsedBytes :: "int64 ptr"
  cap_CPUPerformanceCores :: "int64 ptr"
  cap_CPUEfficiencyCores :: "int64 ptr"
  cap_GPUPresent :: "bool ptr"
  cap_GPUCount :: "int64 ptr"

record BudgetSignal =
  sig_ID :: SignalID
  sig_Unit :: SignalUnit
  sig_Value :: "int64 ptr"
  sig_WarnThreshold :: "int64 ptr"
  sig_AdmitStopThreshold :: "int64 ptr"
  sig_CriticalThreshold :: "int64 ptr"
  sig_EvictSoftThreshold :: "int64 ptr"
  sig_EvictHardThreshold :: "int64 ptr"
  sig_WarnRelease :: "int64 ptr"
  sig_AdmitStopRelease :: "int64 ptr"
  sig_CriticalRelease :: "int64 ptr"
  sig_EvictSoftRelease :: "int64 ptr"
  sig_EvictHardRelease :: "int64 ptr"
  sig_GraceSeconds :: "int64 ptr"
  sig_MinReclaimBytes :: "int64 ptr"
  sig_WindowSeconds :: "int64 ptr"
  sig_EtaToNextRungSeconds :: "int64 ptr"
  sig_Trend :: Trend
  sig_LimitingResource :: LimitingResource
  sig_SharedWith :: SignalID

definition BudgetSignal_rungs :: "BudgetSignal \<Rightarrow> int64 ptr list" where
  "BudgetSignal_rungs s = [sig_WarnThreshold s, sig_AdmitStopThreshold s, sig_CriticalThreshold s,
     sig_EvictSoftThreshold s, sig_EvictHardThreshold s]"

definition BudgetSignal_releases :: "BudgetSignal \<Rightarrow> int64 ptr list" where
  "BudgetSignal_releases s = [sig_WarnRelease s, sig_AdmitStopRelease s, sig_CriticalRelease s,
     sig_EvictSoftRelease s, sig_EvictHardRelease s]"

record BudgetRecommendation =
  rec_SafeAdditionalBytes :: "int64 ptr"
  rec_Basis :: SignalID

record KillMode =
  km_Mode :: KillModeName
  km_Armed :: bool
  km_ArmingEpisodes :: int32
  km_Reason :: KillModeReason

record WouldKill =
  wk_Band :: Band
  wk_Reason :: WouldKillReason
  wk_At :: Time

record WindowCount =
  wc_Window :: CounterWindow
  wc_Reason :: CounterReason
  wc_Count :: int64

record BandCounters =
  bc_Band :: Band
  bc_EvictionsTotal :: int64
  bc_OOMKillsTotal :: int64
  bc_KernelKillsTotal :: int64
  bc_RestartsTotal :: int64
  bc_MemHighEventsTotal :: int64
  bc_Tier1RefusedTotal :: int64
  bc_Windows :: "WindowCount slice"

record PolicyRef =
  pr_Name :: string
  pr_ResourceVersion :: string

record AppliedPolicy =
  ap_PolicyRef :: PolicyRef
  ap_Outcome :: PolicyOutcome
  ap_ClampedFields :: "PolicyField slice"

record BudgetWriter =
  bw_Shape :: WriterShape
  bw_NodeNameExtra :: bool

record DarwinCompressor =
  dc_BytesUsed :: "int64 ptr"
  dc_BytesStored :: "int64 ptr"
  dc_SegmentLimitBytes :: "int64 ptr"

record DarwinSignals =
  dw_VMPressureLevel :: "int64 ptr"
  dw_MemorystatusLevelPermille :: "int64 ptr"
  dw_Compressor :: "DarwinCompressor ptr"
  dw_SwapinsTotal :: "int64 ptr"
  dw_SwapoutsTotal :: "int64 ptr"

record PSILine =
  psi_Avg10Permille :: "int64 ptr"
  psi_Avg60Permille :: "int64 ptr"
  psi_TotalUs :: "int64 ptr"

record PSIResource =
  psi_Some :: "PSILine ptr"
  psi_Full :: "PSILine ptr"

record LinuxPSI =
  psi_CPU :: "PSIResource ptr"
  psi_Memory :: "PSIResource ptr"
  psi_IO :: "PSIResource ptr"

record LinuxMemoryEvents =
  me_High :: "int64 ptr"
  me_Max :: "int64 ptr"
  me_OOM :: "int64 ptr"
  me_OOMKill :: "int64 ptr"

record LinuxSignals =
  lx_PSI :: "LinuxPSI ptr"
  lx_MemoryEvents :: "LinuxMemoryEvents ptr"

record NodeBudgetObservation =
  obs_ObservedAt :: Time
  obs_ProducerGeneration :: int64
  obs_Platform :: Platform
  obs_Level :: Level
  obs_Admit :: bool
  obs_AdmitReasonSignal :: SignalID
  obs_EvictDeadline :: "Time ptr"
  obs_Capacity :: BudgetCapacity
  obs_Signals :: "BudgetSignal slice"
  obs_Recommendation :: BudgetRecommendation
  obs_KillMode :: KillMode
  obs_WouldKill :: "WouldKill ptr"
  obs_Counters :: "BandCounters slice"
  obs_Policy :: "AppliedPolicy ptr"
  obs_InForce :: "PolicyRef ptr"
  obs_Darwin :: "DarwinSignals ptr"
  obs_Linux :: "LinuxSignals ptr"

text \<open>The fields of \<open>metav1.Condition\<close>, as the Kubernetes API documents them.\<close>

record Condition =
  cond_Type :: string
  cond_Status :: string
  cond_ObservedGeneration :: int64
  cond_LastTransitionTime :: Time
  cond_Reason :: string
  cond_Message :: string

record NodeBudgetStatus =
  nbs_Observation :: NodeBudgetObservation
  nbs_Writer :: "BudgetWriter ptr"
  nbs_Conditions :: "Condition slice"


section \<open>Zero values\<close>

definition zeroBudgetCapacity :: BudgetCapacity where
  "zeroBudgetCapacity = \<lparr>cap_CPUCapacityMilli = NilP, cap_CPUSystemReserveMilli = NilP,
     cap_MemCapacityBytes = NilP, cap_MemSystemReserveBytes = NilP,
     cap_MemEvictionReserveBytes = NilP, cap_MemAllocatableBytes = NilP,
     cap_SwapTotalBytes = NilP, cap_SwapUsedBytes = NilP, cap_CPUPerformanceCores = NilP,
     cap_CPUEfficiencyCores = NilP, cap_GPUPresent = NilP, cap_GPUCount = NilP\<rparr>"

definition zeroKillMode :: KillMode where
  "zeroKillMode = \<lparr>km_Mode = '''', km_Armed = False, km_ArmingEpisodes = 0, km_Reason = ''''\<rparr>"

definition zeroObservation :: NodeBudgetObservation where
  "zeroObservation = \<lparr>obs_ObservedAt = zeroTime, obs_ProducerGeneration = 0, obs_Platform = '''',
     obs_Level = '''', obs_Admit = False, obs_AdmitReasonSignal = '''', obs_EvictDeadline = NilP,
     obs_Capacity = zeroBudgetCapacity, obs_Signals = NilP,
     obs_Recommendation = \<lparr>rec_SafeAdditionalBytes = NilP, rec_Basis = ''''\<rparr>,
     obs_KillMode = zeroKillMode, obs_WouldKill = NilP, obs_Counters = NilP, obs_Policy = NilP,
     obs_InForce = NilP, obs_Darwin = NilP, obs_Linux = NilP\<rparr>"

section \<open>Validators\<close>

datatype capacity_err =
    CapField field_err
  | GPUDisagrees int bool

definition BudgetCapacity_validate :: "BudgetCapacity \<Rightarrow> capacity_err option" where
  "BudgetCapacity_validate c =
     first_err
       [first_err (map (\<lambda>(name, v). map_option CapField (nonNegative (''capacity.'' @ name) v))
          [(''cpuCapacityMilli'', cap_CPUCapacityMilli c),
           (''cpuSystemReserveMilli'', cap_CPUSystemReserveMilli c),
           (''memCapacityBytes'', cap_MemCapacityBytes c),
           (''memSystemReserveBytes'', cap_MemSystemReserveBytes c),
           (''memEvictionReserveBytes'', cap_MemEvictionReserveBytes c),
           (''memAllocatableBytes'', cap_MemAllocatableBytes c),
           (''swapTotalBytes'', cap_SwapTotalBytes c),
           (''swapUsedBytes'', cap_SwapUsedBytes c),
           (''cpuPerformanceCores'', cap_CPUPerformanceCores c),
           (''cpuEfficiencyCores'', cap_CPUEfficiencyCores c),
           (''gpuCount'', cap_GPUCount c)]),
        (case (deref (cap_GPUPresent c), deref (cap_GPUCount c)) of
           (Some p, Some n) \<Rightarrow> fail_if (p \<noteq> (sint n > 0)) (GPUDisagrees (sint n) p)
         | _ \<Rightarrow> None)]"

datatype signal_err =
    UnknownSignal string
  | WrongUnit string string string
  | SigField string field_err
  | SigLadder string ladder_err
  | UnknownTrend string string
  | UnknownResource string string
  | BadSharedWith string string

definition BudgetSignal_validate :: "BudgetSignal \<Rightarrow> signal_err option" where
  "BudgetSignal_validate s =
     first_err
       [fail_if (\<not> SignalID_Valid (sig_ID s)) (UnknownSignal (sig_ID s)),
        fail_if (sig_Unit s \<noteq> SignalID_Unit (sig_ID s))
          (WrongUnit (sig_ID s) (sig_Unit s) (SignalID_Unit (sig_ID s))),
        first_err (map (\<lambda>(name, v). map_option (SigField (sig_ID s)) (nonNegative name v))
          [(''value'', sig_Value s), (''graceSeconds'', sig_GraceSeconds s),
           (''minReclaimBytes'', sig_MinReclaimBytes s), (''windowSeconds'', sig_WindowSeconds s),
           (''etaToNextRungSeconds'', sig_EtaToNextRungSeconds s)]),
        map_option (SigLadder (sig_ID s))
          (checkLadder (sig_ID s) (BudgetSignal_rungs s) (BudgetSignal_releases s)),
        fail_if (sig_Trend s \<noteq> '''' \<and> \<not> Trend_Valid (sig_Trend s))
          (UnknownTrend (sig_ID s) (sig_Trend s)),
        fail_if (sig_LimitingResource s \<noteq> '''' \<and> \<not> LimitingResource_Valid (sig_LimitingResource s))
          (UnknownResource (sig_ID s) (sig_LimitingResource s)),
        fail_if (sig_SharedWith s \<noteq> '''' \<and>
            (\<not> SignalID_Valid (sig_SharedWith s) \<or> sig_SharedWith s = sig_ID s))
          (BadSharedWith (sig_ID s) (sig_SharedWith s))]"

datatype killmode_err =
    UnknownMode string
  | NegativeEpisodes int
  | UnknownKillReason string

definition KillMode_validate :: "KillMode \<Rightarrow> killmode_err option" where
  "KillMode_validate k =
     (if k = zeroKillMode then None
      else first_err
        [fail_if (\<not> KillModeName_Valid (km_Mode k)) (UnknownMode (km_Mode k)),
         fail_if (sint (km_ArmingEpisodes k) < 0) (NegativeEpisodes (sint (km_ArmingEpisodes k))),
         fail_if (km_Reason k \<noteq> '''' \<and> \<not> KillModeReason_Valid (km_Reason k))
           (UnknownKillReason (km_Reason k))])"

datatype counters_err =
    UnknownBand string
  | NegativeTotal string string int
  | TooManyWindows string nat
  | UnknownWindow string nat string string
  | NegativeCount string nat int
  | WindowRepeated string nat string string

definition BandCounters_validate :: "BandCounters \<Rightarrow> counters_err option" where
  "BandCounters_validate c =
     first_err
       [fail_if (\<not> Band_Valid (bc_Band c)) (UnknownBand (bc_Band c)),
        first_err (map (\<lambda>(name, v). fail_if (sint v < 0) (NegativeTotal (bc_Band c) name (sint v)))
          [(''evictionsTotal'', bc_EvictionsTotal c), (''oomKillsTotal'', bc_OOMKillsTotal c),
           (''kernelKillsTotal'', bc_KernelKillsTotal c), (''restartsTotal'', bc_RestartsTotal c),
           (''memHighEventsTotal'', bc_MemHighEventsTotal c),
           (''tier1RefusedTotal'', bc_Tier1RefusedTotal c)]),
        fail_if (length (els (bc_Windows c)) > MaxWindowCounts)
          (TooManyWindows (bc_Band c) (length (els (bc_Windows c)))),
        range_seen
          (\<lambda>i seen w. first_err
             [fail_if (\<not> CounterWindow_Valid (wc_Window w) \<or> \<not> CounterReason_Valid (wc_Reason w))
                (UnknownWindow (bc_Band c) i (wc_Window w) (wc_Reason w)),
              fail_if (sint (wc_Count w) < 0) (NegativeCount (bc_Band c) i (sint (wc_Count w))),
              fail_if seen (WindowRepeated (bc_Band c) i (wc_Window w) (wc_Reason w))])
          (\<lambda>w. (wc_Window w, wc_Reason w)) [] 0 (els (bc_Windows c))]"

datatype policyref_err =
    NotObjectName string
  | BadResourceVersion

datatype applied_err =
    APRef policyref_err
  | UnknownOutcome string
  | TooManyClamped nat
  | UnknownField nat string
  | FieldRepeated nat string

text \<open>The two checks on a policy name and resourceVersion, written out twice in the source
  (\<open>AppliedPolicy.validate\<close> and the \<open>inForce\<close> block of \<open>validate\<close>).\<close>

definition PolicyRef_checks :: "PolicyRef \<Rightarrow> policyref_err option" where
  "PolicyRef_checks r =
     first_err
       [fail_if (\<not> isObjectName (pr_Name r)) (NotObjectName (pr_Name r)),
        fail_if (pr_ResourceVersion r \<noteq> '''' \<and>
            \<not> isPrintableASCII (pr_ResourceVersion r) MaxPolicyResourceVersionBytes)
          BadResourceVersion]"

definition AppliedPolicy_validate :: "AppliedPolicy \<Rightarrow> applied_err option" where
  "AppliedPolicy_validate p =
     first_err
       [map_option APRef (PolicyRef_checks (ap_PolicyRef p)),
        fail_if (\<not> PolicyOutcome_Valid (ap_Outcome p)) (UnknownOutcome (ap_Outcome p)),
        fail_if (length (els (ap_ClampedFields p)) > MaxClampedFields)
          (TooManyClamped (length (els (ap_ClampedFields p)))),
        range_seen
          (\<lambda>i seen f. first_err
             [fail_if (\<not> PolicyField_Valid f) (UnknownField i f),
              fail_if seen (FieldRepeated i f)])
          (\<lambda>f. f) [] 0 (els (ap_ClampedFields p))]"

definition DarwinSignals_validate :: "DarwinSignals \<Rightarrow> field_err option" where
  "DarwinSignals_validate d =
     first_err
       [first_err (map (\<lambda>(name, v). nonNegative name v)
          ([(''vmPressureLevel'', dw_VMPressureLevel d),
            (''memorystatusLevelPermille'', dw_MemorystatusLevelPermille d),
            (''swapinsTotal'', dw_SwapinsTotal d), (''swapoutsTotal'', dw_SwapoutsTotal d)] @
           (case dw_Compressor d of
              NilP \<Rightarrow> []
            | Ptr _ c \<Rightarrow>
                [(''compressor.bytesUsed'', dc_BytesUsed c),
                 (''compressor.bytesStored'', dc_BytesStored c),
                 (''compressor.segmentLimitBytes'', dc_SegmentLimitBytes c)]))),
        permille ''memorystatusLevelPermille'' (dw_MemorystatusLevelPermille d)]"

definition PSILine_checks :: "string \<Rightarrow> PSILine \<Rightarrow> field_err option" where
  "PSILine_checks path ln =
     first_err
       [permille (path @ ''.avg10Permille'') (psi_Avg10Permille ln),
        permille (path @ ''.avg60Permille'') (psi_Avg60Permille ln),
        nonNegative (path @ ''.totalUs'') (psi_TotalUs ln)]"

definition PSIResource_checks :: "string \<Rightarrow> PSIResource \<Rightarrow> field_err option" where
  "PSIResource_checks name r =
     first_err (map (\<lambda>(ln_name, ln). opt_err (PSILine_checks (''psi.'' @ name @ ''.'' @ ln_name)) (deref ln))
       [(''some'', psi_Some r), (''full'', psi_Full r)])"

definition LinuxSignals_validate :: "LinuxSignals \<Rightarrow> field_err option" where
  "LinuxSignals_validate l =
     first_err
       [opt_err (\<lambda>p. first_err (map (\<lambda>(name, r). opt_err (PSIResource_checks name) (deref r))
          [(''cpu'', psi_CPU p), (''memory'', psi_Memory p), (''io'', psi_IO p)]))
          (deref (lx_PSI l)),
        opt_err (\<lambda>e. first_err (map (\<lambda>(name, v). nonNegative (''memoryEvents.'' @ name) v)
          [(''high'', me_High e), (''max'', me_Max e), (''oom'', me_OOM e), (''oomKill'', me_OOMKill e)]))
          (deref (lx_MemoryEvents l))]"

datatype observation_err =
    ObservedAtNotSet
  | NegativeGeneration int
  | UnknownPlatform string
  | NotExactlyOnePlatform
  | PlatformMismatch string
  | UnknownLevel string
  | UnknownAdmitSignal string
  | AdmitReasonWhileAdmit
  | EvictDeadlineZero
  | ObsCapacity capacity_err
  | TooManySignals nat
  | SignalAt nat signal_err
  | SignalRepeated nat string
  | ObsRecommendation field_err
  | UnknownBasis string
  | ObsKillMode killmode_err
  | UnknownWouldKillBand string
  | UnknownWouldKillReason string
  | WouldKillAtNotSet
  | TooManyCounters nat
  | CountersAt nat counters_err
  | BandRepeated nat string
  | ObsPolicy applied_err
  | ObsInForce policyref_err
  | InForceMismatch string string
  | ObsDarwin field_err
  | ObsLinux field_err

definition WouldKill_checks :: "WouldKill \<Rightarrow> observation_err option" where
  "WouldKill_checks w =
     first_err
       [fail_if (\<not> Band_Valid (wk_Band w)) (UnknownWouldKillBand (wk_Band w)),
        fail_if (\<not> WouldKillReason_Valid (wk_Reason w)) (UnknownWouldKillReason (wk_Reason w)),
        fail_if (Time_IsZero (wk_At w)) WouldKillAtNotSet]"

definition NodeBudgetObservation_validate :: "NodeBudgetObservation \<Rightarrow> observation_err option" where
  "NodeBudgetObservation_validate ob =
     first_err
       [fail_if (Time_IsZero (obs_ObservedAt ob)) ObservedAtNotSet,
        fail_if (sint (obs_ProducerGeneration ob) < 0)
          (NegativeGeneration (sint (obs_ProducerGeneration ob))),
        fail_if (\<not> Platform_Valid (obs_Platform ob)) (UnknownPlatform (obs_Platform ob)),
        fail_if ((obs_Darwin ob \<noteq> NilP) = (obs_Linux ob \<noteq> NilP)) NotExactlyOnePlatform,
        fail_if ((obs_Platform ob = PlatformDarwin) \<noteq> (obs_Darwin ob \<noteq> NilP))
          (PlatformMismatch (obs_Platform ob)),
        fail_if (\<not> Level_Valid (obs_Level ob)) (UnknownLevel (obs_Level ob)),
        (if obs_AdmitReasonSignal ob \<noteq> '''' then
           first_err
             [fail_if (\<not> SignalID_Valid (obs_AdmitReasonSignal ob))
                (UnknownAdmitSignal (obs_AdmitReasonSignal ob)),
              fail_if (obs_Admit ob) AdmitReasonWhileAdmit]
         else None),
        opt_err (\<lambda>t. fail_if (Time_IsZero t) EvictDeadlineZero) (deref (obs_EvictDeadline ob)),
        map_option ObsCapacity (BudgetCapacity_validate (obs_Capacity ob)),
        fail_if (length (els (obs_Signals ob)) > MaxBudgetSignals)
          (TooManySignals (length (els (obs_Signals ob)))),
        range_seen
          (\<lambda>i seen s. first_err
             [map_option (SignalAt i) (BudgetSignal_validate s),
              fail_if seen (SignalRepeated i (sig_ID s))])
          sig_ID [] 0 (els (obs_Signals ob)),
        map_option ObsRecommendation
          (nonNegative ''recommendation.safeAdditionalBytes''
             (rec_SafeAdditionalBytes (obs_Recommendation ob))),
        fail_if (rec_Basis (obs_Recommendation ob) \<noteq> '''' \<and>
            \<not> SignalID_Valid (rec_Basis (obs_Recommendation ob)))
          (UnknownBasis (rec_Basis (obs_Recommendation ob))),
        map_option ObsKillMode (KillMode_validate (obs_KillMode ob)),
        opt_err WouldKill_checks (deref (obs_WouldKill ob)),
        fail_if (length (els (obs_Counters ob)) > length Bands)
          (TooManyCounters (length (els (obs_Counters ob)))),
        range_seen
          (\<lambda>i seen c. first_err
             [map_option (CountersAt i) (BandCounters_validate c),
              fail_if seen (BandRepeated i (bc_Band c))])
          bc_Band [] 0 (els (obs_Counters ob)),
        opt_err (\<lambda>p. map_option ObsPolicy (AppliedPolicy_validate p)) (deref (obs_Policy ob)),
        opt_err (\<lambda>r. map_option ObsInForce (PolicyRef_checks r)) (deref (obs_InForce ob)),
        opt_err (\<lambda>p. fail_if (ap_Outcome p \<noteq> PolicyRejected \<and>
              (case deref (obs_InForce ob) of
                 None \<Rightarrow> True
               | Some r \<Rightarrow> pr_Name r \<noteq> pr_Name (ap_PolicyRef p) \<or>
                   pr_ResourceVersion r \<noteq> pr_ResourceVersion (ap_PolicyRef p)))
            (InForceMismatch (pr_Name (ap_PolicyRef p)) (ap_Outcome p)))
          (deref (obs_Policy ob)),
        opt_err (\<lambda>d. map_option ObsDarwin (DarwinSignals_validate d)) (deref (obs_Darwin ob)),
        opt_err (\<lambda>l. map_option ObsLinux (LinuxSignals_validate l)) (deref (obs_Linux ob))]"

text \<open>\<open>Validate\<close> wraps the error of \<open>validate\<close> in \<open>ErrInvalidNodeBudget\<close>.\<close>

datatype nodebudget_err =
    ErrInvalidNodeBudget observation_err
  | UnknownWriterShape string
  | TooManyConditions nat
  | BadConditionStatus nat string string
  | BadConditionReason nat string string string

definition NodeBudgetObservation_Validate :: "NodeBudgetObservation \<Rightarrow> nodebudget_err option" where
  "NodeBudgetObservation_Validate ob =
     map_option ErrInvalidNodeBudget (NodeBudgetObservation_validate ob)"

definition Condition_checks :: "nat \<Rightarrow> Condition \<Rightarrow> nodebudget_err option" where
  "Condition_checks i c =
     (if \<not> oneOf (cond_Type c) [ConditionReporting, ConditionPolicyRejected,
           ConditionPolicyClamped, ConditionPolicyConflict] then None
      else (case ConditionReasons (cond_Type c) (cond_Status c) of
              None \<Rightarrow> Some (BadConditionStatus i (cond_Type c) (cond_Status c))
            | Some reasons \<Rightarrow>
                fail_if (\<not> oneOf (cond_Reason c) reasons)
                  (BadConditionReason i (cond_Type c) (cond_Status c) (cond_Reason c))))"

definition NodeBudgetStatus_Validate :: "NodeBudgetStatus \<Rightarrow> nodebudget_err option" where
  "NodeBudgetStatus_Validate s =
     first_err
       [opt_err (\<lambda>w. fail_if (\<not> WriterShape_Valid (bw_Shape w)) (UnknownWriterShape (bw_Shape w)))
          (deref (nbs_Writer s)),
        fail_if (length (els (nbs_Conditions s)) > MaxBudgetConditions)
          (TooManyConditions (length (els (nbs_Conditions s)))),
        range_err Condition_checks 0 (els (nbs_Conditions s)),
        (if nbs_Observation s = zeroObservation then None
         else NodeBudgetObservation_Validate (nbs_Observation s))]"

section \<open>What the validators decide\<close>

definition capacity_wf :: "BudgetCapacity \<Rightarrow> bool" where
  "capacity_wf c \<longleftrightarrow>
     (\<forall>v \<in> {cap_CPUCapacityMilli c, cap_CPUSystemReserveMilli c, cap_MemCapacityBytes c,
        cap_MemSystemReserveBytes c, cap_MemEvictionReserveBytes c, cap_MemAllocatableBytes c,
        cap_SwapTotalBytes c, cap_SwapUsedBytes c, cap_CPUPerformanceCores c,
        cap_CPUEfficiencyCores c, cap_GPUCount c}. nonneg v) \<and>
     (\<forall>p n. deref (cap_GPUPresent c) = Some p \<longrightarrow> deref (cap_GPUCount c) = Some n \<longrightarrow>
        p = (0 < sint n))"

lemma BudgetCapacity_validate_iff: "BudgetCapacity_validate c = None \<longleftrightarrow> capacity_wf c"
  unfolding BudgetCapacity_validate_def capacity_wf_def list.map prod.case check_simps
  by (cases "cap_GPUPresent c"; cases "cap_GPUCount c") (simp_all add: check_simps)

definition signal_wf :: "BudgetSignal \<Rightarrow> bool" where
  "signal_wf s \<longleftrightarrow>
     sig_ID s \<in> set Signals \<and> sig_Unit s = SignalID_Unit (sig_ID s) \<and>
     (\<forall>v \<in> {sig_Value s, sig_GraceSeconds s, sig_MinReclaimBytes s, sig_WindowSeconds s,
        sig_EtaToNextRungSeconds s}. nonneg v) \<and>
     ladder_ok (sig_ID s) (BudgetSignal_rungs s) (BudgetSignal_releases s) \<and>
     (sig_Trend s = '''' \<or> Trend_Valid (sig_Trend s)) \<and>
     (sig_LimitingResource s = '''' \<or> LimitingResource_Valid (sig_LimitingResource s)) \<and>
     (sig_SharedWith s = '''' \<or> sig_SharedWith s \<in> set Signals - {sig_ID s})"

lemma BudgetSignal_validate_iff: "BudgetSignal_validate s = None \<longleftrightarrow> signal_wf s"
proof -
  have "checkLadder (sig_ID s) (BudgetSignal_rungs s) (BudgetSignal_releases s) = None \<longleftrightarrow>
      ladder_ok (sig_ID s) (BudgetSignal_rungs s) (BudgetSignal_releases s)"
    by (rule checkLadder_iff) (simp add: BudgetSignal_rungs_def BudgetSignal_releases_def)
  then show ?thesis
    unfolding BudgetSignal_validate_def signal_wf_def list.map prod.case check_simps Signals_def
    by (auto simp: SignalID_Valid_iff)
qed

definition killmode_wf :: "KillMode \<Rightarrow> bool" where
  "killmode_wf k \<longleftrightarrow> k = zeroKillMode \<or>
     KillModeName_Valid (km_Mode k) \<and> 0 \<le> sint (km_ArmingEpisodes k) \<and>
     (km_Reason k = '''' \<or> KillModeReason_Valid (km_Reason k))"

lemma KillMode_validate_iff: "KillMode_validate k = None \<longleftrightarrow> killmode_wf k"
  by (auto simp: KillMode_validate_def killmode_wf_def check_simps)

definition counters_wf :: "BandCounters \<Rightarrow> bool" where
  "counters_wf c \<longleftrightarrow>
     bc_Band c \<in> set Bands \<and>
     (\<forall>v \<in> {bc_EvictionsTotal c, bc_OOMKillsTotal c, bc_KernelKillsTotal c, bc_RestartsTotal c,
        bc_MemHighEventsTotal c, bc_Tier1RefusedTotal c}. 0 \<le> sint v) \<and>
     length (els (bc_Windows c)) \<le> MaxWindowCounts \<and>
     (\<forall>w \<in> set (els (bc_Windows c)). CounterWindow_Valid (wc_Window w) \<and>
        CounterReason_Valid (wc_Reason w) \<and> 0 \<le> sint (wc_Count w)) \<and>
     distinct (map (\<lambda>w. (wc_Window w, wc_Reason w)) (els (bc_Windows c)))"

lemma BandCounters_validate_iff: "BandCounters_validate c = None \<longleftrightarrow> counters_wf c"
proof -
  have loop: "range_seen
      (\<lambda>i seen w. first_err
         [fail_if (\<not> CounterWindow_Valid (wc_Window w) \<or> \<not> CounterReason_Valid (wc_Reason w))
            (UnknownWindow (bc_Band c) i (wc_Window w) (wc_Reason w)),
          fail_if (sint (wc_Count w) < 0) (NegativeCount (bc_Band c) i (sint (wc_Count w))),
          fail_if seen (WindowRepeated (bc_Band c) i (wc_Window w) (wc_Reason w))])
      (\<lambda>w. (wc_Window w, wc_Reason w)) [] 0 ws = None \<longleftrightarrow>
      (\<forall>w \<in> set ws. CounterWindow_Valid (wc_Window w) \<and>
        CounterReason_Valid (wc_Reason w) \<and> 0 \<le> sint (wc_Count w)) \<and>
      distinct (map (\<lambda>w. (wc_Window w, wc_Reason w)) ws)" for ws
    by (rule range_seen_start) (auto simp: check_simps)
  show ?thesis
    unfolding BandCounters_validate_def counters_wf_def list.map prod.case loop check_simps
    by (auto simp: Band_Valid_def Bands_def)
qed

definition policyref_wf :: "PolicyRef \<Rightarrow> bool" where
  "policyref_wf r \<longleftrightarrow> isObjectName (pr_Name r) \<and>
     (pr_ResourceVersion r = '''' \<or>
      isPrintableASCII (pr_ResourceVersion r) MaxPolicyResourceVersionBytes)"

lemma PolicyRef_checks_iff: "PolicyRef_checks r = None \<longleftrightarrow> policyref_wf r"
  by (auto simp: PolicyRef_checks_def policyref_wf_def check_simps)

definition applied_wf :: "AppliedPolicy \<Rightarrow> bool" where
  "applied_wf p \<longleftrightarrow> policyref_wf (ap_PolicyRef p) \<and> PolicyOutcome_Valid (ap_Outcome p) \<and>
     length (els (ap_ClampedFields p)) \<le> MaxClampedFields \<and>
     set (els (ap_ClampedFields p)) \<subseteq> set PolicyFields \<and> distinct (els (ap_ClampedFields p))"

lemma AppliedPolicy_validate_iff: "AppliedPolicy_validate p = None \<longleftrightarrow> applied_wf p"
proof -
  have loop: "range_seen (\<lambda>i seen f. first_err
      [fail_if (\<not> PolicyField_Valid f) (UnknownField i f), fail_if seen (FieldRepeated i f)])
      (\<lambda>f. f) [] 0 fs = None \<longleftrightarrow> (\<forall>f \<in> set fs. PolicyField_Valid f) \<and> distinct (map (\<lambda>f. f) fs)"
    for fs by (rule range_seen_start) (auto simp: check_simps)
  show ?thesis
    unfolding AppliedPolicy_validate_def applied_wf_def loop check_simps PolicyRef_checks_iff
    by (auto simp: PolicyField_Valid_def)
qed

definition darwin_wf :: "DarwinSignals \<Rightarrow> bool" where
  "darwin_wf d \<longleftrightarrow> nonneg (dw_VMPressureLevel d) \<and> in_permille (dw_MemorystatusLevelPermille d) \<and>
     nonneg (dw_SwapinsTotal d) \<and> nonneg (dw_SwapoutsTotal d) \<and>
     (\<forall>c. deref (dw_Compressor d) = Some c \<longrightarrow>
        nonneg (dc_BytesUsed c) \<and> nonneg (dc_BytesStored c) \<and> nonneg (dc_SegmentLimitBytes c))"

lemma in_permille_nonneg: "in_permille v \<Longrightarrow> nonneg v"
  by (cases v) simp_all

lemma DarwinSignals_validate_iff: "DarwinSignals_validate d = None \<longleftrightarrow> darwin_wf d"
  unfolding DarwinSignals_validate_def darwin_wf_def
  by (cases "dw_Compressor d") (auto simp: check_simps in_permille_nonneg split: option.split)

definition psiline_wf :: "PSILine \<Rightarrow> bool" where
  "psiline_wf l \<longleftrightarrow> in_permille (psi_Avg10Permille l) \<and> in_permille (psi_Avg60Permille l) \<and>
     nonneg (psi_TotalUs l)"

definition psiresource_wf :: "PSIResource \<Rightarrow> bool" where
  "psiresource_wf r \<longleftrightarrow>
     (\<forall>p \<in> {psi_Some r, psi_Full r}. \<forall>l. deref p = Some l \<longrightarrow> psiline_wf l)"

definition linux_wf :: "LinuxSignals \<Rightarrow> bool" where
  "linux_wf l \<longleftrightarrow>
     (\<forall>p. deref (lx_PSI l) = Some p \<longrightarrow>
        (\<forall>q \<in> {psi_CPU p, psi_Memory p, psi_IO p}. \<forall>r. deref q = Some r \<longrightarrow> psiresource_wf r)) \<and>
     (\<forall>e. deref (lx_MemoryEvents l) = Some e \<longrightarrow>
        (\<forall>v \<in> {me_High e, me_Max e, me_OOM e, me_OOMKill e}. nonneg v))"

lemma PSILine_checks_iff: "PSILine_checks path l = None \<longleftrightarrow> psiline_wf l"
  by (simp add: PSILine_checks_def psiline_wf_def check_simps)

lemma PSIResource_checks_iff: "PSIResource_checks name r = None \<longleftrightarrow> psiresource_wf r"
  by (auto simp: PSIResource_checks_def psiresource_wf_def check_simps PSILine_checks_iff)

lemma LinuxSignals_validate_iff: "LinuxSignals_validate l = None \<longleftrightarrow> linux_wf l"
  unfolding LinuxSignals_validate_def linux_wf_def list.map prod.case check_simps
    PSIResource_checks_iff
  by auto

text \<open>The contract of a reporting observation, group by group.\<close>

definition header_wf :: "NodeBudgetObservation \<Rightarrow> bool" where
  "header_wf ob \<longleftrightarrow>
     \<not> Time_IsZero (obs_ObservedAt ob) \<and> 0 \<le> sint (obs_ProducerGeneration ob) \<and>
     (obs_Platform ob = PlatformDarwin \<and> obs_Darwin ob \<noteq> NilP \<and> obs_Linux ob = NilP \<or>
      obs_Platform ob = PlatformLinux \<and> obs_Darwin ob = NilP \<and> obs_Linux ob \<noteq> NilP) \<and>
     Level_Valid (obs_Level ob) \<and>
     (obs_AdmitReasonSignal ob = '''' \<or>
      obs_AdmitReasonSignal ob \<in> set Signals \<and> \<not> obs_Admit ob) \<and>
     (\<forall>t. deref (obs_EvictDeadline ob) = Some t \<longrightarrow> \<not> Time_IsZero t)"

definition body_wf :: "NodeBudgetObservation \<Rightarrow> bool" where
  "body_wf ob \<longleftrightarrow>
     capacity_wf (obs_Capacity ob) \<and>
     length (els (obs_Signals ob)) \<le> MaxBudgetSignals \<and>
     (\<forall>s \<in> set (els (obs_Signals ob)). signal_wf s) \<and>
     distinct (map sig_ID (els (obs_Signals ob))) \<and>
     nonneg (rec_SafeAdditionalBytes (obs_Recommendation ob)) \<and>
     (rec_Basis (obs_Recommendation ob) = '''' \<or>
      rec_Basis (obs_Recommendation ob) \<in> set Signals) \<and>
     killmode_wf (obs_KillMode ob) \<and>
     (\<forall>w. deref (obs_WouldKill ob) = Some w \<longrightarrow>
        wk_Band w \<in> set Bands \<and> WouldKillReason_Valid (wk_Reason w) \<and> \<not> Time_IsZero (wk_At w)) \<and>
     (\<forall>c \<in> set (els (obs_Counters ob)). counters_wf c) \<and>
     distinct (map bc_Band (els (obs_Counters ob)))"

definition policy_wf :: "NodeBudgetObservation \<Rightarrow> bool" where
  "policy_wf ob \<longleftrightarrow>
     (\<forall>p. deref (obs_Policy ob) = Some p \<longrightarrow> applied_wf p \<and>
        (ap_Outcome p = PolicyRejected \<or>
         (\<exists>a. obs_InForce ob = Ptr a (ap_PolicyRef p)))) \<and>
     (\<forall>r. deref (obs_InForce ob) = Some r \<longrightarrow> policyref_wf r)"

definition observation_wf :: "NodeBudgetObservation \<Rightarrow> bool" where
  "observation_wf ob \<longleftrightarrow> header_wf ob \<and> body_wf ob \<and> policy_wf ob \<and>
     (\<forall>d. deref (obs_Darwin ob) = Some d \<longrightarrow> darwin_wf d) \<and>
     (\<forall>l. deref (obs_Linux ob) = Some l \<longrightarrow> linux_wf l)"

lemma WouldKill_checks_None [check_simps]:
  "WouldKill_checks w = None \<longleftrightarrow>
     wk_Band w \<in> set Bands \<and> WouldKillReason_Valid (wk_Reason w) \<and> \<not> Time_IsZero (wk_At w)"
  by (auto simp: WouldKill_checks_def check_simps Band_Valid_def Bands_def)

lemma signals_loop [check_simps]:
  "range_seen (\<lambda>i seen s. first_err
       [map_option (SignalAt i) (BudgetSignal_validate s), fail_if seen (SignalRepeated i (sig_ID s))])
     sig_ID [] 0 ss = None \<longleftrightarrow> (\<forall>s \<in> set ss. signal_wf s) \<and> distinct (map sig_ID ss)"
  by (rule range_seen_start) (auto simp: check_simps BudgetSignal_validate_iff)

lemma counters_loop [check_simps]:
  "range_seen (\<lambda>i seen c. first_err
       [map_option (CountersAt i) (BandCounters_validate c), fail_if seen (BandRepeated i (bc_Band c))])
     bc_Band [] 0 cs = None \<longleftrightarrow> (\<forall>c \<in> set cs. counters_wf c) \<and> distinct (map bc_Band cs)"
  by (rule range_seen_start) (auto simp: check_simps BandCounters_validate_iff)

text \<open>The bound on the counter entries is implied: the bands are distinct and known.\<close>

lemma distinct_bands_bound:
  assumes "\<forall>c \<in> set cs. counters_wf c" "distinct (map bc_Band cs)"
  shows "length cs \<le> length Bands"
proof -
  from assms(1) have "set (map bc_Band cs) \<subseteq> set Bands" by (auto simp: counters_wf_def)
  then have "card (set (map bc_Band cs)) \<le> card (set Bands)" by (intro card_mono) auto
  also have "\<dots> \<le> length Bands" by (rule card_length)
  finally show ?thesis using assms(2) distinct_card by fastforce
qed

lemma header_checks_iff:
  "header_wf ob \<longleftrightarrow>
     \<not> Time_IsZero (obs_ObservedAt ob) \<and> \<not> sint (obs_ProducerGeneration ob) < 0 \<and>
     Platform_Valid (obs_Platform ob) \<and>
     (obs_Darwin ob \<noteq> NilP) \<noteq> (obs_Linux ob \<noteq> NilP) \<and>
     (obs_Platform ob = PlatformDarwin) = (obs_Darwin ob \<noteq> NilP) \<and>
     Level_Valid (obs_Level ob) \<and>
     (obs_AdmitReasonSignal ob \<noteq> '''' \<longrightarrow>
        SignalID_Valid (obs_AdmitReasonSignal ob) \<and> \<not> obs_Admit ob) \<and>
     (\<forall>t. deref (obs_EvictDeadline ob) = Some t \<longrightarrow> \<not> Time_IsZero t)"
proof -
  have "PlatformDarwin \<noteq> PlatformLinux" by (simp add: vocab_defs)
  then show ?thesis
    unfolding header_wf_def by (auto simp: Platform_Valid_def SignalID_Valid_iff Signals_def)
qed

lemma inforce_iff:
  "(case deref (q :: PolicyRef ptr) of None \<Rightarrow> True
    | Some r \<Rightarrow> pr_Name r \<noteq> pr_Name p \<or> pr_ResourceVersion r \<noteq> pr_ResourceVersion p) \<longleftrightarrow>
   \<not> (\<exists>a. q = Ptr a p)"
  by (cases q) (auto intro: PolicyRef.equality)

theorem NodeBudgetObservation_validate_iff:
  "NodeBudgetObservation_validate ob = None \<longleftrightarrow> observation_wf ob"
proof -
  have "NodeBudgetObservation_validate ob = None \<longleftrightarrow>
      header_wf ob \<and> body_wf ob \<and> length (els (obs_Counters ob)) \<le> length Bands \<and> policy_wf ob \<and>
     (\<forall>d. deref (obs_Darwin ob) = Some d \<longrightarrow> darwin_wf d) \<and>
     (\<forall>l. deref (obs_Linux ob) = Some l \<longrightarrow> linux_wf l)"
    unfolding NodeBudgetObservation_validate_def header_checks_iff body_wf_def policy_wf_def
      check_simps inforce_iff BudgetCapacity_validate_iff KillMode_validate_iff PolicyRef_checks_iff
      AppliedPolicy_validate_iff DarwinSignals_validate_iff LinuxSignals_validate_iff
      SignalID_Valid_iff Signals_def
    by (auto simp: not_less)
  with distinct_bands_bound show ?thesis
    unfolding observation_wf_def body_wf_def by blast
qed

lemma Condition_checks_None:
  "Condition_checks i c = None \<longleftrightarrow>
     (cond_Type c \<in> {ConditionReporting, ConditionPolicyRejected, ConditionPolicyClamped,
        ConditionPolicyConflict} \<longrightarrow>
      (\<exists>rs. ConditionReasons (cond_Type c) (cond_Status c) = Some rs \<and> cond_Reason c \<in> set rs))"
  by (auto simp: Condition_checks_def check_simps split: option.splits)

text \<open>The condition types do not overlap, so a condition is looked up under its own type and
  only the statuses True and False have reasons.\<close>

lemma ConditionReasons_status:
  assumes "cond \<in> {ConditionReporting, ConditionPolicyRejected, ConditionPolicyClamped, ConditionPolicyConflict}"
  shows "ConditionReasons cond status \<noteq> None \<longleftrightarrow> status \<in> {''True'', ''False''}"
  using assms by (auto simp: ConditionReasons_def vocab_defs Let_def split: if_splits)


section \<open>A sample\<close>

definition sample_signal :: BudgetSignal where
  "sample_signal = \<lparr>sig_ID = SignalMemoryAvailable, sig_Unit = SignalID_Unit SignalMemoryAvailable,
     sig_Value = Ptr 3 900, sig_WarnThreshold = Ptr 4 800, sig_AdmitStopThreshold = Ptr 5 700,
     sig_CriticalThreshold = NilP, sig_EvictSoftThreshold = NilP, sig_EvictHardThreshold = Ptr 6 100,
     sig_WarnRelease = Ptr 7 850, sig_AdmitStopRelease = NilP, sig_CriticalRelease = NilP,
     sig_EvictSoftRelease = NilP, sig_EvictHardRelease = NilP, sig_GraceSeconds = NilP,
     sig_MinReclaimBytes = NilP, sig_WindowSeconds = NilP, sig_EtaToNextRungSeconds = NilP,
     sig_Trend = TrendRising, sig_LimitingResource = '''', sig_SharedWith = ''''\<rparr>"

definition sample_observation :: NodeBudgetObservation where
  "sample_observation = zeroObservation\<lparr>obs_ObservedAt := zeroTime\<lparr>time_sec := 63000000000\<rparr>,
     obs_ProducerGeneration := 7, obs_Platform := PlatformLinux, obs_Level := LevelOK, obs_Admit := True,
     obs_Signals := Ptr 1 [sample_signal],
     obs_Linux := Ptr 2 \<lparr>lx_PSI = NilP, lx_MemoryEvents = NilP\<rparr>\<rparr>"

lemma sample_signal_wf: "signal_wf sample_signal"
  by (simp add: signal_wf_def sample_signal_def ladder_ok_def BudgetSignal_rungs_def
      BudgetSignal_releases_def Trend_Valid_def Signals_def signalCodes_def IsDescending_def HasSuffix_def
      calmer_def vocab_defs)

lemma sample_observation_wf: "observation_wf sample_observation"
  using sample_signal_wf
  by (simp add: observation_wf_def header_wf_def body_wf_def policy_wf_def linux_wf_def capacity_wf_def
      killmode_wf_def sample_observation_def zeroObservation_def zeroTime_def Time_IsZero_def
      zeroBudgetCapacity_def zeroKillMode_def Level_Valid_def const_defs vocab_defs)


section \<open>Properties\<close>

text \<open>Three rules of the field comments are left to the producer: \<open>observation_wf\<close> ties neither
  the evict deadline to the level, nor the recommendation to admission, nor the decision's band
  to batch.\<close>

lemma observation_wf_EvictDeadline:
  "observation_wf ob \<Longrightarrow> \<forall>t. deref p = Some t \<longrightarrow> \<not> Time_IsZero t \<Longrightarrow> observation_wf (ob\<lparr>obs_EvictDeadline := p\<rparr>)"
  by (simp add: observation_wf_def header_wf_def body_wf_def policy_wf_def)

lemma observation_wf_SafeAdditionalBytes:
  "observation_wf ob \<Longrightarrow> nonneg v \<Longrightarrow>
     observation_wf (ob\<lparr>obs_Recommendation := (obs_Recommendation ob)\<lparr>rec_SafeAdditionalBytes := v\<rparr>\<rparr>)"
  by (simp add: observation_wf_def header_wf_def body_wf_def policy_wf_def)

lemma observation_wf_WouldKill:
  "observation_wf ob \<Longrightarrow> wk_Band w \<in> set Bands \<Longrightarrow> WouldKillReason_Valid (wk_Reason w) \<Longrightarrow> \<not> Time_IsZero (wk_At w) \<Longrightarrow>
     observation_wf (ob\<lparr>obs_WouldKill := Ptr k w\<rparr>)"
  by (simp add: observation_wf_def header_wf_def body_wf_def policy_wf_def)



text \<open>\<open>NodeBudgetStatus.Validate\<close> accepts a status exactly when the writer's shape is
  known, there are at most eight conditions, every NodeBudget condition has status True or
  False and a reason of its closed set, and the observation is either entirely unset or valid.\<close>

theorem status_Validate_decides:
  "NodeBudgetStatus_Validate s = None \<longleftrightarrow>
     (\<forall>w. deref (nbs_Writer s) = Some w \<longrightarrow> WriterShape_Valid (bw_Shape w)) \<and>
     length (els (nbs_Conditions s)) \<le> 8 \<and>
     (\<forall>c \<in> set (els (nbs_Conditions s)).
        cond_Type c \<in> {ConditionReporting, ConditionPolicyRejected, ConditionPolicyClamped,
          ConditionPolicyConflict} \<longrightarrow>
        cond_Status c \<in> {''True'', ''False''} \<and>
        cond_Reason c \<in> set (the (ConditionReasons (cond_Type c) (cond_Status c)))) \<and>
     (nbs_Observation s = zeroObservation \<or> observation_wf (nbs_Observation s))"
proof -
  have cond: "(\<exists>rs. ConditionReasons (cond_Type c) (cond_Status c) = Some rs \<and> cond_Reason c \<in> set rs) \<longleftrightarrow>
      cond_Status c \<in> {''True'', ''False''} \<and>
      cond_Reason c \<in> set (the (ConditionReasons (cond_Type c) (cond_Status c)))"
    if "cond_Type c \<in> {ConditionReporting, ConditionPolicyRejected, ConditionPolicyClamped,
      ConditionPolicyConflict}" for c
    using ConditionReasons_status [OF that, of "cond_Status c"] by auto
  have loop: "range_err Condition_checks 0 cs = None \<longleftrightarrow>
      (\<forall>c \<in> set cs. cond_Type c \<in> {ConditionReporting, ConditionPolicyRejected,
          ConditionPolicyClamped, ConditionPolicyConflict} \<longrightarrow>
        cond_Status c \<in> {''True'', ''False''} \<and>
        cond_Reason c \<in> set (the (ConditionReasons (cond_Type c) (cond_Status c))))" for cs
    by (rule range_err_None_all) (simp add: Condition_checks_None cond cong: imp_cong)
  show ?thesis
    unfolding NodeBudgetStatus_Validate_def check_simps loop
    by (simp add: NodeBudgetObservation_Validate_def NodeBudgetObservation_validate_iff
        check_simps MaxBudgetConditions_def not_less)
qed

theorem status_Validate_decides_witness:
  "NodeBudgetStatus_Validate \<lparr>nbs_Observation = zeroObservation,
     nbs_Writer = Ptr 1 \<lparr>bw_Shape = WriterOwnNode, bw_NodeNameExtra = True\<rparr>,
     nbs_Conditions = Ptr 2 [\<lparr>cond_Type = ConditionReporting, cond_Status = ''False'',
       cond_ObservedGeneration = 0, cond_LastTransitionTime = zeroTime,
       cond_Reason = ReasonNodeNotReporting, cond_Message = ''''\<rparr>]\<rparr> = None"
  unfolding status_Validate_decides
  by (simp add: WriterShape_Valid_def ConditionReasons_def vocab_defs)

end
