(* ===== verification/Bytes.thy ===== *)
theory Bytes
  imports Prelude
begin

text \<open>
  Bytes in memory: little-endian encodings (\<open>encoding/binary\<close>), writes into a byte array at
  an offset, and decimal text (\<open>strconv.Itoa\<close>, the \<open>%d\<close> verb).
\<close>

section \<open>Little-endian encodings\<close>

primrec nat_le :: "nat \<Rightarrow> nat \<Rightarrow> byte list" where
  "nat_le 0 x = []"
| "nat_le (Suc n) x = word_of_nat (x mod 256) # nat_le n (x div 256)"

primrec le_nat :: "byte list \<Rightarrow> nat" where
  "le_nat [] = 0"
| "le_nat (b # bs) = unat b + 256 * le_nat bs"

lemma length_nat_le [simp]: "length (nat_le n x) = n"
  by (induction n arbitrary: x) simp_all

lemma unat_byte: "unat (word_of_nat (x mod 256) :: byte) = x mod 256"
  by (simp add: unat_of_nat)

lemma le_nat_le: "le_nat (nat_le n x) = x mod 256 ^ n"
proof (induction n arbitrary: x)
  case (Suc n)
  have "le_nat (nat_le (Suc n) x) = x mod 256 + 256 * (x div 256 mod 256 ^ n)"
    by (simp only: nat_le.simps le_nat.simps unat_byte Suc.IH)
  also have "\<dots> = x mod 256 ^ Suc n"
    using mod_mult2_eq [of x 256 "256 ^ n"] by (simp only: power_Suc add.commute)
  finally show ?case .
qed simp

lemma byte_lt: "unat (b :: byte) < 256"
  using unsigned_less [of b] by simp

lemma le_nat_lt: "le_nat bs < 256 ^ length bs"
proof (induction bs)
  case (Cons b bs)
  have "le_nat (b # bs) < 256 + 256 * le_nat bs" using byte_lt [of b] by simp
  also have "\<dots> \<le> 256 * 256 ^ length bs" using Cons by (simp add: Suc_leI)
  finally show ?case by simp
qed simp

lemma nat_le_nat: "nat_le (length bs) (le_nat bs) = bs"
proof (induction bs)
  case (Cons b bs)
  have "le_nat (b # bs) mod 256 = unat b" "le_nat (b # bs) div 256 = le_nat bs"
    using byte_lt [of b] by simp_all
  with Cons show ?case by simp
qed simp

text \<open>\<open>binary.LittleEndian.Uint64\<close> and \<open>PutUint64\<close> on eight bytes.\<close>

definition le_word :: "byte list \<Rightarrow> uint64" where
  "le_word bs = word_of_nat (le_nat bs)"

definition word_le :: "uint64 \<Rightarrow> byte list" where
  "word_le v = nat_le 8 (unat v)"

lemma length_word_le [simp]: "length (word_le v) = 8"
  by (simp add: word_le_def)

lemma le_word_le [simp]: "le_word (word_le v) = v"
proof -
  have "unat v < 256 ^ 8" using unsigned_less [of v] by simp
  then show ?thesis by (simp add: le_word_def word_le_def le_nat_le)
qed

lemma word_le_word: "length bs = 8 \<Longrightarrow> word_le (le_word bs) = bs"
  using nat_le_nat [of bs] le_nat_lt [of bs] by (simp add: le_word_def word_le_def unat_of_nat)


section \<open>Byte arrays\<close>

definition get_bytes :: "nat \<Rightarrow> nat \<Rightarrow> byte list \<Rightarrow> byte list" where
  "get_bytes off n page = take n (drop off page)"

definition put_bytes :: "nat \<Rightarrow> byte list \<Rightarrow> byte list \<Rightarrow> byte list" where
  "put_bytes off bs page = take off page @ bs @ drop (off + length bs) page"

lemma length_put_bytes [simp]:
  "off + length bs \<le> length page \<Longrightarrow> length (put_bytes off bs page) = length page"
  by (simp add: put_bytes_def)

lemma nth_put_bytes:
  assumes "off + length bs \<le> length page" "i < length page"
  shows "put_bytes off bs page ! i =
    (if off \<le> i \<and> i < off + length bs then bs ! (i - off) else page ! i)"
  using assms by (auto simp: put_bytes_def nth_append min_def)

lemma get_put_same:
  "off + length bs \<le> length page \<Longrightarrow> get_bytes off (length bs) (put_bytes off bs page) = bs"
  by (simp add: get_bytes_def put_bytes_def)

lemma get_bytes_cong:
  assumes "length p = length q" "off + n \<le> length p" "\<And>i. off \<le> i \<Longrightarrow> i < off + n \<Longrightarrow> p ! i = q ! i"
  shows "get_bytes off n p = get_bytes off n q"
  using assms by (intro nth_equalityI) (auto simp: get_bytes_def)

lemma get_put_other:
  assumes "off + length bs \<le> length page" "o' + n \<le> length page"
    and "o' + n \<le> off \<or> off + length bs \<le> o'"
  shows "get_bytes o' n (put_bytes off bs page) = get_bytes o' n page"
  using assms by (intro get_bytes_cong) (auto simp: nth_put_bytes)

definition str_bytes :: "string \<Rightarrow> byte list" where
  "str_bytes s = map (\<lambda>c. word_of_nat (byte_of c)) s"

lemma length_str_bytes [simp]: "length (str_bytes s) = length s"
  by (simp add: str_bytes_def)

lemma byte_of_lt: "byte_of c < 256"
  by (simp add: byte_of_def)

lemma str_bytes_inj: "str_bytes s = str_bytes t \<Longrightarrow> s = t"
proof -
  have "inj (\<lambda>c. word_of_nat (byte_of c) :: byte)"
  proof (rule injI)
    fix c d assume "(word_of_nat (byte_of c) :: byte) = word_of_nat (byte_of d)"
    then have "unat (word_of_nat (byte_of c) :: byte) = unat (word_of_nat (byte_of d) :: byte)" by simp
    then show "c = d" using byte_of_lt [of c] byte_of_lt [of d] by (simp add: unat_of_nat)
  qed
  then show "str_bytes s = str_bytes t \<Longrightarrow> s = t" by (simp add: str_bytes_def inj_map_eq_map)
qed


section \<open>Decimal text\<close>

definition digit_char :: "nat \<Rightarrow> char" where
  "digit_char d = char_of (48 + d)"

fun nat_dec :: "nat \<Rightarrow> string" where
  "nat_dec n = (if n < 10 then [digit_char n] else nat_dec (n div 10) @ [digit_char (n mod 10)])"

declare nat_dec.simps [simp del]

end
