(* ===== verification/Page.thy ===== *)
theory Page
  imports Observation Bytes
begin

text \<open>
  The budget page (\<open>budget/v1alpha1/page.go\<close>): the snapshot, the layout table the offsets
  derive from, and the encoder. The table is built as in the source, field by field with its
  getter, and \<open>buildPageLayout\<close> computes the offsets. The lemmas show the layout facts the
  ABI promises (fields in order, aligned, apart, inside the page), that the encoder succeeds
  exactly on the snapshots the getters accept, and that every field reads back what its
  getter gave.

  A snapshot's \<open>Signals\<close> and \<open>Counters\<close> are lists: the code only takes their length and
  indexes them, so a nil slice and an empty one behave alike.
\<close>

section \<open>Constants\<close>

definition PageABIMajor :: nat where [const_defs]: "PageABIMajor = 1"
definition PageABIMinor :: nat where [const_defs]: "PageABIMinor = 1"
definition PageSize :: nat where [const_defs]: "PageSize = 4096"
definition PageBodyLimit :: nat where [const_defs]: "PageBodyLimit = 3072"
definition PageMagic :: string where "PageMagic = ''K3SMBDGT''"
definition PageSeqOffset :: nat where [const_defs]: "PageSeqOffset = 64"
definition PageNotifyEpochOffset :: nat where [const_defs]: "PageNotifyEpochOffset = 128"
definition PageHeaderSize :: nat where [const_defs]: "PageHeaderSize = 192"
definition PageAbsent :: int64 where "PageAbsent = 0x8000000000000000"
definition MaxPageSignals :: nat where [const_defs]: "MaxPageSignals = MaxBudgetSignals"
definition MaxPageCounters :: nat where [const_defs]: "MaxPageCounters = 3"
definition MaxPageNodeNameBytes :: nat where [const_defs]: "MaxPageNodeNameBytes = 253"
definition PageNodeNameBytes :: nat where [const_defs]: "PageNodeNameBytes = 256"
definition pageAbsentWord :: uint64 where "pageAbsentWord = push_bit 63 1"


section \<open>Snapshots\<close>

record PageBandCounters =
  pc_Band :: Band
  pc_EvictionsTotal :: int64
  pc_OOMKillsTotal :: int64
  pc_KernelKillsTotal :: int64
  pc_RestartsTotal :: int64
  pc_MemHighEventsTotal :: int64
  pc_Tier1RefusedTotal :: int64

record PageSnapshot =
  ps_Generation :: int64
  ps_WriterPeriodSeconds :: int64
  ps_NodeName :: string
  ps_ObservedAt :: Time
  ps_Platform :: Platform
  ps_Capacity :: BudgetCapacity
  ps_Level :: Level
  ps_Darwin :: "DarwinSignals ptr"
  ps_Linux :: "LinuxSignals ptr"
  ps_Signals :: "BudgetSignal list"
  ps_Admit :: bool
  ps_AdmitReasonSignal :: SignalID
  ps_EvictDeadline :: "Time ptr"
  ps_KillMode :: KillMode
  ps_Recommendation :: BudgetRecommendation
  ps_Counters :: "PageBandCounters list"

definition NewPageSnapshot :: "string \<Rightarrow> int64 \<Rightarrow> NodeBudgetObservation \<Rightarrow> PageSnapshot" where
  "NewPageSnapshot nodeName writerPeriodSeconds ob = \<lparr>
     ps_Generation = obs_ProducerGeneration ob,
     ps_WriterPeriodSeconds = writerPeriodSeconds,
     ps_NodeName = nodeName,
     ps_ObservedAt = obs_ObservedAt ob,
     ps_Platform = obs_Platform ob,
     ps_Capacity = obs_Capacity ob,
     ps_Level = obs_Level ob,
     ps_Darwin = obs_Darwin ob,
     ps_Linux = obs_Linux ob,
     ps_Signals = els (obs_Signals ob),
     ps_Admit = obs_Admit ob,
     ps_AdmitReasonSignal = obs_AdmitReasonSignal ob,
     ps_EvictDeadline = obs_EvictDeadline ob,
     ps_KillMode = obs_KillMode ob,
     ps_Recommendation = obs_Recommendation ob,
     ps_Counters = map (\<lambda>c. \<lparr>pc_Band = bc_Band c, pc_EvictionsTotal = bc_EvictionsTotal c,
       pc_OOMKillsTotal = bc_OOMKillsTotal c, pc_KernelKillsTotal = bc_KernelKillsTotal c,
       pc_RestartsTotal = bc_RestartsTotal c, pc_MemHighEventsTotal = bc_MemHighEventsTotal c,
       pc_Tier1RefusedTotal = bc_Tier1RefusedTotal c\<rparr>) (els (obs_Counters ob))\<rparr>"


section \<open>The layout table\<close>

datatype pageKind = kindBytes | kindU16 | kindU32 | kindU64 | kindI64

primrec pageKind_String :: "pageKind \<Rightarrow> string" where
  "pageKind_String kindBytes = ''bytes''"
| "pageKind_String kindU16 = ''u16''"
| "pageKind_String kindU32 = ''u32''"
| "pageKind_String kindU64 = ''u64''"
| "pageKind_String kindI64 = ''i64''"

type_synonym pageGetter = "PageSnapshot \<Rightarrow> uint64 \<times> bool"

record pageField =
  pf_name :: string
  pf_offset :: nat
  pf_kind :: pageKind
  pf_size :: nat
  pf_align :: nat
  pf_enum :: string
  pf_absent :: bool
  pf_status :: string
  pf_get :: "pageGetter option"

definition field_align :: "pageField \<Rightarrow> nat" where
  "field_align f =
     (if pf_align f = 0
      then (case pf_kind f of kindU16 \<Rightarrow> 2 | kindU32 \<Rightarrow> 4 | _ \<Rightarrow> 8)
      else pf_align f)"

primrec layout_from :: "nat \<Rightarrow> pageField list \<Rightarrow> pageField list \<times> nat" where
  "layout_from off [] = ([], off)"
| "layout_from off (f # fs) =
     (let a = field_align f;
          at = (off + a - 1) div a * a;
          (rest, stop) = layout_from (at + pf_size f) fs
      in (f\<lparr>pf_offset := at\<rparr> # rest, stop))"

definition buildPageLayout :: "pageField list \<Rightarrow> pageField list \<times> nat" where
  "buildPageLayout specs = layout_from 0 specs"

definition constGet :: "uint64 \<Rightarrow> pageGetter" where
  "constGet v = (\<lambda>_. (v, True))"

definition i64Word :: "int64 ptr \<Rightarrow> uint64 \<times> bool" where
  "i64Word p = (case deref p of None \<Rightarrow> (pageAbsentWord, True) | Some v \<Rightarrow> (v, v \<noteq> PageAbsent))"

definition boolWord :: "bool \<Rightarrow> uint64 \<times> bool" where
  "boolWord b = (if b then (1, True) else (0, True))"

text \<open>The closures of \<open>pageFieldSpecs\<close>.\<close>

definition add_field ::
  "string \<Rightarrow> pageKind \<Rightarrow> nat \<Rightarrow> nat \<Rightarrow> string \<Rightarrow> bool \<Rightarrow> string \<Rightarrow> pageGetter option \<Rightarrow> pageField"
where
  "add_field name kind sz align enum absent status get =
     \<lparr>pf_name = name, pf_offset = 0, pf_kind = kind, pf_size = (if sz = 0 then 8 else sz),
      pf_align = align, pf_enum = enum, pf_absent = absent, pf_status = status, pf_get = get\<rparr>"

definition f_i64 :: "string \<Rightarrow> string \<Rightarrow> bool \<Rightarrow> pageGetter \<Rightarrow> pageField" where
  "f_i64 name status absent get = add_field name kindI64 0 0 '''' absent status (Some get)"

definition f_opt :: "string \<Rightarrow> string \<Rightarrow> (PageSnapshot \<Rightarrow> int64 ptr) \<Rightarrow> pageField" where
  "f_opt name status get = f_i64 name status True (\<lambda>s. i64Word (get s))"

definition f_code :: "string \<Rightarrow> string \<Rightarrow> string \<Rightarrow> pageGetter \<Rightarrow> pageField" where
  "f_code name status enum get = add_field name kindU64 0 0 enum False status (Some get)"

definition headerFields :: "pageField list" where
  "headerFields =
     [add_field ''magic'' kindBytes (length PageMagic) 0 '''' False '''' None,
      add_field ''abiMajor'' kindU16 2 0 '''' False '''' (Some (constGet (word_of_nat PageABIMajor))),
      add_field ''abiMinor'' kindU16 2 0 '''' False '''' (Some (constGet (word_of_nat PageABIMinor))),
      add_field ''headerSize'' kindU32 4 0 '''' False '''' (Some (constGet (word_of_nat PageHeaderSize))),
      add_field ''bodySize'' kindU32 4 0 '''' False '''' None,
      add_field ''seq'' kindU64 0 64 '''' False '''' (Some (constGet 0)),
      add_field ''notifyEpoch'' kindU64 0 64 '''' False '''' (Some (constGet 0))]"

definition identityFields :: "pageField list" where
  "identityFields =
     [add_field ''generation'' kindI64 0 64 '''' False ''status.producerGeneration''
        (Some (\<lambda>s. (ps_Generation s, True))),
      f_i64 ''writerPeriodSeconds'' '''' False (\<lambda>s. (ps_WriterPeriodSeconds s, True)),
      f_i64 ''observedAt'' ''status.observedAt'' False
        (\<lambda>s. (Time_Unix (ps_ObservedAt s), \<not> Time_IsZero (ps_ObservedAt s))),
      f_code ''platform'' ''status.platform'' ''platform''
        (\<lambda>s. pageCode pagePlatformCodes (ps_Platform s) ''''),
      add_field ''nodeNameLen'' kindU64 0 0 '''' False ''metadata.name''
        (Some (\<lambda>s. (word_of_nat (length (ps_NodeName s)), True))),
      add_field ''nodeName'' kindBytes PageNodeNameBytes 0 '''' False ''metadata.name'' None]"

definition capacityFields :: "pageField list" where
  "capacityFields =
     map (\<lambda>(name, get). f_opt (''capacity.'' @ name) (''status.capacity.'' @ name)
         (\<lambda>s. get (ps_Capacity s)))
       [(''cpuCapacityMilli'', cap_CPUCapacityMilli),
        (''cpuSystemReserveMilli'', cap_CPUSystemReserveMilli),
        (''memCapacityBytes'', cap_MemCapacityBytes),
        (''memSystemReserveBytes'', cap_MemSystemReserveBytes),
        (''memEvictionReserveBytes'', cap_MemEvictionReserveBytes),
        (''memAllocatableBytes'', cap_MemAllocatableBytes),
        (''swapTotalBytes'', cap_SwapTotalBytes),
        (''swapUsedBytes'', cap_SwapUsedBytes)]"

definition get_darwin :: "(DarwinSignals \<Rightarrow> int64 ptr) \<Rightarrow> PageSnapshot \<Rightarrow> int64 ptr" where
  "get_darwin get s = (case ps_Darwin s of NilP \<Rightarrow> NilP | Ptr _ d \<Rightarrow> get d)"

definition get_compressor :: "(DarwinCompressor \<Rightarrow> int64 ptr) \<Rightarrow> PageSnapshot \<Rightarrow> int64 ptr" where
  "get_compressor get =
     get_darwin (\<lambda>d. case dw_Compressor d of NilP \<Rightarrow> NilP | Ptr _ c \<Rightarrow> get c)"

definition darwinFields :: "pageField list" where
  "darwinFields =
     [f_code ''level'' ''status.level'' ''level'' (\<lambda>s. pageCode pageLevelCodes (ps_Level s) ''''),
      f_opt ''darwin.vmPressureLevel'' ''status.darwin.vmPressureLevel'' (get_darwin dw_VMPressureLevel),
      f_opt ''darwin.memorystatusLevelPermille'' ''status.darwin.memorystatusLevelPermille''
        (get_darwin dw_MemorystatusLevelPermille),
      f_opt ''darwin.compressor.bytesUsed'' ''status.darwin.compressor.bytesUsed''
        (get_compressor dc_BytesUsed),
      f_opt ''darwin.compressor.bytesStored'' ''status.darwin.compressor.bytesStored''
        (get_compressor dc_BytesStored),
      f_opt ''darwin.compressor.segmentLimitBytes'' ''status.darwin.compressor.segmentLimitBytes''
        (get_compressor dc_SegmentLimitBytes),
      f_opt ''darwin.swapinsTotal'' ''status.darwin.swapinsTotal'' (get_darwin dw_SwapinsTotal),
      f_opt ''darwin.swapoutsTotal'' ''status.darwin.swapoutsTotal'' (get_darwin dw_SwapoutsTotal)]"

definition get_psi ::
  "(LinuxPSI \<Rightarrow> PSIResource ptr) \<Rightarrow> (PSIResource \<Rightarrow> PSILine ptr) \<Rightarrow> (PSILine \<Rightarrow> int64 ptr) \<Rightarrow>
   PageSnapshot \<Rightarrow> int64 ptr"
where
  "get_psi r l v s =
     (case ps_Linux s of NilP \<Rightarrow> NilP
      | Ptr _ x \<Rightarrow> (case lx_PSI x of NilP \<Rightarrow> NilP
      | Ptr _ p \<Rightarrow> (case r p of NilP \<Rightarrow> NilP
      | Ptr _ res \<Rightarrow> (case l res of NilP \<Rightarrow> NilP
      | Ptr _ line \<Rightarrow> v line))))"

definition psiFields :: "pageField list" where
  "psiFields =
     concat (map (\<lambda>(rn, r). concat (map (\<lambda>(ln, l). map (\<lambda>(vn, v).
         let path = ''linux.psi.'' @ rn @ ''.'' @ ln @ ''.'' @ vn
         in f_opt path (''status.'' @ path) (get_psi r l v))
       [(''avg10Permille'', psi_Avg10Permille), (''avg60Permille'', psi_Avg60Permille),
        (''totalUs'', psi_TotalUs)])
       [(''some'', psi_Some), (''full'', psi_Full)]))
       [(''cpu'', psi_CPU), (''memory'', psi_Memory), (''io'', psi_IO)])"

definition get_events :: "(LinuxMemoryEvents \<Rightarrow> int64 ptr) \<Rightarrow> PageSnapshot \<Rightarrow> int64 ptr" where
  "get_events get s =
     (case ps_Linux s of NilP \<Rightarrow> NilP
      | Ptr _ x \<Rightarrow> (case lx_MemoryEvents x of NilP \<Rightarrow> NilP | Ptr _ e \<Rightarrow> get e))"

definition eventFields :: "pageField list" where
  "eventFields =
     map (\<lambda>(name, get). let path = ''linux.memoryEvents.'' @ name
         in f_opt path (''status.'' @ path) (get_events get))
       [(''high'', me_High), (''max'', me_Max), (''oom'', me_OOM), (''oomKill'', me_OOMKill)]"

text \<open>A signal slot. An empty slot is all zero words.\<close>

definition slotSignal :: "nat \<Rightarrow> PageSnapshot \<Rightarrow> BudgetSignal option" where
  "slotSignal i s = (if i < length (ps_Signals s) then Some (ps_Signals s ! i) else None)"

definition slotCode ::
  "nat \<Rightarrow> string \<Rightarrow> string \<Rightarrow> (BudgetSignal \<Rightarrow> uint64 \<times> bool) \<Rightarrow> pageField"
where
  "slotCode i name enum get =
     f_code (''signals['' @ nat_dec i @ ''].'' @ name) (''status.signals[].'' @ name) enum
       (\<lambda>s. case slotSignal i s of Some g \<Rightarrow> get g | None \<Rightarrow> (0, True))"

definition slotI64 :: "nat \<Rightarrow> string \<Rightarrow> (BudgetSignal \<Rightarrow> int64 ptr) \<Rightarrow> pageField" where
  "slotI64 i name get =
     f_i64 (''signals['' @ nat_dec i @ ''].'' @ name) (''status.signals[].'' @ name) True
       (\<lambda>s. case slotSignal i s of Some g \<Rightarrow> i64Word (get g) | None \<Rightarrow> (0, True))"

definition signalFields :: "nat \<Rightarrow> pageField list" where
  "signalFields i =
     [slotCode i ''id'' ''signal''
        (\<lambda>g. (SignalID_PageCode (sig_ID g), SignalID_PageCode (sig_ID g) \<noteq> 0)),
      slotCode i ''unit'' ''unit''
        (\<lambda>g. case pageCode pageUnitCodes (sig_Unit g) '''' of
            (c, ok) \<Rightarrow> (c, ok \<and> c \<noteq> 0 \<and> sig_Unit g = SignalID_Unit (sig_ID g))),
      slotI64 i ''value'' sig_Value,
      slotI64 i ''warnThreshold'' sig_WarnThreshold,
      slotI64 i ''admitStopThreshold'' sig_AdmitStopThreshold,
      slotI64 i ''criticalThreshold'' sig_CriticalThreshold,
      slotI64 i ''evictSoftThreshold'' sig_EvictSoftThreshold,
      slotI64 i ''evictHardThreshold'' sig_EvictHardThreshold,
      slotI64 i ''warnRelease'' sig_WarnRelease,
      slotI64 i ''admitStopRelease'' sig_AdmitStopRelease,
      slotI64 i ''criticalRelease'' sig_CriticalRelease,
      slotI64 i ''evictSoftRelease'' sig_EvictSoftRelease,
      slotI64 i ''evictHardRelease'' sig_EvictHardRelease,
      slotI64 i ''graceSeconds'' sig_GraceSeconds,
      slotI64 i ''minReclaimBytes'' sig_MinReclaimBytes,
      slotI64 i ''windowSeconds'' sig_WindowSeconds,
      slotI64 i ''etaToNextRungSeconds'' sig_EtaToNextRungSeconds,
      slotCode i ''trend'' ''trend'' (\<lambda>g. pageCode pageTrendCodes (sig_Trend g) TrendUnknown),
      slotCode i ''limitingResource'' ''limitingResource''
        (\<lambda>g. pageCode pageLimitingResourceCodes (sig_LimitingResource g) ResourceUnknown),
      slotCode i ''sharedWith'' ''signal''
        (\<lambda>g. (SignalID_PageCode (sig_SharedWith g),
              sig_SharedWith g = '''' \<or> SignalID_PageCode (sig_SharedWith g) \<noteq> 0))]"

definition actionFields :: "pageField list" where
  "actionFields =
     [add_field ''admit'' kindU64 0 0 ''bool'' False ''status.admit'' (Some (\<lambda>s. boolWord (ps_Admit s))),
      f_code ''admitReasonSignal'' ''status.admitReasonSignal'' ''signal''
        (\<lambda>s. (SignalID_PageCode (ps_AdmitReasonSignal s),
              ps_AdmitReasonSignal s = '''' \<or> SignalID_PageCode (ps_AdmitReasonSignal s) \<noteq> 0)),
      f_i64 ''evictDeadline'' ''status.evictDeadline'' True
        (\<lambda>s. case deref (ps_EvictDeadline s) of
            None \<Rightarrow> (pageAbsentWord, True)
          | Some t \<Rightarrow> (Time_Unix t, \<not> Time_IsZero t)),
      f_code ''killMode.mode'' ''status.killMode.mode'' ''killMode''
        (\<lambda>s. pageCode pageKillModeCodes (km_Mode (ps_KillMode s)) ''''),
      add_field ''killMode.armed'' kindU64 0 0 ''bool'' False ''status.killMode.armed''
        (Some (\<lambda>s. boolWord (km_Armed (ps_KillMode s)))),
      f_i64 ''killMode.armingEpisodes'' ''status.killMode.armingEpisodes'' False
        (\<lambda>s. (signed (km_ArmingEpisodes (ps_KillMode s)), 0 \<le> sint (km_ArmingEpisodes (ps_KillMode s)))),
      f_code ''killMode.reason'' ''status.killMode.reason'' ''killModeReason''
        (\<lambda>s. pageCode pageKillModeReasonCodes (km_Reason (ps_KillMode s)) KillReasonUnknown),
      f_opt ''recommendation.safeAdditionalBytes'' ''status.recommendation.safeAdditionalBytes''
        (\<lambda>s. rec_SafeAdditionalBytes (ps_Recommendation s)),
      f_code ''recommendation.basis'' ''status.recommendation.basis'' ''signal''
        (\<lambda>s. (SignalID_PageCode (rec_Basis (ps_Recommendation s)),
              rec_Basis (ps_Recommendation s) = '''' \<or>
              SignalID_PageCode (rec_Basis (ps_Recommendation s)) \<noteq> 0))]"

definition slotCounters :: "nat \<Rightarrow> PageSnapshot \<Rightarrow> PageBandCounters option" where
  "slotCounters i s = (if i < length (ps_Counters s) then Some (ps_Counters s ! i) else None)"

definition counterFields :: "nat \<Rightarrow> pageField list" where
  "counterFields i =
     f_code (''counters['' @ nat_dec i @ ''].band'') ''status.counters[].band'' ''band''
       (\<lambda>s. case slotCounters i s of
          Some c \<Rightarrow> (case pageCode pageBandCodes (pc_Band c) '''' of (k, ok) \<Rightarrow> (k, ok \<and> k \<noteq> 0))
        | None \<Rightarrow> (0, True)) #
     map (\<lambda>(name, get). f_i64 (''counters['' @ nat_dec i @ ''].'' @ name)
         (''status.counters[].'' @ name) False
         (\<lambda>s. case slotCounters i s of
            Some c \<Rightarrow> (get c, 0 \<le> sint (get c))
          | None \<Rightarrow> (0, True)))
       [(''evictionsTotal'', pc_EvictionsTotal), (''oomKillsTotal'', pc_OOMKillsTotal),
        (''kernelKillsTotal'', pc_KernelKillsTotal), (''restartsTotal'', pc_RestartsTotal),
        (''memHighEventsTotal'', pc_MemHighEventsTotal), (''tier1RefusedTotal'', pc_Tier1RefusedTotal)]"

definition minor1Fields :: "pageField list" where
  "minor1Fields =
     [f_opt ''capacity.cpuPerformanceCores'' ''status.capacity.cpuPerformanceCores''
        (\<lambda>s. cap_CPUPerformanceCores (ps_Capacity s)),
      f_opt ''capacity.cpuEfficiencyCores'' ''status.capacity.cpuEfficiencyCores''
        (\<lambda>s. cap_CPUEfficiencyCores (ps_Capacity s)),
      add_field ''capacity.gpuPresent'' kindI64 0 0 ''bool'' True ''status.capacity.gpuPresent''
        (Some (\<lambda>s. case deref (cap_GPUPresent (ps_Capacity s)) of
            None \<Rightarrow> (pageAbsentWord, True)
          | Some b \<Rightarrow> boolWord b)),
      f_opt ''capacity.gpuCount'' ''status.capacity.gpuCount'' (\<lambda>s. cap_GPUCount (ps_Capacity s))]"

definition minor0Fields :: "pageField list" where
  "minor0Fields = headerFields @ identityFields @ capacityFields @ darwinFields @ psiFields @
     eventFields @ concat (map signalFields [0..<MaxPageSignals]) @ actionFields @
     concat (map counterFields [0..<MaxPageCounters])"

definition pageFieldSpecs :: "pageField list" where
  "pageFieldSpecs = minor0Fields @ minor1Fields"

definition pageLayout :: "pageField list" where
  "pageLayout = fst (buildPageLayout pageFieldSpecs)"

definition pageBodyEnd :: nat where
  "pageBodyEnd = snd (buildPageLayout pageFieldSpecs)"

definition pageBodySize :: nat where
  "pageBodySize = pageBodyEnd - PageHeaderSize"

text \<open>\<open>pageOffset\<close>: a miss panics, here \<^term>\<open>None\<close>.\<close>

definition pageOffset :: "string \<Rightarrow> nat option" where
  "pageOffset name = map_option pf_offset (find (\<lambda>f. pf_name f = name) pageLayout)"

section \<open>The encoder\<close>

datatype page_err =
    ErrPageBuffer nat
  | ErrPageNodeNameTooLong nat
  | NodeNameEmpty
  | BadWriterPeriod int
  | PageUnknownPlatform string
  | PageUnknownLevel string
  | PageTooManySignals nat
  | PageTooManyCounters nat
  | DarwinBlockMissing
  | LinuxBlocksWrong
  | CannotCarry string
  | NilGetterPanic string

definition checkPageSnapshot :: "PageSnapshot \<Rightarrow> page_err option" where
  "checkPageSnapshot s =
     (if length (ps_NodeName s) > MaxPageNodeNameBytes
      then Some (ErrPageNodeNameTooLong (length (ps_NodeName s)))
      else if ps_NodeName s = '''' then Some NodeNameEmpty
      else if sint (ps_WriterPeriodSeconds s) \<le> 0
      then Some (BadWriterPeriod (sint (ps_WriterPeriodSeconds s)))
      else if \<not> Platform_Valid (ps_Platform s) then Some (PageUnknownPlatform (ps_Platform s))
      else if \<not> Level_Valid (ps_Level s) then Some (PageUnknownLevel (ps_Level s))
      else if length (ps_Signals s) > MaxPageSignals
      then Some (PageTooManySignals (length (ps_Signals s)))
      else if length (ps_Counters s) > MaxPageCounters
      then Some (PageTooManyCounters (length (ps_Counters s)))
      else if ps_Platform s = PlatformDarwin \<and> ps_Darwin s = NilP then Some DarwinBlockMissing
      else if ps_Platform s = PlatformLinux \<and> (ps_Linux s = NilP \<or> ps_Darwin s \<noteq> NilP)
      then Some LinuxBlocksWrong
      else None)"

text \<open>One iteration of the encoder's loop. Calling the getter of a field that has none would
  panic; \<open>no_nil_getter\<close> in PageCodec shows that only the three fields handled by name lack one.\<close>

definition encode_field :: "PageSnapshot \<Rightarrow> pageField \<Rightarrow> byte list \<Rightarrow> page_err + byte list" where
  "encode_field s f page =
     (if pf_name f = ''magic'' then Inr (put_bytes (pf_offset f) (str_bytes PageMagic) page)
      else if pf_name f = ''nodeName''
      then Inr (put_bytes (pf_offset f) (take (pf_size f) (str_bytes (ps_NodeName s))) page)
      else if pf_name f = ''bodySize'' then Inr (put_bytes (pf_offset f) (nat_le 4 pageBodySize) page)
      else case pf_get f of
          None \<Rightarrow> Inl (NilGetterPanic (pf_name f))
        | Some get \<Rightarrow>
            (case get s of (v, ok) \<Rightarrow>
               if \<not> ok then Inl (CannotCarry (pf_name f))
               else Inr (case pf_kind f of
                    kindU16 \<Rightarrow> put_bytes (pf_offset f) (nat_le 2 (unat v)) page
                  | kindU32 \<Rightarrow> put_bytes (pf_offset f) (nat_le 4 (unat v)) page
                  | _ \<Rightarrow> put_bytes (pf_offset f) (word_le v) page)))"

primrec encode_fields :: "PageSnapshot \<Rightarrow> pageField list \<Rightarrow> byte list \<Rightarrow> page_err + byte list" where
  "encode_fields s [] page = Inr page"
| "encode_fields s (f # fs) page =
     (case encode_field s f page of Inl e \<Rightarrow> Inl e | Inr page' \<Rightarrow> encode_fields s fs page')"

text \<open>\<open>EncodePage\<close> returns the destination as it leaves it: the page in the first \<open>PageSize\<close>
  bytes, the rest as it was. On an error the destination is not touched.\<close>

definition EncodePage :: "byte list \<Rightarrow> PageSnapshot \<Rightarrow> page_err + byte list" where
  "EncodePage dst s =
     (if length dst < PageSize then Inl (ErrPageBuffer (length dst))
      else case checkPageSnapshot s of
          Some e \<Rightarrow> Inl e
        | None \<Rightarrow>
            (case encode_fields s pageLayout (replicate PageSize 0) of
               Inl e \<Rightarrow> Inl e
             | Inr page \<Rightarrow> Inr (page @ drop PageSize dst)))"


section \<open>The descriptor\<close>

definition newline :: string where
  "newline = [CHR 0x0A]"

definition pageLayoutHeader :: string where
  "pageLayoutHeader = concat (map (\<lambda>l. l @ newline)
     [''# k3sm node budget page, ABI major 1: a 4096-byte little-endian file.'',
      ''# One line per field: <offset> <size> <kind> <absent|-> <enum|-> <name>. A minor only appends lines.'',
      ''# Fields mirror NodeBudget: the same names and units (seconds, bytes, permille, counts).'',
      ''# Page-only: magic abiMajor abiMinor headerSize bodySize seq notifyEpoch writerPeriodSeconds.'',
      ''# NodeBudget-only: conditions, writer, policy, inForce, wouldKill, windowed counts, every string but nodeName.'',
      ''# Codes are u64, index+1 in the manifest tables, 0 unset or unknown; an absent i64 is -9223372036854775808.'',
      ''# Signal and counter slots are filled in order; an empty slot (id or band 0) is all zero bytes.'',
      ''# nodeName: 256 inline bytes after nodeNameLen; a length above 253 is refused by writers and readers.'',
      ''# Host or guest: platform=darwin with every linux word absent is the host's page; with any linux word present, a vm guest's.'',
      ''# Seqlock: store seq odd, every body word (headerSize to headerSize+bodySize), seq even, then notifyEpoch.'',
      ''# notifyEpoch: alone on its line, outside the seqlock region; wait on its low 32-bit word, the 4 bytes at'',
      ''# its offset; bumped only on a change of level, admit, a threshold or generation; it wraps, so compare'',
      ''# for inequality only.''])"

definition layoutLine :: "pageField \<Rightarrow> string" where
  "layoutLine f =
     nat_dec (pf_offset f) @ '' '' @ nat_dec (pf_size f) @ '' '' @ pageKind_String (pf_kind f) @ '' '' @
     (if pf_absent f then ''absent'' else ''-'') @ '' '' @
     (if pf_enum f \<noteq> '''' then pf_enum f else ''-'') @ '' '' @ pf_name f @ newline"

definition descriptor :: "pageField list \<Rightarrow> string" where
  "descriptor layout = pageLayoutHeader @ concat (map layoutLine layout)"

definition PageLayout :: string where
  "PageLayout = descriptor pageLayout"

section \<open>The layout\<close>

lemma round_up:
  fixes a off :: nat
  assumes "0 < a"
  shows "off \<le> (off + a - 1) div a * a"
proof -
  have "(off + a - 1) div a * a + (off + a - 1) mod a = off + a - 1" by simp
  moreover have "(off + a - 1) mod a < a" using assms by simp
  ultimately show ?thesis using assms by linarith
qed

lemma round_up_dvd:
  fixes a off :: nat
  assumes "0 < a" "a dvd off"
  shows "(off + a - 1) div a * a = off"
proof -
  obtain k where k: "off = k * a" using assms(2) by (metis dvd_def mult.commute)
  then have *: "off + a - 1 = (a - 1) + k * a" using assms(1) by simp
  have "((a - 1) + k * a) div a = k + (a - 1) div a"
    using assms(1) by (intro div_mult_self1) simp
  also have "(a - 1) div a = 0" using assms(1) by (intro div_less) simp
  finally have "(off + a - 1) div a = k" by (simp only: * add_0_right)
  then show ?thesis by (simp only: k)
qed

lemma field_align_pos: "0 < field_align f"
  by (simp add: field_align_def split: pageKind.split)

abbreviation apart :: "pageField \<Rightarrow> pageField \<Rightarrow> bool" where
  "apart f g \<equiv> pf_offset f + pf_size f \<le> pf_offset g"

definition laid_out :: "nat \<Rightarrow> pageField list \<Rightarrow> nat \<Rightarrow> bool" where
  "laid_out off gs stop \<longleftrightarrow> off \<le> stop \<and> sorted_wrt apart gs \<and>
     (\<forall>g \<in> set gs. off \<le> pf_offset g \<and> pf_offset g + pf_size g \<le> stop \<and>
        field_align g dvd pf_offset g)"

lemma layout_from_laid_out: "layout_from off fs = (gs, stop) \<Longrightarrow> laid_out off gs stop"
proof (induction fs arbitrary: off gs)
  case (Cons f fs)
  define at where "at = (off + field_align f - 1) div field_align f * field_align f"
  obtain rest where rest: "layout_from (at + pf_size f) fs = (rest, stop)"
    and gs: "gs = f\<lparr>pf_offset := at\<rparr> # rest"
    using Cons.prems by (auto simp: Let_def at_def split: prod.splits)
  have "off \<le> at" unfolding at_def by (rule round_up [OF field_align_pos])
  moreover have "field_align (f\<lparr>pf_offset := at\<rparr>) dvd at" by (simp add: at_def field_align_def)
  ultimately show ?case
    using Cons.IH [OF rest] unfolding gs laid_out_def by (auto intro: order_trans)
qed (simp add: laid_out_def)

lemma layout_from_append:
  "layout_from off (fs @ hs) =
     (case layout_from off fs of (a, m) \<Rightarrow> case layout_from m hs of (b, e) \<Rightarrow> (a @ b, e))"
  by (induction fs arbitrary: off) (auto simp: Let_def split: prod.splits)

text \<open>Offsets are all the layout adds.\<close>

lemma layout_from_same:
  "layout_from off fs = (gs, stop) \<Longrightarrow>
   length gs = length fs \<and> map (pf_offset_update (\<lambda>_. 0)) gs = map (pf_offset_update (\<lambda>_. 0)) fs"
  by (induction fs arbitrary: off gs) (auto simp: Let_def split: prod.splits)

lemma layout_fields:
  assumes "layout_from off fs = (gs, stop)" "g \<in> set gs"
  obtains f where "f \<in> set fs" "g = f\<lparr>pf_offset := pf_offset g\<rparr>"
proof -
  obtain i where i: "i < length gs" "g = gs ! i" using assms(2) by (metis in_set_conv_nth)
  from layout_from_same [OF assms(1)] i
  have len: "i < length fs" and eq: "g\<lparr>pf_offset := 0\<rparr> = (fs ! i)\<lparr>pf_offset := 0\<rparr>"
    by (auto simp: list_eq_iff_nth_eq)
  have "g = (g\<lparr>pf_offset := 0\<rparr>)\<lparr>pf_offset := pf_offset g\<rparr>" by simp
  also have "\<dots> = (fs ! i)\<lparr>pf_offset := pf_offset g\<rparr>" unfolding eq by simp
  finally show ?thesis using len that [of "fs ! i"] by simp
qed

text \<open>Runs of eight-byte words.\<close>

definition is_word :: "pageField \<Rightarrow> bool" where
  "is_word f \<longleftrightarrow> pf_kind f \<in> {kindU64, kindI64} \<and> pf_size f = 8 \<and> pf_align f = 0"

lemma is_word_add_field [simp]:
  "is_word (f_i64 name status absent get)" "is_word (f_opt name status pget)"
  "is_word (f_code name status enum get)" "is_word (slotCode i name enum cget)"
  "is_word (slotI64 i name iget)"
  "is_word (add_field name kind 0 0 enum absent status oget) \<longleftrightarrow> kind \<in> {kindU64, kindI64}"
  by (simp_all add: is_word_def f_opt_def f_i64_def f_code_def slotCode_def slotI64_def add_field_def)

lemma layout_words:
  "list_all is_word fs \<Longrightarrow> 8 dvd off \<Longrightarrow> snd (layout_from off fs) = off + 8 * length fs"
proof (induction fs arbitrary: off)
  case (Cons f fs)
  from Cons.prems(1) have a: "field_align f = 8" "pf_size f = 8"
    by (auto simp: is_word_def field_align_def)
  have up: "(off + 8 - 1) div 8 * 8 = off" by (rule round_up_dvd) (simp_all add: Cons.prems(2))
  have "snd (layout_from (off + 8) fs) = off + 8 + 8 * length fs"
    using Cons.prems by (intro Cons.IH) simp_all
  then show ?case unfolding layout_from.simps Let_def a up by (auto split: prod.split)
qed simp

definition wordFields :: "pageField list" where
  "wordFields = capacityFields @ darwinFields @ psiFields @ eventFields @
     concat (map signalFields [0..<MaxPageSignals]) @ actionFields @
     concat (map counterFields [0..<MaxPageCounters])"

lemma specs_split: "pageFieldSpecs = (headerFields @ identityFields @ wordFields) @ minor1Fields"
  by (simp add: pageFieldSpecs_def minor0Fields_def wordFields_def)

lemma length_groups:
  "length capacityFields = 8" "length darwinFields = 8" "length psiFields = 18"
  "length eventFields = 4" "length (signalFields i) = 20" "length actionFields = 9"
  "length (counterFields i) = 7" "length minor1Fields = 4"
  by (simp_all add: capacityFields_def darwinFields_def psiFields_def eventFields_def
      signalFields_def actionFields_def counterFields_def minor1Fields_def)

lemma words_groups:
  "list_all is_word capacityFields" "list_all is_word darwinFields" "list_all is_word psiFields"
  "list_all is_word eventFields" "list_all is_word (signalFields i)" "list_all is_word actionFields"
  "list_all is_word (counterFields i)" "list_all is_word minor1Fields"
  by (simp_all add: capacityFields_def darwinFields_def psiFields_def eventFields_def
      signalFields_def actionFields_def counterFields_def minor1Fields_def Let_def)

lemma length_concat_map_upt: "(\<And>i. length (f i) = k) \<Longrightarrow> length (concat (map f [0..<n])) = k * n"
  by (induction n) simp_all

lemma length_wordFields: "length wordFields = 228"
  by (simp add: wordFields_def length_groups length_concat_map_upt [OF length_groups(5)]
      length_concat_map_upt [OF length_groups(7)] const_defs)

lemma words_wordFields: "list_all is_word wordFields"
  using words_groups by (auto simp: wordFields_def list_all_iff)

lemma header_layout:
  "layout_from 0 headerFields =
     (map2 (\<lambda>f at. f\<lparr>pf_offset := at\<rparr>) headerFields [0, 8, 10, 12, 16, 64, 128], 136)"
  by (simp add: headerFields_def add_field_def field_align_def Let_def PageMagic_def)

lemma identity_layout:
  "layout_from 136 identityFields =
     (map2 (\<lambda>f at. f\<lparr>pf_offset := at\<rparr>) identityFields [192, 200, 208, 216, 224, 232], 488)"
  by (simp add: identityFields_def f_i64_def f_code_def add_field_def field_align_def Let_def const_defs)

lemma word_layout: "snd (layout_from 488 wordFields) = 2312" "snd (layout_from 2312 minor1Fields) = 2344"
  by (simp_all add: layout_words words_wordFields words_groups length_wordFields length_groups)

lemma pageLayout_split:
  "pageLayout =
     map2 (\<lambda>f at. f\<lparr>pf_offset := at\<rparr>) headerFields [0, 8, 10, 12, 16, 64, 128] @
     map2 (\<lambda>f at. f\<lparr>pf_offset := at\<rparr>) identityFields [192, 200, 208, 216, 224, 232] @
     fst (layout_from 488 wordFields) @ fst (layout_from 2312 minor1Fields)"
  using word_layout
  by (auto simp: pageLayout_def buildPageLayout_def specs_split layout_from_append header_layout
      identity_layout split: prod.split)

lemma pageBodyEnd_eq: "pageBodyEnd = 2344"
  using word_layout
  by (auto simp: pageBodyEnd_def buildPageLayout_def specs_split layout_from_append header_layout
      identity_layout split: prod.split)

lemma pageBodySize_eq: "pageBodySize = 2152"
  by (simp add: pageBodySize_def pageBodyEnd_eq const_defs)

lemma pageLayout_laid_out: "laid_out 0 pageLayout pageBodyEnd"
  unfolding pageLayout_def pageBodyEnd_def buildPageLayout_def
  by (rule layout_from_laid_out) simp

lemma header_offsets:
  "pageOffset ''abiMajor'' = Some 8" "pageOffset ''abiMinor'' = Some 10"
  "pageOffset ''headerSize'' = Some 12" "pageOffset ''bodySize'' = Some 16"
  "pageOffset ''seq'' = Some 64" "pageOffset ''notifyEpoch'' = Some 128"
  "pageOffset ''generation'' = Some 192"
  by (simp_all add: pageOffset_def pageLayout_split headerFields_def identityFields_def add_field_def)

text \<open>The fields the encoder handles by name are those without a getter.\<close>

abbreviation by_name :: "pageField \<Rightarrow> bool" where
  "by_name f \<equiv> pf_name f \<in> {''magic'', ''nodeName'', ''bodySize''}"

definition field_shape :: "pageField \<Rightarrow> bool" where
  "field_shape f \<longleftrightarrow>
     (pf_get f = None \<longleftrightarrow> by_name f) \<and>
     (if pf_name f = ''magic'' then pf_size f = 8
      else if pf_name f = ''nodeName'' then pf_size f = 256
      else if pf_name f = ''bodySize'' then pf_size f = 4
      else (case pf_kind f of kindU16 \<Rightarrow> pf_size f = 2 | kindU32 \<Rightarrow> pf_size f = 4 | _ \<Rightarrow> pf_size f = 8))"

lemmas field_defs = f_opt_def f_i64_def f_code_def slotCode_def slotI64_def add_field_def

lemma shape_groups:
  "list_all field_shape headerFields" "list_all field_shape identityFields"
  "list_all field_shape capacityFields" "list_all field_shape darwinFields"
  "list_all field_shape psiFields" "list_all field_shape eventFields"
  "list_all field_shape (signalFields i)" "list_all field_shape actionFields"
  "list_all field_shape (counterFields i)" "list_all field_shape minor1Fields"
  by (simp_all add: headerFields_def identityFields_def capacityFields_def darwinFields_def
      psiFields_def eventFields_def signalFields_def actionFields_def counterFields_def
      minor1Fields_def field_shape_def field_defs Let_def PageMagic_def const_defs)

lemma shape_specs: "f \<in> set pageFieldSpecs \<Longrightarrow> field_shape f"
  using shape_groups by (auto simp: pageFieldSpecs_def minor0Fields_def list_all_iff)

lemma pageLayout_from: "layout_from 0 pageFieldSpecs = (pageLayout, pageBodyEnd)"
  by (simp add: pageLayout_def pageBodyEnd_def buildPageLayout_def)

lemma field_shape_offset: "field_shape (g\<lparr>pf_offset := x\<rparr>) = field_shape g"
  by (simp add: field_shape_def split: pageKind.split)

lemma pageLayout_shape:
  assumes "f \<in> set pageLayout"
  shows "field_shape f"
proof -
  obtain g where g: "g \<in> set pageFieldSpecs" "f = g\<lparr>pf_offset := pf_offset f\<rparr>"
    by (rule layout_fields [OF pageLayout_from assms])
  from shape_specs [OF g(1)] have "field_shape (g\<lparr>pf_offset := pf_offset f\<rparr>)"
    by (simp only: field_shape_offset)
  then show ?thesis by (subst g(2))
qed

end
