(* ===== verification/PageCodec.thy ===== *)
theory PageCodec
  imports Page
begin

text \<open>
  What \<open>EncodePage\<close> writes. The encoder fails with the first field whose getter refuses the
  snapshot, and otherwise every field of the layout reads back from the page as the bytes of
  its value.
\<close>

section \<open>Reading the page back\<close>

text \<open>The bytes a field contributes, and whether its getter accepts the snapshot.\<close>

definition field_bytes :: "PageSnapshot \<Rightarrow> pageField \<Rightarrow> byte list" where
  "field_bytes s f =
     (if pf_name f = ''magic'' then str_bytes PageMagic
      else if pf_name f = ''nodeName'' then take (pf_size f) (str_bytes (ps_NodeName s))
      else if pf_name f = ''bodySize'' then nat_le 4 pageBodySize
      else case pf_get f of
          None \<Rightarrow> []
        | Some get \<Rightarrow> (case pf_kind f of
              kindU16 \<Rightarrow> nat_le 2 (unat (fst (get s)))
            | kindU32 \<Rightarrow> nat_le 4 (unat (fst (get s)))
            | _ \<Rightarrow> word_le (fst (get s))))"

definition field_ok :: "PageSnapshot \<Rightarrow> pageField \<Rightarrow> bool" where
  "field_ok s f \<longleftrightarrow> by_name f \<or> (\<exists>get. pf_get f = Some get \<and> snd (get s))"

lemma encode_field_eq:
  "encode_field s f page =
     (if field_ok s f then Inr (put_bytes (pf_offset f) (field_bytes s f) page)
      else Inl (if pf_get f = None then NilGetterPanic (pf_name f) else CannotCarry (pf_name f)))"
  by (auto simp: encode_field_def field_ok_def field_bytes_def split: option.split prod.split pageKind.split)

lemma length_field_bytes: "field_shape f \<Longrightarrow> length (field_bytes s f) \<le> pf_size f"
  by (auto simp: field_shape_def field_bytes_def PageMagic_def split: option.split pageKind.splits if_splits)

definition write_all :: "PageSnapshot \<Rightarrow> pageField list \<Rightarrow> byte list \<Rightarrow> byte list" where
  "write_all s fs page = foldl (\<lambda>p f. put_bytes (pf_offset f) (field_bytes s f) p) page fs"

lemma write_all_simps [simp]:
  "write_all s [] page = page"
  "write_all s (f # fs) page = write_all s fs (put_bytes (pf_offset f) (field_bytes s f) page)"
  by (simp_all add: write_all_def)

lemma encode_fields_eq:
  "encode_fields s fs page =
     (case find (\<lambda>f. \<not> field_ok s f) fs of
        None \<Rightarrow> Inr (write_all s fs page)
      | Some f \<Rightarrow> Inl (if pf_get f = None then NilGetterPanic (pf_name f) else CannotCarry (pf_name f)))"
  by (induction fs arbitrary: page) (auto simp: encode_field_eq split: option.split)

definition fits :: "PageSnapshot \<Rightarrow> nat \<Rightarrow> pageField list \<Rightarrow> bool" where
  "fits s n fs \<longleftrightarrow> sorted_wrt apart fs \<and>
     (\<forall>f \<in> set fs. length (field_bytes s f) \<le> pf_size f \<and> pf_offset f + pf_size f \<le> n)"

lemma length_write_all: "fits s (length page) fs \<Longrightarrow> length (write_all s fs page) = length page"
proof (induction fs arbitrary: page)
  case (Cons f fs)
  from Cons.prems have le: "pf_offset f + length (field_bytes s f) \<le> length page"
    by (auto simp: fits_def)
  have "fits s (length (put_bytes (pf_offset f) (field_bytes s f) page)) fs"
    using Cons.prems le by (simp add: fits_def)
  from Cons.IH [OF this] le show ?case by simp
qed simp

lemma write_all_below:
  assumes "fits s (length page) fs" "k + n \<le> length page"
    and "\<forall>f \<in> set fs. k + n \<le> pf_offset f \<or> pf_offset f + pf_size f \<le> k"
  shows "get_bytes k n (write_all s fs page) = get_bytes k n page"
  using assms
proof (induction fs arbitrary: page)
  case (Cons f fs)
  from Cons.prems(1) have le: "pf_offset f + length (field_bytes s f) \<le> length page"
    and sz: "length (field_bytes s f) \<le> pf_size f"
    by (auto simp: fits_def)
  let ?p = "put_bytes (pf_offset f) (field_bytes s f) page"
  have "get_bytes k n (write_all s fs ?p) = get_bytes k n ?p"
    by (rule Cons.IH) (use Cons.prems le in \<open>simp_all add: fits_def\<close>)
  also have "\<dots> = get_bytes k n page"
    by (rule get_put_other) (use Cons.prems le sz in auto)
  finally show ?case by simp
qed simp

lemma write_all_read:
  assumes "fits s (length page) fs" "f \<in> set fs"
  shows "get_bytes (pf_offset f) (length (field_bytes s f)) (write_all s fs page) = field_bytes s f"
  using assms
proof (induction fs arbitrary: page)
  case (Cons g fs)
  from Cons.prems(1) have le: "pf_offset g + length (field_bytes s g) \<le> length page"
    by (auto simp: fits_def)
  let ?p = "put_bytes (pf_offset g) (field_bytes s g) page"
  have fits: "fits s (length ?p) fs" using Cons.prems(1) le by (simp add: fits_def)
  show ?case
  proof (cases "f \<in> set fs")
    case True
    from Cons.IH [OF fits this] show ?thesis by simp
  next
    case False
    with Cons.prems(2) have f: "f = g" by simp
    have "get_bytes (pf_offset g) (length (field_bytes s g)) (write_all s fs ?p) =
        get_bytes (pf_offset g) (length (field_bytes s g)) ?p"
      by (rule write_all_below [OF fits]) (use Cons.prems(1) le in \<open>auto simp: fits_def\<close>)
    also have "\<dots> = field_bytes s g" by (rule get_put_same [OF le])
    finally show ?thesis by (simp add: f)
  qed
qed simp

lemma pageLayout_fits: "fits s PageSize pageLayout"
  using pageLayout_laid_out pageLayout_shape length_field_bytes
  by (fastforce simp: fits_def laid_out_def pageBodyEnd_eq PageSize_def)

lemma no_nil_getter: "f \<in> set pageLayout \<Longrightarrow> \<not> field_ok s f \<Longrightarrow> pf_get f \<noteq> None"
  using pageLayout_shape [of f] by (auto simp: field_ok_def field_shape_def)

lemma EncodePage_eq:
  "EncodePage dst s =
     (if length dst < PageSize then Inl (ErrPageBuffer (length dst))
      else case checkPageSnapshot s of
          Some e \<Rightarrow> Inl e
        | None \<Rightarrow>
            (case find (\<lambda>f. \<not> field_ok s f) pageLayout of
               Some f \<Rightarrow> Inl (CannotCarry (pf_name f))
             | None \<Rightarrow> Inr (write_all s pageLayout (replicate PageSize 0) @ drop PageSize dst)))"
proof -
  have "pf_get f \<noteq> None" if "find (\<lambda>f. \<not> field_ok s f) pageLayout = Some f" for f
    using that no_nil_getter [of f s] by (auto simp: find_Some_iff)
  then show ?thesis
    by (auto simp: EncodePage_def encode_fields_eq split: option.split)
qed

lemma length_page: "length (write_all s pageLayout (replicate PageSize 0)) = PageSize"
  using length_write_all [of s "replicate PageSize 0" pageLayout] pageLayout_fits by simp

lemma EncodePage_InrD:
  assumes "EncodePage dst s = Inr p"
  shows "checkPageSnapshot s = None" "PageSize \<le> length dst"
    "p = write_all s pageLayout (replicate PageSize 0) @ drop PageSize dst"
    "f \<in> set pageLayout \<Longrightarrow> field_ok s f"
  using assms by (auto simp: EncodePage_eq find_None_iff split: if_splits option.splits)

lemma EncodePage_read:
  assumes "EncodePage dst s = Inr p" "f \<in> set pageLayout"
  shows "get_bytes (pf_offset f) (length (field_bytes s f)) p = field_bytes s f"
proof -
  let ?w = "write_all s pageLayout (replicate PageSize 0)"
  from pageLayout_fits [of s] assms(2)
  have le: "pf_offset f + length (field_bytes s f) \<le> PageSize" by (auto simp: fits_def)
  have "get_bytes (pf_offset f) (length (field_bytes s f)) p =
      get_bytes (pf_offset f) (length (field_bytes s f)) ?w"
    using le EncodePage_InrD(3) [OF assms(1)] by (simp add: get_bytes_def length_page)
  also have "\<dots> = field_bytes s f"
    by (rule write_all_read) (simp_all add: pageLayout_fits assms(2))
  finally show ?thesis .
qed

lemma EncodePage_word:
  assumes "EncodePage dst s = Inr p" "f \<in> set pageLayout" "pf_get f = Some get"
    and "pf_kind f \<in> {kindU64, kindI64}"
  shows "snd (get s)" "le_word (get_bytes (pf_offset f) 8 p) = fst (get s)"
proof -
  have "\<not> by_name f" using pageLayout_shape [OF assms(2)] assms(3) by (auto simp: field_shape_def)
  with assms(3,4) EncodePage_InrD(4) [OF assms(1,2)] EncodePage_read [OF assms(1,2)]
  show "snd (get s)" "le_word (get_bytes (pf_offset f) 8 p) = fst (get s)"
    by (auto simp: field_ok_def field_bytes_def)
qed


section \<open>Fields in their groups\<close>

text \<open>Every field of the specs has one laid-out counterpart, the same but for its offset.\<close>

lemma spec_in_layout:
  assumes "f \<in> set pageFieldSpecs"
  obtains g where "g \<in> set pageLayout" "pf_get g = pf_get f" "pf_name g = pf_name f" "pf_kind g = pf_kind f"
proof -
  obtain i where i: "i < length pageFieldSpecs" "f = pageFieldSpecs ! i"
    using assms by (metis in_set_conv_nth)
  from layout_from_same [OF pageLayout_from] i
  have len: "i < length pageLayout" and eq: "(pageLayout ! i)\<lparr>pf_offset := 0\<rparr> = f\<lparr>pf_offset := 0\<rparr>"
    by (auto simp: list_eq_iff_nth_eq)
  from arg_cong [OF eq, of pf_get] arg_cong [OF eq, of pf_name] arg_cong [OF eq, of pf_kind]
    len that [of "pageLayout ! i"]
  show ?thesis by simp
qed

text \<open>Whether the page can carry a snapshot is a matter of its getters.\<close>

definition carries :: "PageSnapshot \<Rightarrow> pageField list \<Rightarrow> bool" where
  "carries s fs \<longleftrightarrow> list_all (\<lambda>f. case pf_get f of None \<Rightarrow> True | Some get \<Rightarrow> snd (get s)) fs"

lemma carries_append [simp]: "carries s (fs @ gs) \<longleftrightarrow> carries s fs \<and> carries s gs"
  by (simp add: carries_def)

lemma carries_concat: "carries s (concat (map h xs)) \<longleftrightarrow> (\<forall>x \<in> set xs. carries s (h x))"
  by (induction xs) (simp_all, simp add: carries_def)

lemma field_ok_get: "f \<in> set pageLayout \<Longrightarrow>
    field_ok s f \<longleftrightarrow> (case pf_get f of None \<Rightarrow> True | Some get \<Rightarrow> snd (get s))"
  using pageLayout_shape [of f] by (auto simp: field_ok_def field_shape_def split: option.split)

lemma layout_carries: "(\<forall>f \<in> set pageLayout. field_ok s f) \<longleftrightarrow> carries s pageFieldSpecs"
proof -
  have "map pf_get (map (pf_offset_update (\<lambda>_. 0)) pageLayout) =
      map pf_get (map (pf_offset_update (\<lambda>_. 0)) pageFieldSpecs)"
    using layout_from_same [OF pageLayout_from] by simp
  then have gets: "map pf_get pageLayout = map pf_get pageFieldSpecs" by (simp add: o_def)
  have all: "list_all P (map pf_get fs) \<longleftrightarrow> (\<forall>f \<in> set fs. P (pf_get f))" for P fs
    by (simp add: list_all_iff)
  show ?thesis
    unfolding carries_def list_all_iff all [symmetric] gets [symmetric]
    by (simp add: field_ok_get list_all_iff)
qed

lemma EncodePage_ok_iff:
  "(\<exists>p. EncodePage dst s = Inr p) \<longleftrightarrow>
     PageSize \<le> length dst \<and> checkPageSnapshot s = None \<and> carries s pageFieldSpecs"
  unfolding layout_carries [symmetric]
  by (auto simp: EncodePage_eq find_None_iff find_Some_iff split: option.split if_splits)

end
