(* ===== verification/PageFit.thy ===== *)
theory PageFit
  imports PageCodec
begin

text \<open>
  Every observation that passes \<open>NodeBudgetObservation.Validate\<close> has a page: the getters of
  \<open>pageFieldSpecs\<close> accept it, group by group, so \<open>NewPageSnapshot\<close> followed by \<open>EncodePage\<close>
  succeeds.
\<close>

section \<open>A valid observation fits the page\<close>

lemma i64Word_nonneg: "nonneg p \<Longrightarrow> snd (i64Word p)"
  by (cases p) (auto simp: i64Word_def PageAbsent_def)

lemma in_permille_word: "in_permille p \<Longrightarrow> snd (i64Word p)"
  by (rule i64Word_nonneg) (rule in_permille_nonneg)

lemma i64Word_nil [simp]: "snd (i64Word NilP)"
  by (simp add: i64Word_def)

lemma boolWord_ok [simp]: "snd (boolWord b)"
  by (simp add: boolWord_def)

lemma carries_opt [simp]: "carries s (f_opt name status get # fs) \<longleftrightarrow> snd (i64Word (get s)) \<and> carries s fs"
  by (simp add: carries_def field_defs)

lemma carries_i64 [simp]: "carries s (f_i64 name status absent get # fs) \<longleftrightarrow> snd (get s) \<and> carries s fs"
  by (simp add: carries_def field_defs)

lemma carries_code [simp]: "carries s (f_code name status enum get # fs) \<longleftrightarrow> snd (get s) \<and> carries s fs"
  by (simp add: carries_def field_defs)

lemma carries_add [simp]:
  "carries s (add_field name kind sz align enum absent status get # fs) \<longleftrightarrow>
     (case get of None \<Rightarrow> True | Some g \<Rightarrow> snd (g s)) \<and> carries s fs"
  by (simp add: carries_def field_defs)

lemma carries_Nil [simp]: "carries s []"
  by (simp add: carries_def)

lemma carries_slotCode [simp]:
  "carries s (slotCode i name enum get # fs) \<longleftrightarrow>
     (case slotSignal i s of Some g \<Rightarrow> snd (get g) | None \<Rightarrow> True) \<and> carries s fs"
  by (simp add: slotCode_def split: option.split)

lemma carries_slotI64 [simp]:
  "carries s (slotI64 i name get # fs) \<longleftrightarrow>
     (case slotSignal i s of Some g \<Rightarrow> snd (i64Word (get g)) | None \<Rightarrow> True) \<and> carries s fs"
  by (simp add: slotI64_def split: option.split)

lemma carries_header: "carries s headerFields"
  by (simp add: headerFields_def constGet_def)

lemma carries_identity:
  "Platform_Valid (ps_Platform s) \<Longrightarrow> \<not> Time_IsZero (ps_ObservedAt s) \<Longrightarrow> carries s identityFields"
  using platform_table.pageCode_ok_iff
  by (auto simp: identityFields_def Platform_Valid_def pagePlatformCodes_def)

lemma carries_capacity: "capacity_wf (ps_Capacity s) \<Longrightarrow> carries s capacityFields \<and> carries s minor1Fields"
  by (simp add: capacityFields_def minor1Fields_def capacity_wf_def i64Word_nonneg split: option.split)

lemma carries_darwin:
  assumes "Level_Valid (ps_Level s)" "\<forall>d. deref (ps_Darwin s) = Some d \<longrightarrow> darwin_wf d"
  shows "carries s darwinFields"
proof -
  have "snd (pageCode pageLevelCodes (ps_Level s) '''')"
    using assms(1) level_table.pageCode_ok_iff by (auto simp: Level_Valid_def pageLevelCodes_def)
  moreover have "snd (i64Word (get_compressor g s))" if "g \<in> {dc_BytesUsed, dc_BytesStored, dc_SegmentLimitBytes}" for g
    using assms(2) that
    by (auto simp: get_compressor_def get_darwin_def darwin_wf_def i64Word_nonneg split: ptr.split)
  moreover have "snd (i64Word (get_darwin g s))"
    if "g \<in> {dw_VMPressureLevel, dw_MemorystatusLevelPermille, dw_SwapinsTotal, dw_SwapoutsTotal}" for g
    using assms(2) that
    by (auto simp: get_darwin_def darwin_wf_def i64Word_nonneg in_permille_word split: ptr.split)
  ultimately show ?thesis by (simp add: darwinFields_def)
qed

lemma carries_psi:
  assumes "\<forall>l. deref (ps_Linux s) = Some l \<longrightarrow> linux_wf l"
  shows "carries s psiFields"
proof -
  have line: "psiline_wf l \<Longrightarrow> v \<in> {psi_Avg10Permille, psi_Avg60Permille, psi_TotalUs} \<Longrightarrow> snd (i64Word (v l))" for l v
    by (auto simp: psiline_wf_def i64Word_nonneg in_permille_word)
  have "snd (i64Word (get_psi r l v s))"
    if "r \<in> {psi_CPU, psi_Memory, psi_IO}" "l \<in> {psi_Some, psi_Full}"
      "v \<in> {psi_Avg10Permille, psi_Avg60Permille, psi_TotalUs}" for r l v
  proof (cases "get_psi r l v s")
    case (Ptr a x)
    then obtain lx p res ln where "deref (ps_Linux s) = Some lx" "deref (lx_PSI lx) = Some p"
      "deref (r p) = Some res" "deref (l res) = Some ln" and eq: "get_psi r l v s = v ln"
      by (auto simp: get_psi_def deref_eq_Some split: ptr.splits)
    with assms that(1,2) have "psiline_wf ln" by (auto simp: linux_wf_def psiresource_wf_def)
    with eq line that(3) show ?thesis by simp
  qed simp
  then show ?thesis by (simp add: psiFields_def Let_def)
qed

lemma carries_events:
  assumes "\<forall>l. deref (ps_Linux s) = Some l \<longrightarrow> linux_wf l"
  shows "carries s eventFields"
proof -
  have "snd (i64Word (get_events g s))" if "g \<in> {me_High, me_Max, me_OOM, me_OOMKill}" for g
    using assms that by (auto simp: get_events_def linux_wf_def i64Word_nonneg split: ptr.split)
  then show ?thesis by (simp add: eventFields_def Let_def)
qed

lemma SignalID_code_ok: "s = [] \<or> s \<in> set Signals \<Longrightarrow> s = [] \<or> SignalID_PageCode s \<noteq> 0"
  using SignalID_Valid_iff [of s] by (auto simp: Signals_def SignalID_Valid_def)

lemma unit_code:
  assumes "SignalID_Valid g"
  shows "case pageCode pageUnitCodes (SignalID_Unit g) [] of (c, ok) \<Rightarrow> ok \<and> c \<noteq> 0"
  using assms
  by (cases rule: signal_cases) (simp_all add: SignalID_Unit_def pageCode_def pageUnitCodes_def vocab_defs)

lemma carries_signal:
  assumes "\<forall>g \<in> set (ps_Signals s). signal_wf g"
  shows "carries s (signalFields i)"
proof (cases "slotSignal i s")
  case (Some g)
  then have "signal_wf g" using assms by (auto simp: slotSignal_def split: if_splits)
  then have ok: "SignalID_Valid (sig_ID g)" "sig_Unit g = SignalID_Unit (sig_ID g)"
    and opt: "\<forall>v \<in> {sig_Value g, sig_GraceSeconds g, sig_MinReclaimBytes g, sig_WindowSeconds g,
        sig_EtaToNextRungSeconds g}. nonneg v"
    and lad: "list_all nonneg (BudgetSignal_rungs g)" "list_all nonneg (BudgetSignal_releases g)"
    and enum: "sig_Trend g = [] \<or> Trend_Valid (sig_Trend g)"
      "sig_LimitingResource g = [] \<or> LimitingResource_Valid (sig_LimitingResource g)"
      "sig_SharedWith g = [] \<or> sig_SharedWith g \<in> set Signals"
    by (auto simp: signal_wf_def ladder_ok_def SignalID_Valid_iff Signals_def)
  have "snd (pageCode pageTrendCodes (sig_Trend g) TrendUnknown)"
    using enum(1) trend_table.pageCode_ok_iff by (auto simp: Trend_Valid_def pageTrendCodes_def)
  moreover have "snd (pageCode pageLimitingResourceCodes (sig_LimitingResource g) ResourceUnknown)"
    using enum(2) resource_table.pageCode_ok_iff
    by (auto simp: LimitingResource_Valid_def pageLimitingResourceCodes_def)
  ultimately show ?thesis
    using ok opt lad SignalID_code_ok [OF enum(3)] unit_code [OF ok(1)]
    by (simp add: signalFields_def Some BudgetSignal_rungs_def BudgetSignal_releases_def
        i64Word_nonneg SignalID_Valid_def split: prod.splits)
qed (simp add: signalFields_def)

lemma carries_action:
  assumes "ps_AdmitReasonSignal s = [] \<or> ps_AdmitReasonSignal s \<in> set Signals"
    and "\<forall>t. deref (ps_EvictDeadline s) = Some t \<longrightarrow> \<not> Time_IsZero t"
    and "killmode_wf (ps_KillMode s)" "nonneg (rec_SafeAdditionalBytes (ps_Recommendation s))"
    and "rec_Basis (ps_Recommendation s) = [] \<or> rec_Basis (ps_Recommendation s) \<in> set Signals"
  shows "carries s actionFields"
proof -
  let ?k = "ps_KillMode s"
  have k: "km_Mode ?k = [] \<or> KillModeName_Valid (km_Mode ?k)"
    "km_Reason ?k = [] \<or> KillModeReason_Valid (km_Reason ?k)" "0 \<le> sint (km_ArmingEpisodes ?k)"
    using assms(3) unfolding killmode_wf_def by (auto simp: zeroKillMode_def)
  have "snd (pageCode pageKillModeCodes (km_Mode ?k) [])"
    using k(1) unfolding killmode_table.pageCode_ok_iff by (auto simp: KillModeName_Valid_def pageKillModeCodes_def)
  moreover have "snd (pageCode pageKillModeReasonCodes (km_Reason ?k) KillReasonUnknown)"
    using k(2) unfolding killreason_table.pageCode_ok_iff
    by (auto simp: KillModeReason_Valid_def pageKillModeReasonCodes_def)
  ultimately show ?thesis
    using assms(2,4) k(3) SignalID_code_ok [OF assms(1)] SignalID_code_ok [OF assms(5)]
    by (simp add: actionFields_def i64Word_nonneg split: option.split)
qed

lemma band_code: "b \<in> set Bands \<Longrightarrow> case pageCode pageBandCodes b [] of (c, ok) \<Rightarrow> ok \<and> c \<noteq> 0"
  by (auto simp: Bands_def pageCode_def pageBandCodes_def vocab_defs)

lemma carries_counters:
  assumes "\<forall>c \<in> set (ps_Counters s). pc_Band c \<in> set Bands \<and> 0 \<le> sint (pc_EvictionsTotal c) \<and>
      0 \<le> sint (pc_OOMKillsTotal c) \<and> 0 \<le> sint (pc_KernelKillsTotal c) \<and> 0 \<le> sint (pc_RestartsTotal c) \<and>
      0 \<le> sint (pc_MemHighEventsTotal c) \<and> 0 \<le> sint (pc_Tier1RefusedTotal c)"
  shows "carries s (counterFields i)"
proof (cases "slotCounters i s")
  case (Some c)
  then have "c \<in> set (ps_Counters s)" by (auto simp: slotCounters_def split: if_splits)
  with assms band_code [of "pc_Band c"] Some show ?thesis
    by (simp add: counterFields_def split: prod.splits)
qed (simp add: counterFields_def)

lemma valid_observation_carries:
  assumes "observation_wf ob"
  shows "carries (NewPageSnapshot name period ob) pageFieldSpecs"
proof -
  let ?s = "NewPageSnapshot name period ob"
  have h: "header_wf ob" and b: "body_wf ob" using assms by (simp_all add: observation_wf_def)
  have "carries ?s identityFields" "carries ?s capacityFields" "carries ?s minor1Fields"
    using h b by (auto intro!: carries_identity simp: carries_capacity NewPageSnapshot_def header_wf_def
        body_wf_def Platform_Valid_def)
  moreover have "carries ?s darwinFields" "carries ?s psiFields" "carries ?s eventFields"
    using h assms
    by (auto intro!: carries_darwin carries_psi carries_events
        simp: NewPageSnapshot_def header_wf_def observation_wf_def)
  moreover have "carries ?s (signalFields i)" for i
    using b by (intro carries_signal) (simp add: NewPageSnapshot_def body_wf_def)
  moreover have "carries ?s (counterFields i)" for i
    using b by (intro carries_counters) (auto simp: NewPageSnapshot_def body_wf_def counters_wf_def)
  moreover have "carries ?s actionFields"
    using h b by (intro carries_action) (auto simp: NewPageSnapshot_def header_wf_def body_wf_def)
  ultimately show ?thesis
    by (simp add: pageFieldSpecs_def minor0Fields_def carries_concat carries_header)
qed

lemma valid_observation_checks:
  assumes "observation_wf ob" "name \<noteq> []" "length name \<le> 253" "0 < sint period"
  shows "checkPageSnapshot (NewPageSnapshot name period ob) = None"
proof -
  have "length (els (obs_Counters ob)) \<le> length Bands"
    using assms(1) by (intro distinct_bands_bound) (simp_all add: observation_wf_def body_wf_def)
  then have "length (els (obs_Counters ob)) \<le> 3" by (simp add: Bands_def)
  moreover have "PlatformDarwin \<noteq> PlatformLinux" by (simp add: vocab_defs)
  ultimately show ?thesis
    using assms
    by (auto simp: checkPageSnapshot_def NewPageSnapshot_def observation_wf_def header_wf_def body_wf_def
        const_defs Platform_Valid_def)
qed

section \<open>Facts about the layout\<close>

lemma pageLayout_cases:
  assumes "f \<in> set pageLayout"
  shows "pf_name f = ''seq'' \<and> pf_offset f = 64 \<and> pf_size f = 8 \<or>
    pf_name f = ''notifyEpoch'' \<and> pf_offset f = 128 \<and> pf_size f = 8 \<or>
    pf_offset f + pf_size f \<le> 20 \<or> 192 \<le> pf_offset f"
proof -
  have "488 \<le> pf_offset f" if "f \<in> set (fst (layout_from 488 wordFields))"
    using that layout_from_laid_out [of 488 wordFields] by (cases "layout_from 488 wordFields") (auto simp: laid_out_def)
  moreover have "2312 \<le> pf_offset f" if "f \<in> set (fst (layout_from 2312 minor1Fields))"
    using that layout_from_laid_out [of 2312 minor1Fields] by (cases "layout_from 2312 minor1Fields") (auto simp: laid_out_def)
  moreover have "f \<in> set (map2 (\<lambda>f at. f\<lparr>pf_offset := at\<rparr>) identityFields [192, 200, 208, 216, 224, 232]) \<Longrightarrow>
      192 \<le> pf_offset f"
    by (auto simp: identityFields_def)
  moreover have "f \<in> set (map2 (\<lambda>f at. f\<lparr>pf_offset := at\<rparr>) headerFields [0, 8, 10, 12, 16, 64, 128]) \<Longrightarrow>
      pf_name f = ''seq'' \<and> pf_offset f = 64 \<and> pf_size f = 8 \<or>
      pf_name f = ''notifyEpoch'' \<and> pf_offset f = 128 \<and> pf_size f = 8 \<or>
      pf_offset f + pf_size f \<le> 20"
    by (auto simp: headerFields_def add_field_def PageMagic_def)
  ultimately show ?thesis using assms unfolding pageLayout_split set_append Un_iff by linarith
qed

lemma descriptor_append: "descriptor (fs @ gs) = descriptor fs @ concat (map layoutLine gs)"
  by (simp add: descriptor_def)

text \<open>Fields by group, for reading particular words back.\<close>

lemma in_specs:
  "f \<in> set identityFields \<Longrightarrow> f \<in> set pageFieldSpecs"
  "f \<in> set darwinFields \<Longrightarrow> f \<in> set pageFieldSpecs"
  "f \<in> set actionFields \<Longrightarrow> f \<in> set pageFieldSpecs"
  "i < 8 \<Longrightarrow> f \<in> set (signalFields i) \<Longrightarrow> f \<in> set pageFieldSpecs"
  by (auto simp: pageFieldSpecs_def minor0Fields_def const_defs)

text \<open>Two snapshots encoded into the same page agree on every word.\<close>

lemma same_page_same_word:
  assumes "EncodePage dst s = Inr p" "EncodePage dst' s' = Inr p" "f \<in> set pageFieldSpecs"
    and "pf_get f = Some get" "pf_kind f \<in> {kindU64, kindI64}"
  shows "fst (get s) = fst (get s')" "snd (get s)" "snd (get s')"
proof -
  obtain g where g: "g \<in> set pageLayout" "pf_get g = pf_get f" "pf_kind g = pf_kind f"
    by (rule spec_in_layout [OF assms(3)])
  have get: "pf_get g = Some get" "pf_kind g \<in> {kindU64, kindI64}" using g assms(4,5) by simp_all
  from EncodePage_word [OF assms(1) g(1) get] EncodePage_word [OF assms(2) g(1) get]
  show "fst (get s) = fst (get s')" "snd (get s)" "snd (get s')" by simp_all
qed

lemma i64Word_inj: "fst (i64Word p) = fst (i64Word q) \<Longrightarrow> snd (i64Word p) \<Longrightarrow> snd (i64Word q) \<Longrightarrow> deref p = deref q"
proof -
  have "pageAbsentWord = PageAbsent" by (simp add: pageAbsentWord_def PageAbsent_def)
  then show "fst (i64Word p) = fst (i64Word q) \<Longrightarrow> snd (i64Word p) \<Longrightarrow> snd (i64Word q) \<Longrightarrow> deref p = deref q"
    by (cases p; cases q) (auto simp: i64Word_def)
qed

lemma SignalID_PageCode_inj:
  assumes "SignalID_PageCode g = SignalID_PageCode h" "SignalID_PageCode h \<noteq> 0"
  shows "g = h"
proof -
  have "pageCode signalCodes v [] = (SignalID_PageCode v, True)" if "SignalID_PageCode v \<noteq> 0" for v
    using that signal_table.empty_free
    by (auto simp: SignalID_PageCode_def pageCode_def dest: index_from_SomeD split: option.splits if_splits)
  with assms show ?thesis by (auto intro: signal_table.pageCode_inj)
qed

lemma same_page_signal:
  assumes "EncodePage dst s = Inr p" "EncodePage dst' s' = Inr p" "i < 8"
  shows "map_option sig_ID (slotSignal i s) = map_option sig_ID (slotSignal i s')"
proof -
  define get where "get = (\<lambda>s. case slotSignal i s of
      Some g \<Rightarrow> (SignalID_PageCode (sig_ID g), SignalID_PageCode (sig_ID g) \<noteq> 0) | None \<Rightarrow> (0, True))"
  have "slotCode i ''id'' ''signal'' (\<lambda>g. (SignalID_PageCode (sig_ID g), SignalID_PageCode (sig_ID g) \<noteq> 0)) \<in> set pageFieldSpecs"
    by (rule in_specs(4) [OF assms(3)]) (simp add: signalFields_def)
  from same_page_same_word [OF assms(1,2) this, of get]
  have "fst (get s) = fst (get s')" "snd (get s)" "snd (get s')"
    by (simp_all add: slotCode_def f_code_def add_field_def get_def)
  then show ?thesis
    by (auto simp: get_def split: option.splits intro: SignalID_PageCode_inj)
qed

lemma slot_names:
  assumes "get \<in> {sig_Value, sig_WarnThreshold, sig_AdmitStopThreshold, sig_CriticalThreshold,
      sig_EvictSoftThreshold, sig_EvictHardThreshold, sig_WarnRelease, sig_AdmitStopRelease,
      sig_CriticalRelease, sig_EvictSoftRelease, sig_EvictHardRelease}"
  obtains name where "slotI64 i name get \<in> set (signalFields i)"
  using assms by (auto simp: signalFields_def)

lemma same_page_length:
  assumes "EncodePage dst s = Inr p" "EncodePage dst' s' = Inr p"
  shows "length (ps_Signals s) = length (ps_Signals s')"
proof -
  have small: "length (ps_Signals s) \<le> 8" "length (ps_Signals s') \<le> 8"
    using EncodePage_InrD(1) [OF assms(1)] EncodePage_InrD(1) [OF assms(2)]
    by (auto simp: checkPageSnapshot_def const_defs split: if_splits)
  have "(i < length (ps_Signals s)) = (i < length (ps_Signals s'))" if "i < 8" for i
    using same_page_signal [OF assms that] by (auto simp: slotSignal_def split: if_splits)
  with small show ?thesis by (meson le_less_trans nat_le_linear not_le order.strict_iff_order)
qed

lemma platform_codes:
  "fst (pageCode pagePlatformCodes PlatformDarwin []) = 1" "fst (pageCode pagePlatformCodes PlatformLinux []) = 2"
  by (simp_all add: pageCode_def pagePlatformCodes_def vocab_defs)

lemma same_page_identity:
  assumes "EncodePage dst s = Inr p" "EncodePage dst' s' = Inr p"
  shows "ps_Generation s = ps_Generation s'" "ps_WriterPeriodSeconds s = ps_WriterPeriodSeconds s'"
    "Time_Unix (ps_ObservedAt s) = Time_Unix (ps_ObservedAt s')" "ps_Platform s = ps_Platform s'"
    "length (ps_NodeName s) = length (ps_NodeName s')"
proof -
  have w: "fst (get s) = fst (get s') \<and> snd (get s) \<and> snd (get s')"
    if "f \<in> set identityFields" "pf_get f = Some get" "pf_kind f \<in> {kindU64, kindI64}" for f get
    using same_page_same_word [OF assms in_specs(1) [OF that(1)] that(2,3)] by blast
  have all: "\<forall>f \<in> set identityFields. pf_kind f \<in> {kindU64, kindI64} \<longrightarrow>
      (\<forall>get. pf_get f = Some get \<longrightarrow> fst (get s) = fst (get s') \<and> snd (get s) \<and> snd (get s'))"
    using w by blast
  then have ws: "ps_Generation s = ps_Generation s'" "ps_WriterPeriodSeconds s = ps_WriterPeriodSeconds s'"
    "Time_Unix (ps_ObservedAt s) = Time_Unix (ps_ObservedAt s')"
    "fst (pageCode pagePlatformCodes (ps_Platform s) []) = fst (pageCode pagePlatformCodes (ps_Platform s') [])"
    "(word_of_nat (length (ps_NodeName s)) :: uint64) = word_of_nat (length (ps_NodeName s'))"
    by (simp_all add: identityFields_def field_defs)
  show "ps_Generation s = ps_Generation s'" "ps_WriterPeriodSeconds s = ps_WriterPeriodSeconds s'"
    "Time_Unix (ps_ObservedAt s) = Time_Unix (ps_ObservedAt s')" by (rule ws)+
  have c: "Platform_Valid (ps_Platform x) \<and> length (ps_NodeName x) \<le> 253" if "x \<in> {s, s'}" for x
    using that EncodePage_InrD(1) [OF assms(1)] EncodePage_InrD(1) [OF assms(2)]
    by (auto simp: checkPageSnapshot_def const_defs split: if_splits)
  from c [of s] c [of s'] ws(4) show "ps_Platform s = ps_Platform s'"
    using platform_codes by (auto simp: Platform_Valid_def)
  have u: "unat (word_of_nat (length (ps_NodeName x)) :: uint64) = length (ps_NodeName x)" if "x \<in> {s, s'}" for x
    using c [OF that] by (simp add: unat_of_nat)
  show "length (ps_NodeName s) = length (ps_NodeName s')"
    using u [of s] u [of s'] unfolding ws(5) by simp
qed

section \<open>What a page tells of a snapshot\<close>

text \<open>The content of a snapshot without its pointers, read off the Go fields and not off the
  layout table: nil and a value, an unset enum of the open kind and its unknown value.\<close>

definition known_value :: "string \<Rightarrow> string \<Rightarrow> string option" where
  "known_value unknown v = (if v = '''' \<or> v = unknown then None else Some v)"

definition capacity_view :: "BudgetCapacity \<Rightarrow> int64 option list \<times> bool option" where
  "capacity_view c = (map (\<lambda>get. deref (get c))
     [cap_CPUCapacityMilli, cap_CPUSystemReserveMilli, cap_MemCapacityBytes, cap_MemSystemReserveBytes,
      cap_MemEvictionReserveBytes, cap_MemAllocatableBytes, cap_SwapTotalBytes, cap_SwapUsedBytes,
      cap_CPUPerformanceCores, cap_CPUEfficiencyCores, cap_GPUCount], deref (cap_GPUPresent c))"

definition darwin_view :: "DarwinSignals ptr \<Rightarrow> int64 option list" where
  "darwin_view p =
     map (\<lambda>get. Option.bind (deref p) (\<lambda>d. deref (get d)))
       [dw_VMPressureLevel, dw_MemorystatusLevelPermille, dw_SwapinsTotal, dw_SwapoutsTotal] @
     map (\<lambda>get. Option.bind (deref p) (\<lambda>d. Option.bind (deref (dw_Compressor d)) (\<lambda>c. deref (get c))))
       [dc_BytesUsed, dc_BytesStored, dc_SegmentLimitBytes]"

definition psi_view :: "PSILine ptr \<Rightarrow> int64 option list" where
  "psi_view p = map (\<lambda>get. Option.bind (deref p) (\<lambda>l. deref (get l))) [psi_Avg10Permille, psi_Avg60Permille, psi_TotalUs]"

definition resource_view :: "PSIResource option \<Rightarrow> int64 option list" where
  "resource_view r = (case r of None \<Rightarrow> replicate 6 None | Some x \<Rightarrow> psi_view (psi_Some x) @ psi_view (psi_Full x))"

definition linux_view :: "LinuxSignals ptr \<Rightarrow> int64 option list" where
  "linux_view p =
     concat (map (\<lambda>r. resource_view (Option.bind (deref p) (\<lambda>x. Option.bind (deref (lx_PSI x)) (\<lambda>q. deref (r q)))))
       [psi_CPU, psi_Memory, psi_IO]) @
     map (\<lambda>get. Option.bind (deref p) (\<lambda>x. Option.bind (deref (lx_MemoryEvents x)) (\<lambda>e. deref (get e))))
       [me_High, me_Max, me_OOM, me_OOMKill]"

definition signal_view ::
  "BudgetSignal \<Rightarrow> SignalID \<times> string \<times> int64 option list \<times> string option \<times> string option \<times> SignalID"
where
  "signal_view g = (sig_ID g, sig_Unit g, map (\<lambda>get. deref (get g))
     [sig_Value, sig_WarnThreshold, sig_AdmitStopThreshold, sig_CriticalThreshold, sig_EvictSoftThreshold,
      sig_EvictHardThreshold, sig_WarnRelease, sig_AdmitStopRelease, sig_CriticalRelease, sig_EvictSoftRelease,
      sig_EvictHardRelease, sig_GraceSeconds, sig_MinReclaimBytes, sig_WindowSeconds, sig_EtaToNextRungSeconds],
     known_value TrendUnknown (sig_Trend g), known_value ResourceUnknown (sig_LimitingResource g), sig_SharedWith g)"

definition killmode_view :: "KillMode \<Rightarrow> KillModeName \<times> bool \<times> int32 \<times> string option" where
  "killmode_view k = (km_Mode k, km_Armed k, km_ArmingEpisodes k, known_value KillReasonUnknown (km_Reason k))"

text \<open>The page shows a deadline at its absent word, 2^63 seconds before 1970, as no deadline.\<close>

definition deadline_view :: "Time ptr \<Rightarrow> int64 option" where
  "deadline_view p = (case deref p of None \<Rightarrow> None | Some t \<Rightarrow> if Time_Unix t = PageAbsent then None else Some (Time_Unix t))"

lemma known_value_closed: "known_value '''' v = known_value '''' w \<longleftrightarrow> v = w"
  by (auto simp: known_value_def)

context code_table
begin

lemma pageCode_agree:
  assumes "fst (pageCode table v unknown) = fst (pageCode table w unknown)"
    and "snd (pageCode table v unknown)" "snd (pageCode table w unknown)"
  shows "known_value unknown v = known_value unknown w"
proof -
  obtain c where c: "pageCode table v unknown = (c, True)" "pageCode table w unknown = (c, True)"
    using assms by (metis prod.collapse)
  from pageCode_value [OF c(1)] pageCode_value [OF c(2)] show ?thesis by (simp add: known_value_def)
qed

end

lemma deref_cases: "deref p = (case p of NilP \<Rightarrow> None | Ptr _ v \<Rightarrow> Some v)"
  by (cases p) simp_all

lemma getter_views:
  "deref (get_darwin get s) = Option.bind (deref (ps_Darwin s)) (\<lambda>d. deref (get d))"
  "deref (get_compressor get' s) =
     Option.bind (deref (ps_Darwin s)) (\<lambda>d. Option.bind (deref (dw_Compressor d)) (\<lambda>c. deref (get' c)))"
  "deref (get_events get'' s) =
     Option.bind (deref (ps_Linux s)) (\<lambda>x. Option.bind (deref (lx_MemoryEvents x)) (\<lambda>e. deref (get'' e)))"
  by (simp_all add: get_darwin_def get_compressor_def get_events_def deref_cases split: ptr.split)

lemma psi_getter_view:
  "deref (get_psi r l v s) =
     Option.bind (Option.bind (deref (ps_Linux s)) (\<lambda>x. Option.bind (deref (lx_PSI x)) (\<lambda>q. deref (r q))))
       (\<lambda>y. Option.bind (deref (l y)) (\<lambda>line. deref (v line)))"
  by (simp add: get_psi_def deref_cases split: ptr.split)

definition agree :: "pageGetter \<Rightarrow> PageSnapshot \<Rightarrow> PageSnapshot \<Rightarrow> bool" where
  "agree get s s' \<longleftrightarrow> fst (get s) = fst (get s') \<and> snd (get s) \<and> snd (get s')"

lemma same_page_agree:
  assumes "EncodePage dst s = Inr p" "EncodePage dst' s' = Inr p" "set fs \<subseteq> set pageFieldSpecs"
  shows "list_all (\<lambda>f. pf_kind f \<in> {kindU64, kindI64} \<longrightarrow> (\<forall>get. pf_get f = Some get \<longrightarrow> agree get s s')) fs"
  unfolding list_all_iff agree_def
  using same_page_same_word [OF assms(1,2)] assms(3) by blast

lemma agree_opt: "agree (\<lambda>s. i64Word (get s)) s s' \<longleftrightarrow> deref (get s) = deref (get s') \<and> snd (i64Word (get s))"
  using i64Word_inj [of "get s" "get s'"] by (auto simp: agree_def i64Word_def)

lemma groups_in_specs:
  "set capacityFields \<subseteq> set pageFieldSpecs" "set darwinFields \<subseteq> set pageFieldSpecs"
  "set psiFields \<subseteq> set pageFieldSpecs" "set eventFields \<subseteq> set pageFieldSpecs"
  "set actionFields \<subseteq> set pageFieldSpecs" "set minor1Fields \<subseteq> set pageFieldSpecs"
  "i < 8 \<Longrightarrow> set (signalFields i) \<subseteq> set pageFieldSpecs" "i < 3 \<Longrightarrow> set (counterFields i) \<subseteq> set pageFieldSpecs"
  by (auto simp: pageFieldSpecs_def minor0Fields_def const_defs)

lemmas same_page_fields = same_page_agree [OF _ _ groups_in_specs(1)] same_page_agree [OF _ _ groups_in_specs(2)]
  same_page_agree [OF _ _ groups_in_specs(3)] same_page_agree [OF _ _ groups_in_specs(4)]
  same_page_agree [OF _ _ groups_in_specs(5)] same_page_agree [OF _ _ groups_in_specs(6)]

lemma absent_not_bool: "pageAbsentWord \<noteq> 0" "pageAbsentWord \<noteq> 1"
  by (simp_all add: pageAbsentWord_def)

lemma same_page_capacity:
  assumes "EncodePage dst s = Inr p" "EncodePage dst' s' = Inr p"
  shows "capacity_view (ps_Capacity s) = capacity_view (ps_Capacity s')"
proof -
  have "agree (\<lambda>s. case deref (cap_GPUPresent (ps_Capacity s)) of
      None \<Rightarrow> (pageAbsentWord, True) | Some b \<Rightarrow> boolWord b) s s'"
    using same_page_fields(6) [OF assms] by (simp add: minor1Fields_def field_defs)
  then have "deref (cap_GPUPresent (ps_Capacity s)) = deref (cap_GPUPresent (ps_Capacity s'))"
    using absent_not_bool absent_not_bool [symmetric]
    by (simp add: agree_def boolWord_def split: option.splits if_splits)
  then show ?thesis
    using same_page_fields(1) [OF assms] same_page_fields(6) [OF assms]
    by (simp add: capacity_view_def capacityFields_def minor1Fields_def field_defs agree_opt)
qed

lemma same_page_darwin:
  assumes "EncodePage dst s = Inr p" "EncodePage dst' s' = Inr p"
  shows "ps_Level s = ps_Level s'" "darwin_view (ps_Darwin s) = darwin_view (ps_Darwin s')"
proof -
  note a = same_page_fields(2) [OF assms, unfolded darwinFields_def field_defs, simplified]
  from a have "known_value '''' (ps_Level s) = known_value '''' (ps_Level s')"
    by (intro level_table.pageCode_agree) (simp_all add: agree_def)
  then show "ps_Level s = ps_Level s'" by (simp add: known_value_closed)
  show "darwin_view (ps_Darwin s) = darwin_view (ps_Darwin s')"
    using a unfolding darwin_view_def getter_views [symmetric] by (simp add: agree_opt)
qed

lemma same_page_linux:
  assumes "EncodePage dst s = Inr p" "EncodePage dst' s' = Inr p"
  shows "linux_view (ps_Linux s) = linux_view (ps_Linux s')"
proof -
  have psi: "resource_view r = map (\<lambda>(l, v). Option.bind r (\<lambda>y. Option.bind (deref (l y)) (\<lambda>line. deref (v line))))
     [(psi_Some, psi_Avg10Permille), (psi_Some, psi_Avg60Permille), (psi_Some, psi_TotalUs),
      (psi_Full, psi_Avg10Permille), (psi_Full, psi_Avg60Permille), (psi_Full, psi_TotalUs)]" for r
    by (cases r) (simp_all add: resource_view_def psi_view_def numeral_eq_Suc)
  have "deref (get_psi r l v s) = deref (get_psi r l v s')"
    if "r \<in> {psi_CPU, psi_Memory, psi_IO}" "l \<in> {psi_Some, psi_Full}"
      "v \<in> {psi_Avg10Permille, psi_Avg60Permille, psi_TotalUs}" for r l v
    using that same_page_fields(3) [OF assms] by (auto simp: psiFields_def field_defs Let_def agree_opt)
  moreover have "deref (get_events get s) = deref (get_events get s')" if "get \<in> {me_High, me_Max, me_OOM, me_OOMKill}" for get
    using that same_page_fields(4) [OF assms] by (auto simp: eventFields_def field_defs Let_def agree_opt)
  ultimately show ?thesis
    unfolding linux_view_def psi list.map concat.simps prod.case psi_getter_view [symmetric] getter_views [symmetric]
    by simp
qed

lemma SignalID_code_agree:
  assumes "SignalID_PageCode g = SignalID_PageCode h"
    and "g = '''' \<or> SignalID_PageCode g \<noteq> 0" "h = '''' \<or> SignalID_PageCode h \<noteq> 0"
  shows "g = h"
proof -
  have "SignalID_PageCode '''' = 0" by (simp add: SignalID_PageCode_def signalCodes_def vocab_defs)
  with assms show ?thesis using SignalID_PageCode_inj [of g h] by auto
qed

lemma signed_inj: "(signed v :: int64) = signed w \<Longrightarrow> v = w" for v w :: int32
proof -
  assume eq: "(signed v :: int64) = signed w"
  have "sint (signed x :: int64) = sint x" for x :: int32
    by (rule sint_up_scast) (simp add: is_up)
  from this [of v] this [of w] eq have "sint v = sint w" by simp
  then show "v = w" by (rule signed_word_eqI)
qed

lemma same_page_action:
  assumes "EncodePage dst s = Inr p" "EncodePage dst' s' = Inr p"
  shows "ps_Admit s = ps_Admit s'" "ps_AdmitReasonSignal s = ps_AdmitReasonSignal s'"
    "deadline_view (ps_EvictDeadline s) = deadline_view (ps_EvictDeadline s')"
    "killmode_view (ps_KillMode s) = killmode_view (ps_KillMode s')"
    "deref (rec_SafeAdditionalBytes (ps_Recommendation s)) = deref (rec_SafeAdditionalBytes (ps_Recommendation s'))"
    "rec_Basis (ps_Recommendation s) = rec_Basis (ps_Recommendation s')"
proof -
  note a = same_page_fields(5) [OF assms, unfolded actionFields_def field_defs, simplified]
  show "ps_Admit s = ps_Admit s'" using a by (auto simp: agree_def boolWord_def split: if_splits)
  show "ps_AdmitReasonSignal s = ps_AdmitReasonSignal s'" "rec_Basis (ps_Recommendation s) = rec_Basis (ps_Recommendation s')"
    using a by (auto simp: agree_def intro!: SignalID_code_agree)
  show "deref (rec_SafeAdditionalBytes (ps_Recommendation s)) = deref (rec_SafeAdditionalBytes (ps_Recommendation s'))"
    using a by (simp add: agree_opt)
  have "pageAbsentWord = PageAbsent" by (simp add: pageAbsentWord_def PageAbsent_def)
  then show "deadline_view (ps_EvictDeadline s) = deadline_view (ps_EvictDeadline s')"
    using a by (auto simp: agree_def deadline_view_def split: option.splits)
  have "known_value '''' (km_Mode (ps_KillMode s)) = known_value '''' (km_Mode (ps_KillMode s'))"
    using a by (intro killmode_table.pageCode_agree) (simp_all add: agree_def)
  moreover have "known_value KillReasonUnknown (km_Reason (ps_KillMode s)) = known_value KillReasonUnknown (km_Reason (ps_KillMode s'))"
    using a by (intro killreason_table.pageCode_agree) (simp_all add: agree_def)
  moreover have "km_Armed (ps_KillMode s) = km_Armed (ps_KillMode s')"
    using a by (auto simp: agree_def boolWord_def split: if_splits)
  moreover have "km_ArmingEpisodes (ps_KillMode s) = km_ArmingEpisodes (ps_KillMode s')"
    using a by (intro signed_inj) (simp add: agree_def)
  ultimately show "killmode_view (ps_KillMode s) = killmode_view (ps_KillMode s')"
    by (simp add: killmode_view_def known_value_closed)
qed

text \<open>A slot that both snapshots fill.\<close>

lemma agree_slot:
  assumes "slotSignal i s = Some g" "slotSignal i s' = Some g'"
  shows "agree (\<lambda>s. case slotSignal i s of Some g \<Rightarrow> get g | None \<Rightarrow> (0, True)) s s' \<longleftrightarrow>
    fst (get g) = fst (get g') \<and> snd (get g) \<and> snd (get g')"
  using assms by (simp add: agree_def)

lemma agree_slot_opt:
  assumes "slotSignal i s = Some g" "slotSignal i s' = Some g'"
  shows "agree (\<lambda>s. case slotSignal i s of Some g \<Rightarrow> i64Word (get g) | None \<Rightarrow> (0, True)) s s' \<Longrightarrow>
    deref (get g) = deref (get g')"
  unfolding agree_slot [OF assms] by (blast intro: i64Word_inj)

lemma same_page_slot:
  assumes "EncodePage dst s = Inr p" "EncodePage dst' s' = Inr p" "i < 8"
    and slot: "slotSignal i s = Some g" "slotSignal i s' = Some g'"
  shows "signal_view g = signal_view g'"
proof -
  note a = same_page_agree [OF assms(1,2) groups_in_specs(7) [OF assms(3)], unfolded signalFields_def field_defs, simplified]
  have id: "sig_ID g = sig_ID g'" using same_page_signal [OF assms(1,2,3)] slot by simp
  have "agree (\<lambda>s. case slotSignal i s of
      Some g \<Rightarrow> (SignalID_PageCode (sig_SharedWith g), sig_SharedWith g = '''' \<or> SignalID_PageCode (sig_SharedWith g) \<noteq> 0)
    | None \<Rightarrow> (0, True)) s s'"
    using a by simp
  then have shared: "sig_SharedWith g = sig_SharedWith g'"
    unfolding agree_slot [OF slot] by (auto intro: SignalID_code_agree)
  have "agree (\<lambda>s. case slotSignal i s of
      Some g \<Rightarrow> (case pageCode pageUnitCodes (sig_Unit g) '''' of
        (c, ok) \<Rightarrow> (c, ok \<and> c \<noteq> 0 \<and> sig_Unit g = SignalID_Unit (sig_ID g)))
    | None \<Rightarrow> (0, True)) s s'"
    using a by simp
  then have unit: "sig_Unit g = sig_Unit g'"
    unfolding agree_slot [OF slot] using id by (simp split: prod.splits)
  have "known_value TrendUnknown (sig_Trend g) = known_value TrendUnknown (sig_Trend g')"
    using a slot by (intro trend_table.pageCode_agree) (simp_all add: agree_def)
  moreover have "known_value ResourceUnknown (sig_LimitingResource g) = known_value ResourceUnknown (sig_LimitingResource g')"
    using a slot by (intro resource_table.pageCode_agree) (simp_all add: agree_def)
  moreover have "map (\<lambda>get. deref (get g)) fs = map (\<lambda>get. deref (get g')) fs"
    if "fs = [sig_Value, sig_WarnThreshold, sig_AdmitStopThreshold, sig_CriticalThreshold, sig_EvictSoftThreshold,
      sig_EvictHardThreshold, sig_WarnRelease, sig_AdmitStopRelease, sig_CriticalRelease, sig_EvictSoftRelease,
      sig_EvictHardRelease, sig_GraceSeconds, sig_MinReclaimBytes, sig_WindowSeconds, sig_EtaToNextRungSeconds]" for fs
    unfolding that using a by (auto dest!: agree_slot_opt [OF slot])
  ultimately show ?thesis using id shared unit by (simp add: signal_view_def)
qed

lemma same_page_signals:
  assumes "EncodePage dst s = Inr p" "EncodePage dst' s' = Inr p"
  shows "map signal_view (ps_Signals s) = map signal_view (ps_Signals s')"
proof (rule nth_equalityI)
  show len: "length (map signal_view (ps_Signals s)) = length (map signal_view (ps_Signals s'))"
    using same_page_length [OF assms] by simp
  fix i assume i: "i < length (map signal_view (ps_Signals s))"
  have "i < 8" using i EncodePage_InrD(1) [OF assms(1)]
    by (auto simp: checkPageSnapshot_def const_defs split: if_splits)
  moreover have "slotSignal i s = Some (ps_Signals s ! i)" "slotSignal i s' = Some (ps_Signals s' ! i)"
    using i len by (simp_all add: slotSignal_def)
  ultimately have "signal_view (ps_Signals s ! i) = signal_view (ps_Signals s' ! i)" by (rule same_page_slot [OF assms])
  then show "map signal_view (ps_Signals s) ! i = map signal_view (ps_Signals s') ! i" using i len by simp
qed

lemma same_page_counters_slot:
  assumes "EncodePage dst s = Inr p" "EncodePage dst' s' = Inr p" "i < 3"
  shows "slotCounters i s = slotCounters i s'"
proof -
  note a = same_page_agree [OF assms(1,2) groups_in_specs(8) [OF assms(3)], unfolded counterFields_def field_defs, simplified]
  let ?band = "\<lambda>c :: PageBandCounters. case pageCode pageBandCodes (pc_Band c) '''' of (k, ok) \<Rightarrow> (k, ok \<and> k \<noteq> 0)"
  have band: "agree (\<lambda>s. case slotCounters i s of Some c \<Rightarrow> ?band c | None \<Rightarrow> (0, True)) s s'"
    using a by simp
  then have both: "slotCounters i s = None \<longleftrightarrow> slotCounters i s' = None"
    by (auto simp: agree_def split: option.splits prod.splits)
  show ?thesis
  proof (cases "slotCounters i s")
    case None
    with both show ?thesis by simp
  next
    case (Some c)
    with both obtain c' where c': "slotCounters i s' = Some c'" by (cases "slotCounters i s'") auto
    from band Some c' have "fst (?band c) = fst (?band c') \<and> snd (?band c) \<and> snd (?band c')"
      by (simp add: agree_def)
    then have "known_value '''' (pc_Band c) = known_value '''' (pc_Band c')"
      by (intro band_table.pageCode_agree) (auto split: prod.splits)
    moreover have "pc_EvictionsTotal c = pc_EvictionsTotal c'" "pc_OOMKillsTotal c = pc_OOMKillsTotal c'"
      "pc_KernelKillsTotal c = pc_KernelKillsTotal c'" "pc_RestartsTotal c = pc_RestartsTotal c'"
      "pc_MemHighEventsTotal c = pc_MemHighEventsTotal c'" "pc_Tier1RefusedTotal c = pc_Tier1RefusedTotal c'"
      using a Some c' by (simp_all add: agree_def)
    ultimately show ?thesis using Some c' by (simp add: known_value_closed)
  qed
qed

lemma same_page_counters:
  assumes "EncodePage dst s = Inr p" "EncodePage dst' s' = Inr p"
  shows "ps_Counters s = ps_Counters s'"
proof -
  have small: "length (ps_Counters s) \<le> 3" "length (ps_Counters s') \<le> 3"
    using EncodePage_InrD(1) [OF assms(1)] EncodePage_InrD(1) [OF assms(2)]
    by (auto simp: checkPageSnapshot_def const_defs split: if_splits)
  have slot: "slotCounters i s = slotCounters i s'" for i
    using same_page_counters_slot [OF assms] small by (cases "i < 3") (auto simp: slotCounters_def)
  have len: "length (ps_Counters s) = length (ps_Counters s')"
    using slot [of "length (ps_Counters s)"] slot [of "length (ps_Counters s')"]
    by (auto simp: slotCounters_def split: if_splits)
  show ?thesis
  proof (rule nth_equalityI [OF len])
    fix i assume "i < length (ps_Counters s)"
    then show "ps_Counters s ! i = ps_Counters s' ! i" using slot [of i] len by (simp add: slotCounters_def)
  qed
qed

section \<open>A sample page\<close>

lemma sample_page: "\<exists>p. EncodePage (replicate PageSize 0) (NewPageSnapshot ''node-a'' 10 sample_observation) = Inr p"
  unfolding EncodePage_ok_iff
  using valid_observation_checks [OF sample_observation_wf] valid_observation_carries [OF sample_observation_wf]
  by simp

lemma nodeName_field:
  obtains f where "f \<in> set pageLayout" "pf_name f = ''nodeName''" "pf_offset f = 232" "pf_size f = 256"
proof -
  have "last identityFields\<lparr>pf_offset := 232\<rparr> \<in> set pageLayout"
    by (simp add: pageLayout_split identityFields_def)
  then show ?thesis by (rule that) (simp_all add: identityFields_def add_field_def const_defs)
qed

lemma EncodePage_name:
  assumes "EncodePage dst s = Inr p"
  shows "get_bytes 232 (length (ps_NodeName s)) p = str_bytes (ps_NodeName s)"
proof -
  obtain f where f: "f \<in> set pageLayout" "pf_name f = ''nodeName''" "pf_offset f = 232" "pf_size f = 256"
    by (rule nodeName_field)
  have "length (ps_NodeName s) \<le> 253" using EncodePage_InrD(1) [OF assms]
    by (auto simp: checkPageSnapshot_def const_defs split: if_splits)
  with f EncodePage_read [OF assms f(1)] show ?thesis by (simp add: field_bytes_def str_bytes_def)
qed

section \<open>Properties\<close>

text \<open>(C32) The layout of the page: the fields are in order, apart, each aligned to its kind and
  inside the body, which ends within \<open>PageBodyLimit\<close> and the page; \<open>seq\<close> and
  \<open>notifyEpoch\<close> are at 64 and 128 and every other field is outside their 64-byte lines; the
  body starts with \<open>generation\<close> at 192.\<close>

theorem page_layout_abi:
  "sorted_wrt apart pageLayout \<and>
   (\<forall>f \<in> set pageLayout. field_align f dvd pf_offset f \<and>
      pf_offset f + pf_size f \<le> PageHeaderSize + pageBodySize) \<and>
   PageHeaderSize + pageBodySize \<le> PageBodyLimit \<and> PageBodyLimit \<le> PageSize \<and>
   pageOffset ''seq'' = Some 64 \<and> pageOffset ''notifyEpoch'' = Some 128 \<and>
   pageOffset ''generation'' = Some PageHeaderSize \<and>
   (\<forall>f \<in> set pageLayout. pf_name f \<notin> {''seq'', ''notifyEpoch''} \<longrightarrow>
      pf_offset f + pf_size f \<le> 64 \<or> 192 \<le> pf_offset f)"
proof -
  have "pf_offset f + pf_size f \<le> 64 \<or> 192 \<le> pf_offset f"
    if "f \<in> set pageLayout" "pf_name f \<notin> {''seq'', ''notifyEpoch''}" for f
    using pageLayout_cases [OF that(1)] that(2) by auto
  then show ?thesis
    using pageLayout_laid_out header_offsets
    by (simp add: laid_out_def pageBodyEnd_eq pageBodySize_eq const_defs)
qed

theorem page_layout_abi_witness:
  "\<exists>f. pf_name f = ''nodeName'' \<and> f \<in> set pageLayout \<and> field_align f dvd pf_offset f \<and>
     pf_offset f + pf_size f \<le> PageHeaderSize + pageBodySize"
proof -
  obtain f where "f \<in> set pageLayout" "pf_name f = ''nodeName''" by (rule nodeName_field)
  with page_layout_abi show ?thesis by blast
qed

text \<open>A minor revision only appends: the descriptor of the layout without the fields of
  minor 1 is a prefix of the descriptor the package publishes, so no offset, size or name of
  minor 0 moved.\<close>

theorem page_minor_appends:
  "\<exists>new. PageLayout = descriptor (fst (buildPageLayout minor0Fields)) @ new \<and>
     length (fst (buildPageLayout minor0Fields)) + length minor1Fields = length pageLayout"
proof -
  obtain old stop where old: "layout_from 0 minor0Fields = (old, stop)" by fastforce
  obtain new stop' where new: "layout_from stop minor1Fields = (new, stop')" by fastforce
  have "pageLayout = old @ new"
    by (simp add: pageLayout_def buildPageLayout_def pageFieldSpecs_def layout_from_append old new)
  moreover have "length new = length minor1Fields"
    using layout_from_same [OF new] by simp
  ultimately show ?thesis
    unfolding PageLayout_def buildPageLayout_def old by (metis descriptor_append fst_conv length_append)
qed

text \<open>(C23) What \<open>EncodePage\<close> writes reads back: every u64 and i64 word at its field's offset is
  the getter's value, which the getter accepted, the node name is in its bytes, and bytes
  past the page are as they were.\<close>

theorem EncodePage_reads_back:
  assumes "EncodePage dst s = Inr p"
  shows "length p = length dst \<and> drop PageSize p = drop PageSize dst \<and>
    get_bytes 0 (length PageMagic) p = str_bytes PageMagic \<and>
    get_bytes 232 (length (ps_NodeName s)) p = str_bytes (ps_NodeName s) \<and>
    (\<forall>f get. f \<in> set pageLayout \<and> pf_get f = Some get \<and> pf_kind f \<in> {kindU64, kindI64} \<longrightarrow>
       get s = (le_word (get_bytes (pf_offset f) 8 p), True))"
proof -
  have "hd headerFields\<lparr>pf_offset := 0\<rparr> \<in> set pageLayout"
    by (simp add: pageLayout_split headerFields_def)
  from EncodePage_read [OF assms this] have "get_bytes 0 (length PageMagic) p = str_bytes PageMagic"
    by (simp add: field_bytes_def headerFields_def add_field_def str_bytes_def)
  moreover have "length p = length dst" "drop PageSize p = drop PageSize dst"
    using EncodePage_InrD(2,3) [OF assms] by (simp_all add: length_page)
  moreover note EncodePage_name [OF assms] EncodePage_word [OF assms]
  ultimately show ?thesis by (auto simp: prod_eq_iff)
qed

theorem EncodePage_reads_back_witness:
  "\<exists>p. EncodePage (replicate PageSize 0) (NewPageSnapshot ''node-a'' 10 sample_observation) = Inr p \<and>
     get_bytes 232 (length ''node-a'') p = str_bytes ''node-a''"
proof -
  obtain p where p: "EncodePage (replicate PageSize 0) (NewPageSnapshot ''node-a'' 10 sample_observation) = Inr p"
    using sample_page by blast
  have name: "ps_NodeName (NewPageSnapshot ''node-a'' 10 sample_observation) = ''node-a''"
    by (simp add: NewPageSnapshot_def)
  from EncodePage_reads_back [OF p] p show ?thesis unfolding name by blast
qed

text \<open>(C25) A page determines what a reader acts on: two snapshots that encode to the same page
  have the same generation, period, node name, observation second, platform and level; the same
  capacity, macOS block and Linux block, field by field, absent where absent; the same signals in
  the same slots with every value, threshold, release, duration and shared signal; the same
  admission with its reason, evict deadline to the second, kill mode and recommendation; and the
  same counters. The page does not tell an unset trend, limiting resource or kill reason from
  the unknown value, nor a deadline at its absent word from none.\<close>

theorem page_determines_snapshot:
  assumes "EncodePage dst s = Inr p" "EncodePage dst' s' = Inr p"
  shows "ps_Generation s = ps_Generation s' \<and> ps_WriterPeriodSeconds s = ps_WriterPeriodSeconds s' \<and>
    Time_Unix (ps_ObservedAt s) = Time_Unix (ps_ObservedAt s') \<and> ps_Platform s = ps_Platform s' \<and>
    ps_NodeName s = ps_NodeName s' \<and>
    capacity_view (ps_Capacity s) = capacity_view (ps_Capacity s') \<and> ps_Level s = ps_Level s' \<and>
    darwin_view (ps_Darwin s) = darwin_view (ps_Darwin s') \<and> linux_view (ps_Linux s) = linux_view (ps_Linux s') \<and>
    map signal_view (ps_Signals s) = map signal_view (ps_Signals s') \<and>
    ps_Admit s = ps_Admit s' \<and> ps_AdmitReasonSignal s = ps_AdmitReasonSignal s' \<and>
    deadline_view (ps_EvictDeadline s) = deadline_view (ps_EvictDeadline s') \<and>
    killmode_view (ps_KillMode s) = killmode_view (ps_KillMode s') \<and>
    deref (rec_SafeAdditionalBytes (ps_Recommendation s)) = deref (rec_SafeAdditionalBytes (ps_Recommendation s')) \<and>
    rec_Basis (ps_Recommendation s) = rec_Basis (ps_Recommendation s') \<and>
    ps_Counters s = ps_Counters s'"
proof -
  note same = same_page_identity [OF assms]
  have "str_bytes (ps_NodeName s) = str_bytes (ps_NodeName s')"
    using EncodePage_name [OF assms(1)] EncodePage_name [OF assms(2)] by (simp add: same(5))
  then have "ps_NodeName s = ps_NodeName s'" by (rule str_bytes_inj)
  with same same_page_capacity [OF assms] same_page_darwin [OF assms] same_page_linux [OF assms]
    same_page_signals [OF assms] same_page_action [OF assms] same_page_counters [OF assms]
  show ?thesis by blast
qed

theorem page_determines_snapshot_witness:
  "\<exists>p. EncodePage (replicate PageSize 0) (NewPageSnapshot ''node-a'' 10 sample_observation) = Inr p \<and>
     (\<nexists>dst. EncodePage dst (NewPageSnapshot ''node-b'' 10 sample_observation) = Inr p) \<and>
     (\<nexists>dst. EncodePage dst (NewPageSnapshot ''node-a'' 10 (sample_observation\<lparr>obs_Admit := False\<rparr>)) = Inr p)"
proof -
  obtain p where p: "EncodePage (replicate PageSize 0) (NewPageSnapshot ''node-a'' 10 sample_observation) = Inr p"
    using sample_page by blast
  have name: "ps_NodeName (NewPageSnapshot n 10 sample_observation) = n" for n
    by (simp add: NewPageSnapshot_def)
  have "EncodePage dst (NewPageSnapshot ''node-b'' 10 sample_observation) \<noteq> Inr p" for dst
    using page_determines_snapshot [OF p, of dst "NewPageSnapshot ''node-b'' 10 sample_observation"]
    unfolding name by auto
  moreover have "EncodePage dst (NewPageSnapshot ''node-a'' 10 (sample_observation\<lparr>obs_Admit := False\<rparr>)) \<noteq> Inr p" for dst
    using page_determines_snapshot [OF p, of dst "NewPageSnapshot ''node-a'' 10 (sample_observation\<lparr>obs_Admit := False\<rparr>)"]
    by (auto simp: NewPageSnapshot_def sample_observation_def)
  ultimately show ?thesis using p by blast
qed

text \<open>(C24) Whatever \<open>NodeBudgetObservation.Validate\<close> accepts has a page: with a node name of 1 to
  253 bytes, a positive period and a buffer of a page, \<open>EncodePage\<close> of the \<open>NewPageSnapshot\<close>
  succeeds.\<close>

theorem valid_observation_encodes:
  assumes "NodeBudgetObservation_Validate ob = None"
    and "name \<noteq> ''''" "length name \<le> MaxPageNodeNameBytes" "0 < sint period" "PageSize \<le> length dst"
  shows "\<exists>p. EncodePage dst (NewPageSnapshot name period ob) = Inr p"
proof -
  have wf: "observation_wf ob" using assms(1)
    by (simp add: NodeBudgetObservation_Validate_def NodeBudgetObservation_validate_iff)
  with assms(2-5) show ?thesis unfolding EncodePage_ok_iff
    by (simp add: valid_observation_checks valid_observation_carries const_defs)
qed

theorem valid_observation_encodes_witness:
  "\<exists>p. EncodePage (replicate 4096 1) (NewPageSnapshot ''node-a'' 10 sample_observation) = Inr p"
  by (rule valid_observation_encodes)
    (simp_all add: NodeBudgetObservation_Validate_def NodeBudgetObservation_validate_iff
      sample_observation_wf const_defs)

text \<open>Every way \<open>EncodePage\<close> ends: a short buffer, then a snapshot \<open>checkPageSnapshot\<close> refuses,
  then the first field in layout order whose getter refuses the value; otherwise the page.
  The getter of a field without one is never called.\<close>

theorem EncodePage_outcomes:
  "EncodePage dst s =
     (if length dst < PageSize then Inl (ErrPageBuffer (length dst))
      else case checkPageSnapshot s of
          Some e \<Rightarrow> Inl e
        | None \<Rightarrow>
            (case find (\<lambda>f. \<exists>get. pf_get f = Some get \<and> \<not> snd (get s)) pageLayout of
               Some f \<Rightarrow> Inl (CannotCarry (pf_name f))
             | None \<Rightarrow> Inr (foldl (\<lambda>p f. put_bytes (pf_offset f) (field_bytes s f) p)
                 (replicate PageSize 0) pageLayout @ drop PageSize dst)))"
proof -
  have "find (\<lambda>f. \<not> field_ok s f) pageLayout =
      find (\<lambda>f. \<exists>get. pf_get f = Some get \<and> \<not> snd (get s)) pageLayout"
    by (rule find_cong) (auto simp: field_ok_get split: option.split)
  then show ?thesis unfolding EncodePage_eq write_all_def by (rule arg_cong)
qed

end
