(* ===== verification/PageWriter.thy ===== *)
theory PageWriter
  imports PageFit
begin

text \<open>
  The writer of the page (\<open>page.go\<close>): the notify key, \<open>NewPageWriter\<close>, \<open>Resume\<close> and \<open>Publish\<close>.

  The mapped page is shared memory that the writer touches by 8-byte atomic loads and stores
  at aligned offsets only, so it is a function from byte offsets to words. \<open>Resume\<close> and \<open>Publish\<close>
  return the writer they leave and their stores in program order; a store sequence is a list
  of an offset and a word, so that readers can run between any two of them. The test seam
  \<open>headerStored\<close> is nil in use and left out.
\<close>

section \<open>The notify key\<close>

record pageNotifyKey =
  nk_level :: Level
  nk_admit :: bool
  nk_generation :: int64
  nk_ladder :: "int64 list list"

definition ladder_word :: "int64 ptr \<Rightarrow> int64" where
  "ladder_word p = (case deref p of None \<Rightarrow> PageAbsent | Some v \<Rightarrow> v)"

definition notifyKeyOf :: "PageSnapshot \<Rightarrow> pageNotifyKey" where
  "notifyKeyOf s = \<lparr>nk_level = ps_Level s, nk_admit = ps_Admit s, nk_generation = ps_Generation s,
     nk_ladder = map (\<lambda>i.
       if i \<ge> length (ps_Signals s) then replicate 10 PageAbsent
       else let g = ps_Signals s ! i
         in map ladder_word (BudgetSignal_rungs g @ BudgetSignal_releases g)) [0..<MaxPageSignals]\<rparr>"

definition PageNotifyDue :: "PageSnapshot option \<Rightarrow> PageSnapshot \<Rightarrow> bool" where
  "PageNotifyDue prev next' =
     (case prev of None \<Rightarrow> True | Some p \<Rightarrow> notifyKeyOf p \<noteq> notifyKeyOf next')"

definition zeroNotifyKey :: pageNotifyKey where
  "zeroNotifyKey = \<lparr>nk_level = '''', nk_admit = False, nk_generation = 0,
     nk_ladder = replicate MaxPageSignals (replicate 10 0)\<rparr>"


section \<open>The writer\<close>

type_synonym page_mem = "nat \<Rightarrow> uint64"

type_synonym stores = "(nat \<times> uint64) list"

record PageWriter =
  pw_seq :: uint64
  pw_epoch :: uint64
  pw_resumed :: bool
  pw_last :: pageNotifyKey
  pw_hasLast :: bool

datatype writer_err =
    ShortMapping nat
  | UnalignedMapping
  | BigEndianHost
  | ErrPageWriterNotResumed
  | PageFieldPanic string
  | EncodeFailed page_err

text \<open>\<open>NewPageWriter\<close> takes the length and the address of the mapping and the byte order of the
  host, which it probes.\<close>

definition NewPageWriter :: "nat \<Rightarrow> nat \<Rightarrow> bool \<Rightarrow> writer_err + PageWriter" where
  "NewPageWriter len address littleEndian =
     (if len < PageSize then Inl (ShortMapping len)
      else if address mod 8 \<noteq> 0 then Inl UnalignedMapping
      else if \<not> littleEndian then Inl BigEndianHost
      else Inr \<lparr>pw_seq = 0, pw_epoch = 0, pw_resumed = False, pw_last = zeroNotifyKey, pw_hasLast = False\<rparr>)"

definition store_word :: "page_mem \<Rightarrow> nat \<times> uint64 \<Rightarrow> page_mem" where
  "store_word mem st = mem(fst st := snd st)"

definition run_stores :: "page_mem \<Rightarrow> stores \<Rightarrow> page_mem" where
  "run_stores mem sts = foldl store_word mem sts"

definition word_at :: "byte list \<Rightarrow> nat \<Rightarrow> uint64" where
  "word_at page off = le_word (get_bytes off 8 page)"

definition with_offset :: "string \<Rightarrow> (nat \<Rightarrow> writer_err + 'a) \<Rightarrow> writer_err + 'a" where
  "with_offset name k = (case pageOffset name of None \<Rightarrow> Inl (PageFieldPanic name) | Some off \<Rightarrow> k off)"

definition headerSnapshot :: PageSnapshot where
  "headerSnapshot = \<lparr>ps_Generation = 0, ps_WriterPeriodSeconds = 1, ps_NodeName = ''-'',
     ps_ObservedAt = \<lparr>time_sec = 62135596801, time_nsec = 0, time_loc = Some ''Local''\<rparr>,
     ps_Platform = PlatformLinux, ps_Capacity = zeroBudgetCapacity, ps_Level = LevelOK,
     ps_Darwin = NilP, ps_Linux = Ptr 0 \<lparr>lx_PSI = NilP, lx_MemoryEvents = NilP\<rparr>,
     ps_Signals = [], ps_Admit = False, ps_AdmitReasonSignal = '''', ps_EvictDeadline = NilP,
     ps_KillMode = zeroKillMode,
     ps_Recommendation = \<lparr>rec_SafeAdditionalBytes = NilP, rec_Basis = ''''\<rparr>, ps_Counters = []\<rparr>"

definition encodeHeader :: "byte list \<Rightarrow> page_err + byte list" where
  "encodeHeader dst = EncodePage dst headerSnapshot"

definition header_bytes :: "page_mem \<Rightarrow> byte list" where
  "header_bytes mem = concat (map (\<lambda>i. word_le (mem (8 * i))) [0..<PageSeqOffset div 8])"

text \<open>The test of \<open>Resume\<close> for a page of this ABI major.\<close>

definition holds_abi :: "nat \<Rightarrow> nat \<Rightarrow> byte list \<Rightarrow> bool" where
  "holds_abi major hsize hdr \<longleftrightarrow>
     take (length PageMagic) hdr = str_bytes PageMagic \<and>
     le_nat (get_bytes major 2 hdr) = PageABIMajor \<and>
     le_nat (get_bytes hsize 4 hdr) = PageHeaderSize"

text \<open>The order of the header stores: the words of neither pair from the last down, then the pair,
  then the magic.\<close>

definition header_order :: "nat \<Rightarrow> nat \<Rightarrow> bool \<Rightarrow> nat list" where
  "header_order minorWord sizeWord shrinks =
     filter (\<lambda>off. off \<noteq> minorWord \<and> off \<noteq> sizeWord) (map (\<lambda>i. 8 * i) (rev [1..<PageSeqOffset div 8])) @
     (if shrinks then [minorWord, sizeWord] else [sizeWord, minorWord]) @ [0]"

definition Resume :: "page_mem \<Rightarrow> PageWriter \<Rightarrow> writer_err + PageWriter \<times> stores" where
  "Resume mem w =
     with_offset ''abiMajor'' (\<lambda>major. with_offset ''headerSize'' (\<lambda>hsize.
     with_offset ''bodySize'' (\<lambda>bsize. with_offset ''abiMinor'' (\<lambda>minor.
       let hdr = header_bytes mem;
           ours = holds_abi major hsize hdr;
           shrinks = (ours \<and> le_nat (get_bytes bsize 4 hdr) > pageBodySize);
           seq = (if ours then (if mem PageSeqOffset mod 2 = 1 then mem PageSeqOffset + 1 else mem PageSeqOffset)
                  else 0);
           epoch = (if ours then mem PageNotifyEpochOffset else 0)
       in case encodeHeader (replicate PageSize 0) of
            Inl e \<Rightarrow> Inl (EncodeFailed e)
          | Inr fresh \<Rightarrow>
              Inr (w\<lparr>pw_seq := seq, pw_epoch := epoch, pw_resumed := True, pw_hasLast := False\<rparr>,
                map (\<lambda>off. (off, word_at fresh off))
                  (header_order (minor div 8 * 8) (bsize div 8 * 8) shrinks))))))"

definition body_offsets :: "nat list" where
  "body_offsets = map (\<lambda>i. PageHeaderSize + 8 * i) [0..<(pageBodyEnd - PageHeaderSize + 7) div 8]"

definition Publish :: "PageWriter \<Rightarrow> PageSnapshot \<Rightarrow> writer_err + PageWriter \<times> stores" where
  "Publish w s =
     (if \<not> pw_resumed w then Inl ErrPageWriterNotResumed
      else case EncodePage (replicate PageSize 0) s of
          Inl e \<Rightarrow> Inl (EncodeFailed e)
        | Inr scratch \<Rightarrow>
            let key = notifyKeyOf s;
                due = (\<not> pw_hasLast w \<or> key \<noteq> pw_last w)
            in Inr (w\<lparr>pw_seq := pw_seq w + 2, pw_epoch := (if due then pw_epoch w + 1 else pw_epoch w),
                  pw_last := key, pw_hasLast := True\<rparr>,
                [(PageSeqOffset, pw_seq w + 1)] @
                map (\<lambda>off. (off, word_at scratch off)) body_offsets @
                [(PageSeqOffset, pw_seq w + 2)] @
                (if due then [(PageNotifyEpochOffset, pw_epoch w + 1)] else [])))"

section \<open>Store sequences\<close>

lemma run_stores_simps [simp]:
  "run_stores mem [] = mem"
  "run_stores mem (st # sts) = run_stores (store_word mem st) sts"
  "run_stores mem (sts @ sts') = run_stores (run_stores mem sts) sts'"
  by (simp_all add: run_stores_def)

lemma run_stores_other: "off \<notin> fst ` set sts \<Longrightarrow> run_stores mem sts off = mem off"
  by (induction sts arbitrary: mem) (auto simp: store_word_def)

lemma run_stores_map:
  "run_stores mem (map (\<lambda>off. (off, f off)) offs) = (\<lambda>off. if off \<in> set offs then f off else mem off)"
  by (induction offs arbitrary: mem) (auto simp: store_word_def fun_eq_iff)

lemma body_offsets_eq: "body_offsets = map (\<lambda>i. 192 + 8 * i) [0..<269]"
  by (simp add: body_offsets_def pageBodyEnd_eq const_defs)

lemma body_offsets_range: "off \<in> set body_offsets \<Longrightarrow> 192 \<le> off \<and> off + 8 \<le> 2344 \<and> off mod 8 = 0"
  by (auto simp: body_offsets_eq)

lemma body_offsets_not_head [simp]:
  "64 \<notin> set body_offsets" "128 \<notin> set body_offsets" "0 \<notin> set body_offsets" "8 \<notin> set body_offsets"
  by (auto simp: body_offsets_eq)

section \<open>The header\<close>

lemma header_bytes_eq:
  "header_bytes mem = word_le (mem 0) @ word_le (mem 8) @ word_le (mem 16) @ word_le (mem 24) @
     word_le (mem 32) @ word_le (mem 40) @ word_le (mem 48) @ word_le (mem 56)"
  by (simp add: header_bytes_def PageSeqOffset_def upt_rec)

definition header_ok :: "page_mem \<Rightarrow> bool" where
  "header_ok mem \<longleftrightarrow> word_le (mem 0) = str_bytes PageMagic \<and>
     le_nat (take 2 (word_le (mem 8))) = PageABIMajor \<and>
     le_nat (drop 4 (word_le (mem 8))) = PageHeaderSize"

lemma holds_abi_header: "holds_abi 8 12 (header_bytes mem) \<longleftrightarrow> header_ok mem"
proof -
  have "take (length PageMagic) (header_bytes mem) = word_le (mem 0)"
    "get_bytes 8 2 (header_bytes mem) = take 2 (word_le (mem 8))"
    "get_bytes 12 4 (header_bytes mem) = drop 4 (word_le (mem 8))"
    by (simp_all add: header_bytes_eq PageMagic_def get_bytes_def)
  then show ?thesis by (simp add: holds_abi_def header_ok_def)
qed

lemma body_size_header: "get_bytes 16 4 (header_bytes mem) = take 4 (word_le (mem 16))"
  by (simp add: header_bytes_eq get_bytes_def)

lemma headerSnapshot_new:
  "headerSnapshot = NewPageSnapshot ''-'' 1 (zeroObservation\<lparr>
     obs_ObservedAt := \<lparr>time_sec = 62135596801, time_nsec = 0, time_loc = Some ''Local''\<rparr>,
     obs_Platform := PlatformLinux, obs_Level := LevelOK,
     obs_Linux := Ptr 0 \<lparr>lx_PSI = NilP, lx_MemoryEvents = NilP\<rparr>\<rparr>)"
  by (simp add: headerSnapshot_def NewPageSnapshot_def zeroObservation_def)

lemma encodeHeader_ok: obtains fresh where "encodeHeader (replicate PageSize 0) = Inr fresh"
proof -
  let ?ob = "zeroObservation\<lparr>
     obs_ObservedAt := \<lparr>time_sec = 62135596801, time_nsec = 0, time_loc = Some ''Local''\<rparr>,
     obs_Platform := PlatformLinux, obs_Level := LevelOK,
     obs_Linux := Ptr 0 \<lparr>lx_PSI = NilP, lx_MemoryEvents = NilP\<rparr>\<rparr>"
  have "observation_wf ?ob"
    by (simp add: observation_wf_def header_wf_def body_wf_def policy_wf_def linux_wf_def capacity_wf_def
        killmode_wf_def zeroObservation_def Time_IsZero_def zeroBudgetCapacity_def zeroKillMode_def
        Level_Valid_def const_defs vocab_defs)
  from valid_observation_checks [OF this] valid_observation_carries [OF this]
  have "\<exists>p. EncodePage (replicate PageSize 0) headerSnapshot = Inr p"
    unfolding EncodePage_ok_iff headerSnapshot_new by simp
  then show ?thesis using that by (auto simp: encodeHeader_def)
qed

text \<open>The first three words of a page of this minor.\<close>

lemma EncodePage_length: "EncodePage dst s = Inr p \<Longrightarrow> length p = length dst"
  using EncodePage_InrD(2,3) [of dst s p] by (simp add: length_page)

lemma word_le_at:
  assumes "EncodePage dst s = Inr p" "off + 8 \<le> PageSize"
  shows "word_le (word_at p off) = get_bytes off 8 p"
  unfolding word_at_def
  by (rule word_le_word) (use assms EncodePage_InrD(2) [OF assms(1)] EncodePage_length [OF assms(1)]
      in \<open>simp add: get_bytes_def\<close>)

lemma fresh_header:
  assumes "EncodePage (replicate PageSize 0) s = Inr p"
  shows "word_le (word_at p 0) = str_bytes PageMagic"
    "le_nat (take 2 (word_le (word_at p 8))) = PageABIMajor"
    "le_nat (take 2 (drop 2 (word_le (word_at p 8)))) = PageABIMinor"
    "le_nat (drop 4 (word_le (word_at p 8))) = PageHeaderSize"
    "le_nat (take 4 (word_le (word_at p 16))) = pageBodySize"
proof -
  have read: "get_bytes (pf_offset f) (length (field_bytes s f)) p = field_bytes s f"
    if "f \<in> set (map2 (\<lambda>f at. f\<lparr>pf_offset := at\<rparr>) headerFields [0, 8, 10, 12, 16, 64, 128])" for f
    by (rule EncodePage_read [OF assms]) (use that in \<open>simp only: pageLayout_split set_append Un_iff simp_thms\<close>)
  have split: "get_bytes 8 2 p = take 2 (get_bytes 8 8 p)" "get_bytes 10 2 p = take 2 (drop 2 (get_bytes 8 8 p))"
    "get_bytes 12 4 p = drop 4 (get_bytes 8 8 p)" "get_bytes 16 4 p = take 4 (get_bytes 16 8 p)"
    by (simp_all add: get_bytes_def take_drop)
  note w = word_le_at [OF assms]
  show "word_le (word_at p 0) = str_bytes PageMagic"
    using w [of 0] read [of "hd headerFields\<lparr>pf_offset := 0\<rparr>"]
    by (simp add: headerFields_def add_field_def field_bytes_def PageMagic_def const_defs numeral_eq_Suc)
  show "le_nat (take 2 (word_le (word_at p 8))) = PageABIMajor"
    using w [of 8] read [of "(headerFields ! 1)\<lparr>pf_offset := 8\<rparr>"]
    by (simp add: headerFields_def add_field_def field_bytes_def const_defs constGet_def
        split(1) [symmetric] le_nat_le PageABIMajor_def)
  show "le_nat (take 2 (drop 2 (word_le (word_at p 8)))) = PageABIMinor"
    using w [of 8] read [of "(headerFields ! 2)\<lparr>pf_offset := 10\<rparr>"]
    by (simp add: headerFields_def add_field_def field_bytes_def const_defs constGet_def
        split(2) [symmetric] le_nat_le PageABIMinor_def)
  show "le_nat (drop 4 (word_le (word_at p 8))) = PageHeaderSize"
    using w [of 8] read [of "(headerFields ! 3)\<lparr>pf_offset := 12\<rparr>"]
    by (simp add: headerFields_def add_field_def field_bytes_def const_defs constGet_def
        split(3) [symmetric] le_nat_le)
  show "le_nat (take 4 (word_le (word_at p 16))) = pageBodySize"
    using w [of 16] read [of "(headerFields ! 4)\<lparr>pf_offset := 16\<rparr>"]
    by (simp add: headerFields_def add_field_def field_bytes_def const_defs
        split(4) [symmetric] le_nat_le pageBodySize_eq)
qed

definition fresh_word :: "nat \<Rightarrow> uint64" where
  "fresh_word off = (case encodeHeader (replicate PageSize 0) of Inl _ \<Rightarrow> 0 | Inr p \<Rightarrow> word_at p off)"

lemma header_order_eq:
  "header_order 8 16 shrinks = [56, 48, 40, 32, 24] @ (if shrinks then [8, 16] else [16, 8]) @ [0]"
  by (simp add: header_order_def PageSeqOffset_def upt_rec)

lemma Resume_eq:
  "Resume mem w =
     Inr (w\<lparr>pw_seq := (if header_ok mem then (if odd (mem 64) then mem 64 + 1 else mem 64) else 0),
         pw_epoch := (if header_ok mem then mem 128 else 0), pw_resumed := True, pw_hasLast := False\<rparr>,
       map (\<lambda>off. (off, fresh_word off))
         (header_order 8 16 (header_ok mem \<and> pageBodySize < le_nat (take 4 (word_le (mem 16))))))"
proof -
  obtain p where p: "encodeHeader (replicate PageSize 0) = Inr p" by (rule encodeHeader_ok)
  show ?thesis
    by (simp add: Resume_def with_offset_def header_offsets holds_abi_header body_size_header p fresh_word_def
        Let_def PageSeqOffset_def PageNotifyEpochOffset_def odd_iff_mod_2_eq_one)
qed

lemma fresh_words:
  "word_le (fresh_word 0) = str_bytes PageMagic"
  "le_nat (take 2 (word_le (fresh_word 8))) = PageABIMajor"
  "le_nat (take 2 (drop 2 (word_le (fresh_word 8)))) = PageABIMinor"
  "le_nat (drop 4 (word_le (fresh_word 8))) = PageHeaderSize"
  "le_nat (take 4 (word_le (fresh_word 16))) = pageBodySize"
proof -
  obtain p where p: "encodeHeader (replicate PageSize 0) = Inr p" by (rule encodeHeader_ok)
  have w: "fresh_word off = word_at p off" for off by (simp add: fresh_word_def p)
  show "word_le (fresh_word 0) = str_bytes PageMagic"
    "le_nat (take 2 (word_le (fresh_word 8))) = PageABIMajor"
    "le_nat (take 2 (drop 2 (word_le (fresh_word 8)))) = PageABIMinor"
    "le_nat (drop 4 (word_le (fresh_word 8))) = PageHeaderSize"
    "le_nat (take 4 (word_le (fresh_word 16))) = pageBodySize"
    unfolding w by (rule fresh_header [OF p [unfolded encodeHeader_def]])+
qed

section \<open>Publishing\<close>

lemma Publish_InrD:
  assumes "Publish w s = Inr (w', sts)"
  obtains p ep where "EncodePage (replicate PageSize 0) s = Inr p" "pw_resumed w"
    "w' = w\<lparr>pw_seq := pw_seq w + 2, pw_last := notifyKeyOf s, pw_hasLast := True,
       pw_epoch := (if \<not> pw_hasLast w \<or> notifyKeyOf s \<noteq> pw_last w then pw_epoch w + 1 else pw_epoch w)\<rparr>"
    "sts = (64, pw_seq w + 1) # map (\<lambda>off. (off, word_at p off)) body_offsets @ (64, pw_seq w + 2) # ep"
    "ep = (if \<not> pw_hasLast w \<or> notifyKeyOf s \<noteq> pw_last w then [(128, pw_epoch w + 1)] else [])"
  using assms
  by (auto simp: Publish_def Let_def PageSeqOffset_def PageNotifyEpochOffset_def
      split: if_splits sum.splits)

lemma Publish_ok_iff:
  "(\<exists>r. Publish w s = Inr r) \<longleftrightarrow> pw_resumed w \<and> (\<exists>p. EncodePage (replicate PageSize 0) s = Inr p)"
  by (auto simp: Publish_def Let_def split: sum.split)

lemma run_publish:
  assumes "sts = (64, a) # map (\<lambda>off. (off, word_at p off)) body_offsets @ (64, b) # ep"
    and "ep = (if due then [(128, c)] else [])"
  shows "run_stores mem sts = (\<lambda>off. if off \<in> set body_offsets then word_at p off
    else if off = 64 then b else if off = 128 \<and> due then c else mem off)"
  unfolding assms by (auto simp: run_stores_map store_word_def fun_eq_iff)

text \<open>The ladder of a slot, absent values as \<^term>\<open>None\<close>.\<close>

definition slot_ladder :: "nat \<Rightarrow> PageSnapshot \<Rightarrow> int64 option list" where
  "slot_ladder i s = (case slotSignal i s of None \<Rightarrow> replicate 10 None
     | Some g \<Rightarrow> map deref (BudgetSignal_rungs g @ BudgetSignal_releases g))"

lemma encoded_ladder:
  assumes "EncodePage dst s = Inr p" "i < 8" "slotSignal i s = Some g"
    and "v \<in> set (BudgetSignal_rungs g @ BudgetSignal_releases g)"
  shows "deref v \<noteq> Some PageAbsent"
proof -
  obtain get where get: "get \<in> {sig_Value, sig_WarnThreshold, sig_AdmitStopThreshold, sig_CriticalThreshold,
      sig_EvictSoftThreshold, sig_EvictHardThreshold, sig_WarnRelease, sig_AdmitStopRelease,
      sig_CriticalRelease, sig_EvictSoftRelease, sig_EvictHardRelease}" "v = get g"
    using assms(4) by (auto simp: BudgetSignal_rungs_def BudgetSignal_releases_def)
  obtain name where name: "slotI64 i name get \<in> set (signalFields i)" by (rule slot_names [OF get(1)])
  from same_page_same_word(2) [OF assms(1,1) in_specs(4) [OF assms(2) name]] assms(3)
  have "snd (i64Word (get g))" by (simp add: slotI64_def f_i64_def add_field_def)
  then show ?thesis unfolding get(2) by (auto simp: i64Word_def)
qed

lemma ladder_word_inj:
  assumes "\<forall>v \<in> set vs \<union> set ws. deref v \<noteq> Some PageAbsent"
  shows "map ladder_word vs = map ladder_word ws \<longleftrightarrow> map deref vs = map deref ws"
  using assms
proof (induction vs arbitrary: ws)
  case (Cons v vs)
  then show ?case by (cases ws) (auto simp: ladder_word_def split: option.splits)
qed auto

definition slot_key :: "nat \<Rightarrow> PageSnapshot \<Rightarrow> int64 list" where
  "slot_key i s = (case slotSignal i s of None \<Rightarrow> replicate 10 PageAbsent
     | Some g \<Rightarrow> map ladder_word (BudgetSignal_rungs g @ BudgetSignal_releases g))"

lemma notifyKeyOf_slots:
  "notifyKeyOf s = \<lparr>nk_level = ps_Level s, nk_admit = ps_Admit s, nk_generation = ps_Generation s,
     nk_ladder = map (\<lambda>i. slot_key i s) [0..<8]\<rparr>"
  by (auto simp: notifyKeyOf_def slot_key_def slotSignal_def const_defs Let_def)

definition slot_values :: "nat \<Rightarrow> PageSnapshot \<Rightarrow> int64 ptr list" where
  "slot_values i s = (case slotSignal i s of None \<Rightarrow> replicate 10 NilP
     | Some g \<Rightarrow> BudgetSignal_rungs g @ BudgetSignal_releases g)"

lemma slot_values_maps:
  "slot_key i s = map ladder_word (slot_values i s)" "slot_ladder i s = map deref (slot_values i s)"
  by (simp_all add: slot_key_def slot_ladder_def slot_values_def ladder_word_def split: option.split)

lemma slot_key_iff:
  assumes "EncodePage dst s = Inr p" "EncodePage dst' s' = Inr p'" "i < 8"
  shows "slot_key i s = slot_key i s' \<longleftrightarrow> slot_ladder i s = slot_ladder i s'"
  unfolding slot_values_maps
  by (rule ladder_word_inj)
    (use encoded_ladder [OF assms(1,3)] encoded_ladder [OF assms(2,3)]
      in \<open>auto simp: slot_values_def split: option.splits\<close>)

lemma notifyKeyOf_iff:
  assumes "EncodePage dst s = Inr p" "EncodePage dst' s' = Inr p'"
  shows "notifyKeyOf s = notifyKeyOf s' \<longleftrightarrow> ps_Level s = ps_Level s' \<and> ps_Admit s = ps_Admit s' \<and>
    ps_Generation s = ps_Generation s' \<and> (\<forall>i < 8. slot_ladder i s = slot_ladder i s')"
  unfolding notifyKeyOf_slots using slot_key_iff [OF assms] by auto

lemma header_pair_steps:
  fixes mem :: page_mem
  defines "minor m \<equiv> le_nat (take 2 (drop 2 (word_le (m 8))))"
    and "size' m \<equiv> le_nat (take 4 (word_le (m (16 :: nat))))"
  assumes "sts = map (\<lambda>off. (off, fresh_word off)) (header_order 8 16 shrinks)"
  shows "(minor (run_stores mem (take k sts)), size' (run_stores mem (take k sts))) \<in>
    {(minor mem, size' mem), if shrinks then (PageABIMinor, size' mem) else (minor mem, pageBodySize),
     (PageABIMinor, pageBodySize)}"
proof -
  have "run_stores mem (take k sts) = (\<lambda>off. if off \<in> set (take k (header_order 8 16 shrinks)) then fresh_word off
      else mem off)"
    by (simp add: assms take_map run_stores_map)
  moreover have "k \<le> 5 \<or> k = 6 \<or> k = 7 \<or> 8 \<le> k" by linarith
  then have "8 \<notin> set (take k (header_order 8 16 shrinks)) \<and> 16 \<notin> set (take k (header_order 8 16 shrinks)) \<or>
      8 \<in> set (take k (header_order 8 16 shrinks)) \<and> 16 \<in> set (take k (header_order 8 16 shrinks)) \<or>
      (8 \<in> set (take k (header_order 8 16 shrinks)) \<longleftrightarrow> shrinks) \<and>
      (16 \<in> set (take k (header_order 8 16 shrinks)) \<longleftrightarrow> \<not> shrinks)"
    by (auto simp: header_order_eq dest!: in_set_takeD [of _ "_ - _"] simp: take_Cons' split: if_splits)
  ultimately show ?thesis by (auto simp: assms fresh_words)
qed

section \<open>Samples\<close>

definition sample_snapshot :: PageSnapshot where
  "sample_snapshot = NewPageSnapshot ''node-a'' 10 sample_observation"

definition sample_writer :: PageWriter where
  "sample_writer = \<lparr>pw_seq = 4, pw_epoch = 9, pw_resumed = True, pw_last = zeroNotifyKey, pw_hasLast = False\<rparr>"

lemma sample_publish:
  assumes "pw_resumed w"
  obtains w' sts where "Publish w sample_snapshot = Inr (w', sts)" "pw_resumed w'"
proof -
  from sample_page assms have "\<exists>r. Publish w sample_snapshot = Inr r"
    unfolding Publish_ok_iff sample_snapshot_def by simp
  then obtain w' sts where r: "Publish w sample_snapshot = Inr (w', sts)" by auto
  have "pw_resumed w'" by (rule Publish_InrD [OF r]) (simp add: assms)
  with r that show ?thesis by blast
qed

section \<open>The words of the body\<close>

text \<open>The body loop visits the aligned words from the header to the end of the body.\<close>

lemma body_offsets_iff: "off \<in> set body_offsets \<longleftrightarrow> PageHeaderSize \<le> off \<and> off < pageBodyEnd \<and> 8 dvd off"
proof
  assume "PageHeaderSize \<le> off \<and> off < pageBodyEnd \<and> 8 dvd off"
  then obtain k where k: "off = 8 * k" "192 \<le> off" "off < 2344" by (auto simp: pageBodyEnd_eq const_defs)
  then have "off = 192 + 8 * (k - 24)" "k - 24 < 269" by auto
  then show "off \<in> set body_offsets" unfolding body_offsets_eq set_map by (intro image_eqI [of _ _ "k - 24"]) auto
qed (auto dest!: body_offsets_range simp: pageBodyEnd_eq const_defs dvd_eq_mod_eq_0)

lemma align_groups:
  "list_all (\<lambda>f. pf_align f \<in> {0, 64}) headerFields" "list_all (\<lambda>f. pf_align f \<in> {0, 64}) identityFields"
  "list_all (\<lambda>f. pf_align f \<in> {0, 64}) capacityFields" "list_all (\<lambda>f. pf_align f \<in> {0, 64}) darwinFields"
  "list_all (\<lambda>f. pf_align f \<in> {0, 64}) psiFields" "list_all (\<lambda>f. pf_align f \<in> {0, 64}) eventFields"
  "list_all (\<lambda>f. pf_align f \<in> {0, 64}) (signalFields i)" "list_all (\<lambda>f. pf_align f \<in> {0, 64}) actionFields"
  "list_all (\<lambda>f. pf_align f \<in> {0, 64}) (counterFields i)" "list_all (\<lambda>f. pf_align f \<in> {0, 64}) minor1Fields"
  by (simp_all add: headerFields_def identityFields_def capacityFields_def darwinFields_def
      psiFields_def eventFields_def signalFields_def actionFields_def counterFields_def
      minor1Fields_def field_defs Let_def)

lemma pageLayout_align:
  assumes "f \<in> set pageLayout"
  shows "pf_align f \<in> {0, 64}"
proof -
  obtain g where g: "g \<in> set pageFieldSpecs" "f = g\<lparr>pf_offset := pf_offset f\<rparr>"
    by (rule layout_fields [OF pageLayout_from assms])
  have "pf_align g \<in> {0, 64}"
    using g(1) unfolding pageFieldSpecs_def minor0Fields_def
    by (auto dest!: align_groups [unfolded list_all_iff, THEN bspec])
  then show ?thesis by (subst g(2)) simp
qed

lemma word_offset_in_body:
  assumes "f \<in> set pageLayout" "pf_get f = Some get" "pf_kind f \<in> {kindU64, kindI64}" "192 \<le> pf_offset f"
  shows "pf_offset f \<in> set body_offsets"
proof -
  have "pf_size f = 8" using pageLayout_shape [OF assms(1)] assms(2,3)
    by (auto simp: field_shape_def)
  then have le: "pf_offset f + 8 \<le> 2344" and "field_align f dvd pf_offset f"
    using pageLayout_laid_out assms(1) by (auto simp: laid_out_def pageBodyEnd_eq)
  moreover have "8 dvd field_align f" using pageLayout_align [OF assms(1)] assms(3) by (auto simp: field_align_def)
  ultimately have "8 dvd pf_offset f" by (meson dvd_trans)
  with le assms(4) show ?thesis by (simp add: body_offsets_iff pageBodyEnd_eq const_defs)
qed

section \<open>Properties\<close>

text \<open>(C3) \<open>Publish\<close> commits. Its stores are, in this order: the odd successor of \<open>seq\<close>, words of
  the body of exactly the encoded snapshot, the even \<open>seq\<close>, and the next \<open>notifyEpoch\<close> if the
  notification is due. They leave every aligned word from the header to the end of the body as
  encoded, \<open>seq\<close> advanced by two, \<open>notifyEpoch\<close> advanced when due, and everything else as it was;
  so each word field of the body holds the snapshot's value.\<close>

theorem Publish_commits:
  assumes "Publish w s = Inr (w', sts)"
  shows "pw_seq w' = pw_seq w + 2 \<and>
    (\<exists>p body. EncodePage (replicate PageSize 0) s = Inr p \<and>
      sts = (PageSeqOffset, pw_seq w + 1) # body @ (PageSeqOffset, pw_seq w + 2) #
        (if \<not> pw_hasLast w \<or> notifyKeyOf s \<noteq> pw_last w then [(PageNotifyEpochOffset, pw_epoch w + 1)] else []) \<and>
      (\<forall>(off, v) \<in> set body. PageHeaderSize \<le> off \<and> off < pageBodyEnd \<and> v = word_at p off) \<and>
      (\<forall>off. PageHeaderSize \<le> off \<and> off < pageBodyEnd \<and> 8 dvd off \<longrightarrow> run_stores mem sts off = word_at p off)) \<and>
    run_stores mem sts PageSeqOffset = pw_seq w' \<and>
    run_stores mem sts PageNotifyEpochOffset =
      (if \<not> pw_hasLast w \<or> notifyKeyOf s \<noteq> pw_last w then pw_epoch w + 1 else mem PageNotifyEpochOffset) \<and>
    (\<forall>off. \<not> (PageHeaderSize \<le> off \<and> off < pageBodyEnd \<and> 8 dvd off) \<and>
       off \<notin> {PageSeqOffset, PageNotifyEpochOffset} \<longrightarrow> run_stores mem sts off = mem off) \<and>
    (\<forall>f get. f \<in> set pageLayout \<and> pf_get f = Some get \<and> pf_kind f \<in> {kindU64, kindI64} \<and>
       PageHeaderSize \<le> pf_offset f \<longrightarrow> run_stores mem sts (pf_offset f) = fst (get s))"
proof -
  obtain p ep where p: "EncodePage (replicate PageSize 0) s = Inr p" "pw_resumed w"
    "w' = w\<lparr>pw_seq := pw_seq w + 2, pw_last := notifyKeyOf s, pw_hasLast := True,
       pw_epoch := (if \<not> pw_hasLast w \<or> notifyKeyOf s \<noteq> pw_last w then pw_epoch w + 1 else pw_epoch w)\<rparr>"
    and sts: "sts = (64, pw_seq w + 1) # map (\<lambda>off. (off, word_at p off)) body_offsets @ (64, pw_seq w + 2) # ep"
    and ep: "ep = (if \<not> pw_hasLast w \<or> notifyKeyOf s \<noteq> pw_last w then [(128, pw_epoch w + 1)] else [])"
    by (rule Publish_InrD [OF assms])
  note run = run_publish [OF sts ep, of mem]
  have body: "\<forall>(off, v) \<in> set (map (\<lambda>off. (off, word_at p off)) body_offsets).
      PageHeaderSize \<le> off \<and> off < pageBodyEnd \<and> v = word_at p off"
    by (auto simp: body_offsets_iff)
  have words: "\<forall>off. PageHeaderSize \<le> off \<and> off < pageBodyEnd \<and> 8 dvd off \<longrightarrow> run_stores mem sts off = word_at p off"
    unfolding run body_offsets_iff [symmetric] by simp
  have "run_stores mem sts (pf_offset f) = fst (get s)"
    if "f \<in> set pageLayout" "pf_get f = Some get" "pf_kind f \<in> {kindU64, kindI64}" "PageHeaderSize \<le> pf_offset f" for f get
  proof -
    have "pf_offset f \<in> set body_offsets"
      by (rule word_offset_in_body [OF that(1-3)]) (use that(4) in \<open>simp add: PageHeaderSize_def\<close>)
    then show ?thesis unfolding run using EncodePage_word(2) [OF p(1) that(1-3)] by (simp add: word_at_def)
  qed
  moreover have "\<forall>off. \<not> (PageHeaderSize \<le> off \<and> off < pageBodyEnd \<and> 8 dvd off) \<and>
       off \<notin> {PageSeqOffset, PageNotifyEpochOffset} \<longrightarrow> run_stores mem sts off = mem off"
    unfolding run body_offsets_iff [symmetric] by (simp add: PageSeqOffset_def PageNotifyEpochOffset_def)
  moreover have "run_stores mem sts PageSeqOffset = pw_seq w'" "run_stores mem sts PageNotifyEpochOffset =
      (if \<not> pw_hasLast w \<or> notifyKeyOf s \<noteq> pw_last w then pw_epoch w + 1 else mem PageNotifyEpochOffset)"
    unfolding run p(3) by (simp_all add: PageSeqOffset_def PageNotifyEpochOffset_def)
  moreover have "pw_seq w' = pw_seq w + 2" by (simp add: p(3))
  moreover note p(1) body words sts [unfolded ep, folded PageSeqOffset_def PageNotifyEpochOffset_def]
  ultimately show ?thesis by blast
qed

theorem Publish_commits_witness:
  "\<exists>w' sts. Publish sample_writer sample_snapshot = Inr (w', sts) \<and>
     run_stores (\<lambda>_. 0) sts PageSeqOffset = 6 \<and> run_stores (\<lambda>_. 0) sts PageNotifyEpochOffset = 10 \<and>
     hd sts = (PageSeqOffset, 5) \<and> last sts = (PageNotifyEpochOffset, 10)"
proof -
  obtain w' sts where r: "Publish sample_writer sample_snapshot = Inr (w', sts)"
    by (rule sample_publish [of sample_writer]) (simp add: sample_writer_def)
  from Publish_commits [OF r, of "\<lambda>_. 0"] r show ?thesis by (auto simp: sample_writer_def)
qed

text \<open>(C5) \<open>notifyEpoch\<close> is bumped exactly when a reader has to look: after publishing \<open>s\<close>,
  publishing \<open>s'\<close> advances the epoch (by one, wrapping) exactly when the level, admit, the
  generation or a threshold or release of a slot changed, a value becoming absent or present
  included; and that is what \<open>PageNotifyDue\<close> reports.\<close>

theorem notify_exact:
  assumes "Publish w s = Inr (w1, sts)" "Publish w1 s' = Inr (w2, sts')"
  shows "(PageNotifyDue (Some s) s' \<longleftrightarrow> PageNotifyEpochOffset \<in> fst ` set sts') \<and>
    pw_epoch w2 = pw_epoch w1 + (if PageNotifyDue (Some s) s' then 1 else 0) \<and>
    (PageNotifyDue (Some s) s' \<longleftrightarrow> ps_Level s \<noteq> ps_Level s' \<or> ps_Admit s \<noteq> ps_Admit s' \<or>
       ps_Generation s \<noteq> ps_Generation s' \<or> (\<exists>i < MaxPageSignals. slot_ladder i s \<noteq> slot_ladder i s'))"
proof -
  obtain p where p: "EncodePage (replicate PageSize 0) s = Inr p"
    and last: "pw_hasLast w1" "pw_last w1 = notifyKeyOf s"
    by (rule Publish_InrD [OF assms(1)]) simp
  obtain p' ep where p': "EncodePage (replicate PageSize 0) s' = Inr p'"
    and w2: "w2 = w1\<lparr>pw_seq := pw_seq w1 + 2, pw_last := notifyKeyOf s', pw_hasLast := True,
       pw_epoch := (if \<not> pw_hasLast w1 \<or> notifyKeyOf s' \<noteq> pw_last w1 then pw_epoch w1 + 1 else pw_epoch w1)\<rparr>"
    and sts: "sts' = (64, pw_seq w1 + 1) # map (\<lambda>off. (off, word_at p' off)) body_offsets @
       (64, pw_seq w1 + 2) # ep"
    and ep: "ep = (if \<not> pw_hasLast w1 \<or> notifyKeyOf s' \<noteq> pw_last w1 then [(128, pw_epoch w1 + 1)] else [])"
    by (rule Publish_InrD [OF assms(2)])
  have due: "PageNotifyDue (Some s) s' \<longleftrightarrow> notifyKeyOf s' \<noteq> pw_last w1"
    by (auto simp: PageNotifyDue_def last)
  have "128 \<in> fst ` set sts' \<longleftrightarrow> notifyKeyOf s' \<noteq> pw_last w1"
    unfolding sts ep by (auto simp: last image_iff)
  then show ?thesis unfolding due
    by (auto simp: w2 last notifyKeyOf_iff [OF p' p] PageNotifyEpochOffset_def const_defs)
qed

theorem notify_exact_witness:
  "\<exists>w1 sts w2 sts'. Publish sample_writer sample_snapshot = Inr (w1, sts) \<and>
     Publish w1 sample_snapshot = Inr (w2, sts') \<and> pw_epoch w2 = pw_epoch w1 \<and>
     PageNotifyEpochOffset \<notin> fst ` set sts'"
proof -
  obtain w1 sts where r1: "Publish sample_writer sample_snapshot = Inr (w1, sts)" "pw_resumed w1"
    by (rule sample_publish [of sample_writer]) (simp add: sample_writer_def)
  obtain w2 sts' where r2: "Publish w1 sample_snapshot = Inr (w2, sts')" by (rule sample_publish [OF r1(2)])
  from notify_exact [OF r1(1) r2] r1 r2 show ?thesis by (auto simp: PageNotifyDue_def)
qed

text \<open>(C4) \<open>Resume\<close> over a page of this ABI major: it always succeeds and continues \<open>seq\<close>, rounded
  up to even, and \<open>notifyEpoch\<close>; it stores header words only, the magic last; and if the page's
  header was valid, its body size at least that of its minor, then so is the header after any
  number of the stores, whatever sizes other minors have.\<close>

theorem Resume_keeps_header_valid:
  assumes "header_ok mem" "bodySizeOf PageABIMinor = pageBodySize"
    and "bodySizeOf (le_nat (take 2 (drop 2 (word_le (mem 8))))) \<le> le_nat (take 4 (word_le (mem 16)))"
  shows "\<exists>w' sts. Resume mem w = Inr (w', sts) \<and> pw_resumed w' \<and> \<not> pw_hasLast w' \<and>
    pw_seq w' = mem PageSeqOffset + mem PageSeqOffset mod 2 \<and> pw_epoch w' = mem PageNotifyEpochOffset \<and>
    (\<forall>st \<in> set sts. fst st < PageSeqOffset) \<and> fst (last sts) = 0 \<and>
    (\<forall>k. header_ok (run_stores mem (take k sts)) \<and>
       bodySizeOf (le_nat (take 2 (drop 2 (word_le (run_stores mem (take k sts) 8))))) \<le>
         le_nat (take 4 (word_le (run_stores mem (take k sts) 16))))"
proof -
  let ?shrinks = "pageBodySize < le_nat (take 4 (word_le (mem 16)))"
  let ?sts = "map (\<lambda>off. (off, fresh_word off)) (header_order 8 16 ?shrinks)"
  have "header_ok (run_stores mem (take k ?sts))" for k
    using assms(1) by (simp add: take_map run_stores_map header_ok_def fresh_words)
  moreover have "bodySizeOf (le_nat (take 2 (drop 2 (word_le (run_stores mem (take k ?sts) 8))))) \<le>
      le_nat (take 4 (word_le (run_stores mem (take k ?sts) 16)))" for k
    using header_pair_steps [OF refl, of mem k ?shrinks] assms(2,3) by (auto split: if_splits)
  moreover have "mem 64 mod 2 = (if odd (mem 64) then 1 else 0)" by (simp add: mod_2_eq_odd)
  moreover have "\<forall>st \<in> set ?sts. fst st < PageSeqOffset" "fst (last ?sts) = 0"
    by (auto simp: header_order_eq PageSeqOffset_def)
  ultimately show ?thesis unfolding Resume_eq using assms(1)
    by (auto simp: PageSeqOffset_def PageNotifyEpochOffset_def)
qed

theorem Resume_keeps_header_valid_witness:
  "\<exists>w' sts. Resume (fresh_word(PageSeqOffset := 5)) sample_writer = Inr (w', sts) \<and> pw_seq w' = 6"
  using Resume_keeps_header_valid [of "fresh_word(PageSeqOffset := 5)" "\<lambda>_. pageBodySize" sample_writer]
  by (auto simp: header_ok_def fresh_words PageSeqOffset_def)

text \<open>The errors of the writer: \<open>NewPageWriter\<close> refuses a short, misaligned or big-endian
  mapping; \<open>Publish\<close> refuses before \<open>Resume\<close> and refuses what \<open>EncodePage\<close> refuses, with its error,
  before any store; nothing else fails.\<close>

theorem writer_refuses:
  "((\<exists>w. NewPageWriter len address littleEndian = Inr w) \<longleftrightarrow> PageSize \<le> len \<and> 8 dvd address \<and> littleEndian) \<and>
   (Publish w s = Inl e \<longleftrightarrow>
      \<not> pw_resumed w \<and> e = ErrPageWriterNotResumed \<or>
      pw_resumed w \<and> (\<exists>x. EncodePage (replicate PageSize 0) s = Inl x \<and> e = EncodeFailed x)) \<and>
   Resume mem w \<noteq> Inl e"
  by (auto simp: NewPageWriter_def Publish_def Resume_eq Let_def split: sum.split)

end
