(* ===== verification/Seqlock.thy ===== *)
theory Seqlock
  imports PageWriter
begin

text \<open>
  The page as a concurrent object: a writer whose stores reach memory one at a time, which may
  die between any two of them and be replaced by one that resumes, and a reader that follows
  the published protocol (load an even \<open>seq\<close>, copy the body words in any order, load \<open>seq\<close>
  again). The stores are those of \<open>Resume\<close> and \<open>Publish\<close>; loads and stores are atomic and
  sequentially consistent, as \<open>sync/atomic\<close> promises.
\<close>

section \<open>The system\<close>

record page_reader =
  rd_seq :: uint64
  rd_copy :: "nat \<rightharpoonup> uint64"
  rd_moves :: nat
  rd_pubs :: nat

text \<open>Beside the memory, the writer and the stores it has not made yet, the state keeps what the
  claims speak about: the snapshot being published, the last one published in full
  (\<^term>\<open>None\<close> while the page holds the body it had at the start), how far \<open>seq\<close> has moved, and
  how many publications have started.\<close>

record page_system =
  sy_mem :: page_mem
  sy_writer :: "PageWriter option"
  sy_todo :: stores
  sy_next :: "PageSnapshot option"
  sy_current :: "PageSnapshot option"
  sy_moves :: nat
  sy_pubs :: nat
  sy_reader :: "page_reader option"

definition store_effect :: "nat \<times> uint64 \<Rightarrow> page_system \<Rightarrow> page_system" where
  "store_effect st y = y\<lparr>sy_mem := store_word (sy_mem y) st,
     sy_moves := (if fst st = PageSeqOffset then sy_moves y + unat (snd st - sy_mem y PageSeqOffset) else sy_moves y),
     sy_current := (if fst st = PageSeqOffset \<and> even (snd st) then sy_next y else sy_current y)\<rparr>"

inductive page_step :: "page_system \<Rightarrow> page_system \<Rightarrow> bool" where
  open_page: "sy_writer y = None \<Longrightarrow> NewPageWriter PageSize address True = Inr w \<Longrightarrow>
    Resume (sy_mem y) w = Inr (w', sts) \<Longrightarrow>
    page_step y (y\<lparr>sy_writer := Some w', sy_todo := sts\<rparr>)"
| publish: "sy_writer y = Some w \<Longrightarrow> sy_todo y = [] \<Longrightarrow> Publish w s = Inr (w', sts) \<Longrightarrow>
    page_step y (y\<lparr>sy_writer := Some w', sy_todo := sts, sy_next := Some s, sy_pubs := sy_pubs y + 1\<rparr>)"
| store: "sy_todo y = st # sts \<Longrightarrow> page_step y (store_effect st (y\<lparr>sy_todo := sts\<rparr>))"
| die: "page_step y (y\<lparr>sy_writer := None, sy_todo := []\<rparr>)"
| read_start: "even (sy_mem y PageSeqOffset) \<Longrightarrow>
    page_step y (y\<lparr>sy_reader := Some \<lparr>rd_seq = sy_mem y PageSeqOffset, rd_copy = Map.empty,
      rd_moves = sy_moves y, rd_pubs = sy_pubs y\<rparr>\<rparr>)"
| read_word: "sy_reader y = Some r \<Longrightarrow> off \<in> set body_offsets \<Longrightarrow>
    page_step y (y\<lparr>sy_reader := Some (r\<lparr>rd_copy := (rd_copy r)(off \<mapsto> sy_mem y off)\<rparr>)\<rparr>)"
| read_stop: "page_step y (y\<lparr>sy_reader := None\<rparr>)"

inductive_cases page_stepE: "page_step y y'"

definition page_start :: "page_mem \<Rightarrow> page_system" where
  "page_start mem = \<lparr>sy_mem = mem, sy_writer = None, sy_todo = [], sy_next = None, sy_current = None,
     sy_moves = unat (mem PageSeqOffset), sy_pubs = 0, sy_reader = None\<rparr>"

text \<open>The second load of \<open>seq\<close> agrees with the first and every body word was copied.\<close>

definition stable_read :: "page_system \<Rightarrow> page_reader \<Rightarrow> bool" where
  "stable_read y r \<longleftrightarrow> sy_reader y = Some r \<and> sy_mem y PageSeqOffset = rd_seq r \<and>
     (\<forall>off \<in> set body_offsets. rd_copy r off \<noteq> None)"

text \<open>The body of a snapshot, and the body the page should have.\<close>

definition snapshot_word :: "PageSnapshot \<Rightarrow> nat \<Rightarrow> uint64" where
  "snapshot_word s off = (case EncodePage (replicate PageSize 0) s of Inl _ \<Rightarrow> 0 | Inr p \<Rightarrow> word_at p off)"

definition current_word :: "page_mem \<Rightarrow> page_system \<Rightarrow> nat \<Rightarrow> uint64" where
  "current_word mem0 y off = (case sy_current y of None \<Rightarrow> mem0 off | Some s \<Rightarrow> snapshot_word s off)"

section \<open>The invariant\<close>

definition quiet :: "nat \<times> uint64 \<Rightarrow> bool" where
  "quiet st \<longleftrightarrow> fst st = 128 \<or> fst st < 64 \<and> snd st = fresh_word (fst st)"

definition seq_stores :: "stores \<Rightarrow> nat" where
  "seq_stores sts = length (filter (\<lambda>st. fst st = 64) sts)"

definition moves_left :: "stores \<Rightarrow> nat" where
  "moves_left sts = 2 * seq_stores sts - 1"

definition mem_ok :: "page_mem \<Rightarrow> page_system \<Rightarrow> bool" where
  "mem_ok mem0 y \<longleftrightarrow> sy_mem y 64 = word_of_nat (sy_moves y) \<and>
     (header_ok (sy_mem y) \<or> sy_mem y 64 = 0) \<and>
     (even (sy_mem y 64) \<longrightarrow> (\<forall>off \<in> set body_offsets. sy_mem y off = current_word mem0 y off)) \<and>
     (\<forall>s. sy_current y = Some s \<or> sy_next y = Some s \<longrightarrow> (\<exists>p. EncodePage (replicate PageSize 0) s = Inr p))"

definition writer_ok :: "page_system \<Rightarrow> bool" where
  "writer_ok y \<longleftrightarrow>
     (case sy_writer y of
        None \<Rightarrow> sy_todo y = []
      | Some w \<Rightarrow> header_ok (run_stores (sy_mem y) (sy_todo y)) \<and> pw_resumed w \<and> even (pw_seq w) \<and>
          run_stores (sy_mem y) (sy_todo y) 64 \<in> {pw_seq w, pw_seq w - 1})"

text \<open>A publication in progress: before or after its first store.\<close>

definition publishing :: "page_system \<Rightarrow> bool" where
  "publishing y \<longleftrightarrow> header_ok (sy_mem y) \<and>
     (\<exists>bs ep q s. (\<forall>st \<in> set bs. fst st \<in> set body_offsets) \<and> list_all quiet ep \<and> even q \<and> sy_next y = Some s \<and>
        (\<forall>off \<in> set body_offsets. run_stores (sy_mem y) (sy_todo y) off = snapshot_word s off) \<and>
        (sy_todo y = bs @ (64, q + 2) # ep \<and> sy_mem y 64 = q + 1 \<or>
         sy_todo y = (64, q + 1) # bs @ (64, q + 2) # ep \<and> sy_mem y 64 \<in> {q, q - 1}))"

definition todo_ok :: "page_system \<Rightarrow> bool" where
  "todo_ok y \<longleftrightarrow> list_all quiet (sy_todo y) \<or> publishing y"

definition reader_ok :: "page_system \<Rightarrow> bool" where
  "reader_ok y \<longleftrightarrow> (\<forall>r. sy_reader y = Some r \<longrightarrow>
     even (rd_seq r) \<and> rd_seq r = word_of_nat (rd_moves r) \<and> rd_moves r \<le> sy_moves y \<and> rd_pubs r \<le> sy_pubs y \<and>
     sy_moves y + moves_left (sy_todo y) \<le> rd_moves r + 3 * (sy_pubs y - rd_pubs r + 1) \<and>
     (rd_moves r = sy_moves y \<longrightarrow> (\<forall>off v. rd_copy r off = Some v \<longrightarrow> off \<in> set body_offsets \<and> v = sy_mem y off)))"

definition page_inv :: "page_mem \<Rightarrow> page_system \<Rightarrow> bool" where
  "page_inv mem0 y \<longleftrightarrow> mem_ok mem0 y \<and> writer_ok y \<and> todo_ok y \<and> reader_ok y"

lemma quiet_not_seq: "quiet st \<Longrightarrow> fst st \<noteq> 64 \<and> fst st \<notin> set body_offsets"
  using body_offsets_range by (fastforce simp: quiet_def)

lemma quiet_keeps_header: "quiet st \<Longrightarrow> header_ok mem \<Longrightarrow> header_ok (store_word mem st)"
  by (auto simp: quiet_def header_ok_def store_word_def fresh_words)

lemma seq_stores_simps [simp]:
  "seq_stores [] = 0" "seq_stores (st # sts) = (if fst st = 64 then 1 else 0) + seq_stores sts"
  "seq_stores (sts @ sts') = seq_stores sts + seq_stores sts'"
  by (simp_all add: seq_stores_def)

lemma quiet_seq_stores: "list_all quiet sts \<Longrightarrow> seq_stores sts = 0"
  by (induction sts) (auto dest: quiet_not_seq)

lemma body_seq_stores: "\<forall>st \<in> set sts. fst st \<in> set body_offsets \<Longrightarrow> seq_stores sts = 0"
  by (induction sts) (auto dest: body_offsets_range)

subsection \<open>One store\<close>

lemma store_effect_simps [simp]:
  "sy_mem (store_effect st y) = store_word (sy_mem y) st" "sy_writer (store_effect st y) = sy_writer y"
  "sy_todo (store_effect st y) = sy_todo y" "sy_next (store_effect st y) = sy_next y"
  "sy_pubs (store_effect st y) = sy_pubs y" "sy_reader (store_effect st y) = sy_reader y"
  by (simp_all add: store_effect_def)

lemma store_effect_quiet:
  "fst st \<noteq> 64 \<Longrightarrow> sy_moves (store_effect st y) = sy_moves y \<and> sy_current (store_effect st y) = sy_current y"
  by (simp add: store_effect_def PageSeqOffset_def)

lemma store_effect_seq:
  "sy_moves (store_effect (64, v) y) = sy_moves y + unat (v - sy_mem y 64)"
  "sy_current (store_effect (64, v) y) = (if even v then sy_next y else sy_current y)"
  by (simp_all add: store_effect_def PageSeqOffset_def)

lemma writer_ok_store:
  "writer_ok y \<Longrightarrow> sy_todo y = st # sts \<Longrightarrow> writer_ok (store_effect st (y\<lparr>sy_todo := sts\<rparr>))"
  by (simp add: writer_ok_def split: option.splits)

lemma store_quiet:
  assumes "page_inv mem0 y" "sy_todo y = st # sts" "quiet st" "list_all quiet sts"
  shows "page_inv mem0 (store_effect st (y\<lparr>sy_todo := sts\<rparr>))"
proof -
  let ?y = "store_effect st (y\<lparr>sy_todo := sts\<rparr>)"
  have q: "fst st \<noteq> 64" "fst st \<notin> set body_offsets" using quiet_not_seq [OF assms(3)] by auto
  then have same: "sy_moves ?y = sy_moves y" "sy_current ?y = sy_current y" "sy_mem ?y 64 = sy_mem y 64"
    "\<forall>off \<in> set body_offsets. sy_mem ?y off = sy_mem y off"
    using store_effect_quiet [of st "y\<lparr>sy_todo := sts\<rparr>"] by (auto simp: store_word_def)
  have "mem_ok mem0 ?y"
    using assms(1) same quiet_keeps_header [OF assms(3)]
    by (auto simp: page_inv_def mem_ok_def current_word_def)
  moreover have "writer_ok ?y" using assms(1,2) writer_ok_store by (simp add: page_inv_def)
  moreover have "todo_ok ?y" using assms(4) by (simp add: todo_ok_def)
  moreover have "reader_ok ?y"
  proof -
    have "moves_left (st # sts) = 0" "moves_left sts = 0"
      using assms(3,4) q by (simp_all add: moves_left_def quiet_seq_stores)
    then show ?thesis using assms(1,2) same by (fastforce simp: page_inv_def reader_ok_def)
  qed
  ultimately show ?thesis by (simp add: page_inv_def)
qed

lemma store_body:
  assumes "page_inv mem0 y" "sy_todo y = st # sts" "fst st \<in> set body_offsets" "odd (sy_mem y 64)"
    and "todo_ok (store_effect st (y\<lparr>sy_todo := sts\<rparr>))"
  shows "page_inv mem0 (store_effect st (y\<lparr>sy_todo := sts\<rparr>))"
proof -
  let ?y = "store_effect st (y\<lparr>sy_todo := sts\<rparr>)"
  have q: "fst st \<noteq> 64" "fst st \<noteq> 0" "fst st \<noteq> 8" using body_offsets_range [OF assms(3)] by auto
  then have same: "sy_moves ?y = sy_moves y" "sy_current ?y = sy_current y" "sy_mem ?y 64 = sy_mem y 64"
    "header_ok (sy_mem ?y) = header_ok (sy_mem y)"
    using store_effect_quiet [of st "y\<lparr>sy_todo := sts\<rparr>"] by (auto simp: store_word_def header_ok_def)
  have "mem_ok mem0 ?y"
    using assms(1,4) unfolding page_inv_def mem_ok_def same by auto
  moreover have "writer_ok ?y" using assms(1,2) writer_ok_store by (simp add: page_inv_def)
  moreover have "reader_ok ?y"
  proof -
    have "moves_left (st # sts) = moves_left sts" using q by (simp add: moves_left_def)
    moreover have "rd_moves r \<noteq> sy_moves y" if "sy_reader y = Some r" for r
      using assms(1,4) that unfolding page_inv_def mem_ok_def reader_ok_def by metis
    ultimately show ?thesis using assms(1,2) unfolding page_inv_def reader_ok_def same by auto
  qed
  ultimately show ?thesis using assms(5) by (simp add: page_inv_def)
qed

lemma store_seq:
  assumes "page_inv mem0 y" "sy_todo y = (64, v) # sts" "header_ok (sy_mem y)"
    and "0 < unat (v - sy_mem y 64)"
    and "unat (v - sy_mem y 64) + moves_left sts \<le> moves_left ((64, v) # sts)"
    and "even v \<Longrightarrow> \<exists>s. sy_next y = Some s \<and> (\<forall>off \<in> set body_offsets. sy_mem y off = snapshot_word s off)"
    and "todo_ok (store_effect (64, v) (y\<lparr>sy_todo := sts\<rparr>))"
  shows "page_inv mem0 (store_effect (64, v) (y\<lparr>sy_todo := sts\<rparr>))"
proof -
  let ?y = "store_effect (64, v) (y\<lparr>sy_todo := sts\<rparr>)"
  have mem: "sy_mem ?y 64 = v" "\<forall>off \<in> set body_offsets. sy_mem ?y off = sy_mem y off"
    "header_ok (sy_mem ?y)"
    using assms(3) by (auto simp: store_word_def header_ok_def dest: body_offsets_range)
  note eff = store_effect_seq [of v "y\<lparr>sy_todo := sts\<rparr>"]
  have moves: "sy_moves ?y = sy_moves y + unat (v - sy_mem y 64)" using eff(1) by simp
  have "mem_ok mem0 ?y"
  proof -
    have "word_of_nat (sy_moves ?y) = v"
      using assms(1) unfolding moves page_inv_def mem_ok_def by (simp add: of_nat_add)
    moreover have "\<forall>off \<in> set body_offsets. sy_mem ?y off = current_word mem0 ?y off" if "even v"
      using assms(6) [OF that] that mem(2) eff(2) by (auto simp: current_word_def)
    moreover have "\<exists>p. EncodePage (replicate PageSize 0) s = Inr p"
      if "sy_current ?y = Some s \<or> sy_next ?y = Some s" for s
      using that assms(1) eff(2) by (auto simp: page_inv_def mem_ok_def split: if_splits)
    ultimately show ?thesis using mem by (auto simp: mem_ok_def)
  qed
  moreover have "writer_ok ?y" using assms(1,2) writer_ok_store by (simp add: page_inv_def)
  moreover have "reader_ok ?y"
    unfolding reader_ok_def
  proof (intro allI impI)
    fix r assume "sy_reader ?y = Some r"
    then have "sy_reader y = Some r" by simp
    then have r: "even (rd_seq r)" "rd_seq r = word_of_nat (rd_moves r)" "rd_moves r \<le> sy_moves y"
      "rd_pubs r \<le> sy_pubs y"
      "sy_moves y + moves_left ((64, v) # sts) \<le> rd_moves r + 3 * (sy_pubs y - rd_pubs r + 1)"
      using assms(1,2) unfolding page_inv_def reader_ok_def by auto
    have "sy_moves ?y + moves_left sts \<le> rd_moves r + 3 * (sy_pubs y - rd_pubs r + 1)"
      using r(5) assms(5) unfolding moves by linarith
    moreover have "rd_moves r < sy_moves ?y" using r(3) assms(4) unfolding moves by linarith
    ultimately show "even (rd_seq r) \<and> rd_seq r = word_of_nat (rd_moves r) \<and> rd_moves r \<le> sy_moves ?y \<and>
        rd_pubs r \<le> sy_pubs ?y \<and>
        sy_moves ?y + moves_left (sy_todo ?y) \<le> rd_moves r + 3 * (sy_pubs ?y - rd_pubs r + 1) \<and>
        (rd_moves r = sy_moves ?y \<longrightarrow>
          (\<forall>off v. rd_copy r off = Some v \<longrightarrow> off \<in> set body_offsets \<and> v = sy_mem ?y off))"
      using r(1,2,4) by simp
  qed
  ultimately show ?thesis using assms(7) by (simp add: page_inv_def)
qed

lemma publishing_cases:
  assumes "publishing y" "sy_todo y = st # sts"
  obtains (first) bs ep q s where "st = (64, q + 1)" "sts = bs @ (64, q + 2) # ep" "even q"
      "\<forall>st \<in> set bs. fst st \<in> set body_offsets" "list_all quiet ep" "sy_next y = Some s" "sy_mem y 64 \<in> {q, q - 1}"
      "\<forall>off \<in> set body_offsets. run_stores (sy_mem y) (sy_todo y) off = snapshot_word s off"
  | (body) bs ep q s where "fst st \<in> set body_offsets" "sts = bs @ (64, q + 2) # ep" "even q"
      "\<forall>st \<in> set bs. fst st \<in> set body_offsets" "list_all quiet ep" "sy_next y = Some s" "sy_mem y 64 = q + 1"
      "\<forall>off \<in> set body_offsets. run_stores (sy_mem y) (sy_todo y) off = snapshot_word s off"
  | (final) q s where "st = (64, q + 2)" "even q" "list_all quiet sts" "sy_next y = Some s" "sy_mem y 64 = q + 1"
      "\<forall>off \<in> set body_offsets. run_stores (sy_mem y) (sy_todo y) off = snapshot_word s off"
proof -
  from assms(1) obtain bs ep q s where h: "\<forall>st \<in> set bs. fst st \<in> set body_offsets" "list_all quiet ep" "even q"
    "sy_next y = Some s" "\<forall>off \<in> set body_offsets. run_stores (sy_mem y) (sy_todo y) off = snapshot_word s off"
    and alt: "sy_todo y = bs @ (64, q + 2) # ep \<and> sy_mem y 64 = q + 1 \<or>
         sy_todo y = (64, q + 1) # bs @ (64, q + 2) # ep \<and> sy_mem y 64 \<in> {q, q - 1}"
    unfolding publishing_def by blast
  from alt show ?thesis
  proof
    assume a: "sy_todo y = bs @ (64, q + 2) # ep \<and> sy_mem y 64 = q + 1"
    show ?thesis
    proof (cases bs)
      case Nil
      with a assms(2) h show ?thesis by (intro final [of q s]) auto
    next
      case (Cons b bs')
      with a assms(2) h show ?thesis by (intro body [of bs' q ep s]) auto
    qed
  next
    assume a: "sy_todo y = (64, q + 1) # bs @ (64, q + 2) # ep \<and> sy_mem y 64 \<in> {q, q - 1}"
    with assms(2) h show ?thesis by (intro first [of q bs ep s]) auto
  qed
qed

lemma publishingI:
  assumes "header_ok (sy_mem y)" "\<forall>st \<in> set bs. fst st \<in> set body_offsets" "list_all quiet ep" "even q"
    and "sy_next y = Some s" "sy_todo y = bs @ (64, q + 2) # ep" "sy_mem y 64 = q + 1"
    and "\<forall>off \<in> set body_offsets. run_stores (sy_mem y) (sy_todo y) off = snapshot_word s off"
  shows "todo_ok y"
  using assms unfolding todo_ok_def publishing_def by blast

lemma publishing_firstI:
  assumes "header_ok (sy_mem y)" "\<forall>st \<in> set bs. fst st \<in> set body_offsets" "list_all quiet ep" "even q"
    and "sy_next y = Some s" "sy_todo y = (64, q + 1) # bs @ (64, q + 2) # ep" "sy_mem y 64 \<in> {q, q - 1}"
    and "\<forall>off \<in> set body_offsets. run_stores (sy_mem y) (sy_todo y) off = snapshot_word s off"
  shows "todo_ok y"
  using assms unfolding todo_ok_def publishing_def by blast

lemma store_publishing:
  assumes inv: "page_inv mem0 y" and todo: "sy_todo y = st # sts" and pub: "publishing y"
  shows "page_inv mem0 (store_effect st (y\<lparr>sy_todo := sts\<rparr>))"
  using pub todo
proof (cases rule: publishing_cases)
  case (first bs ep q s)
  let ?y = "store_effect (64, q + 1) (y\<lparr>sy_todo := sts\<rparr>)"
  have hdr: "header_ok (sy_mem y)" using pub by (simp add: publishing_def)
  have "header_ok (sy_mem ?y)" using hdr by (simp add: header_ok_def store_word_def)
  then have "todo_ok ?y"
    by (rule publishingI [of _ bs ep q s]) (use first todo in \<open>simp_all add: store_word_def\<close>)
  moreover have "unat (q + 1 - sy_mem y 64) \<in> {1, 2}" using first(7) by auto
  moreover have "seq_stores sts = 1" using first by (simp add: body_seq_stores quiet_seq_stores)
  ultimately show ?thesis unfolding first(1)
    by (intro store_seq) (use inv todo first hdr in \<open>auto simp: moves_left_def\<close>)
next
  case (body bs ep q s)
  let ?y = "store_effect st (y\<lparr>sy_todo := sts\<rparr>)"
  have hdr: "header_ok (sy_mem y)" using pub by (simp add: publishing_def)
  have ne: "fst st \<noteq> 64" "fst st \<noteq> 0" "fst st \<noteq> 8" using body_offsets_range [OF body(1)] by auto
  then have "header_ok (sy_mem ?y)" using hdr by (simp add: header_ok_def store_word_def)
  then have "todo_ok ?y"
    by (rule publishingI [of _ bs ep q s]) (use body todo ne in \<open>simp_all add: store_word_def\<close>)
  then show ?thesis by (intro store_body) (use inv todo body in auto)
next
  case (final q s)
  let ?y = "store_effect (64, q + 2) (y\<lparr>sy_todo := sts\<rparr>)"
  have hdr: "header_ok (sy_mem y)" using pub by (simp add: publishing_def)
  have "off \<notin> fst ` set (sy_todo y)" if "off \<in> set body_offsets" for off
    using that final(1,3) todo body_offsets_range [OF that] quiet_not_seq by (fastforce simp: list_all_iff)
  then have "\<forall>off \<in> set body_offsets. sy_mem y off = snapshot_word s off"
    using final(6) run_stores_other by metis
  moreover have "todo_ok ?y" using final(3) by (simp add: todo_ok_def)
  moreover have "unat (q + 2 - sy_mem y 64) = 1" using final(5) by simp
  moreover have "seq_stores sts = 0" using final by (simp add: quiet_seq_stores)
  ultimately show ?thesis unfolding final(1)
    by (intro store_seq) (use inv todo final hdr in \<open>auto simp: moves_left_def\<close>)
qed

subsection \<open>The other steps\<close>

lemma resume_stores_quiet: "list_all quiet (map (\<lambda>off. (off, fresh_word off)) (header_order 8 16 shrinks))"
  by (simp add: header_order_eq quiet_def)

lemma resume_header_ok: "header_ok (run_stores mem (map (\<lambda>off. (off, fresh_word off)) (header_order 8 16 shrinks)))"
  unfolding run_stores_map by (simp add: header_ok_def header_order_eq fresh_words)

lemma step_open_page:
  assumes inv: "page_inv mem0 y" and w: "sy_writer y = None" and res: "Resume (sy_mem y) w = Inr (w', sts)"
  shows "page_inv mem0 (y\<lparr>sy_writer := Some w', sy_todo := sts\<rparr>)"
proof -
  let ?m = "sy_mem y"
  obtain shrinks where sts: "sts = map (\<lambda>off. (off, fresh_word off)) (header_order 8 16 shrinks)"
    and w': "pw_resumed w'" "pw_seq w' = (if header_ok ?m then (if odd (?m 64) then ?m 64 + 1 else ?m 64) else 0)"
    using res unfolding Resume_eq by auto
  have idle: "sy_todo y = []" using inv w by (simp add: page_inv_def writer_ok_def)
  have "64 \<notin> set (header_order 8 16 shrinks)" by (simp add: header_order_eq)
  then have seq: "run_stores ?m sts 64 = ?m 64" by (simp add: sts run_stores_map)
  have "header_ok ?m \<or> ?m 64 = 0" using inv unfolding page_inv_def mem_ok_def by blast
  then have "even (pw_seq w')" "?m 64 \<in> {pw_seq w', pw_seq w' - 1}" using w'(2) by auto
  then have "writer_ok (y\<lparr>sy_writer := Some w', sy_todo := sts\<rparr>)"
    using w'(1) resume_header_ok seq unfolding sts by (simp add: writer_ok_def)
  moreover have "todo_ok (y\<lparr>sy_writer := Some w', sy_todo := sts\<rparr>)"
    using resume_stores_quiet by (simp add: todo_ok_def sts)
  moreover have "moves_left sts = 0" "moves_left (sy_todo y) = 0"
    using resume_stores_quiet idle by (simp_all add: moves_left_def sts quiet_seq_stores)
  then have "reader_ok (y\<lparr>sy_writer := Some w', sy_todo := sts\<rparr>) = reader_ok y"
    by (simp add: reader_ok_def)
  moreover have "mem_ok mem0 (y\<lparr>sy_writer := Some w', sy_todo := sts\<rparr>) = mem_ok mem0 y"
    by (simp add: mem_ok_def current_word_def)
  ultimately show ?thesis using inv by (simp add: page_inv_def)
qed

lemma step_publish:
  assumes inv: "page_inv mem0 y" and w: "sy_writer y = Some w" and idle: "sy_todo y = []"
    and pub: "Publish w s = Inr (w', sts)"
  shows "page_inv mem0 (y\<lparr>sy_writer := Some w', sy_todo := sts, sy_next := Some s, sy_pubs := sy_pubs y + 1\<rparr>)"
proof -
  let ?y = "y\<lparr>sy_writer := Some w', sy_todo := sts, sy_next := Some s, sy_pubs := sy_pubs y + 1\<rparr>"
  obtain p ep where p: "EncodePage (replicate PageSize 0) s = Inr p"
    and w': "pw_resumed w'" "pw_seq w' = pw_seq w + 2"
    and sts: "sts = (64, pw_seq w + 1) # map (\<lambda>off. (off, word_at p off)) body_offsets @ (64, pw_seq w + 2) # ep"
    and ep: "ep = (if \<not> pw_hasLast w \<or> notifyKeyOf s \<noteq> pw_last w then [(128, pw_epoch w + 1)] else [])"
    by (rule Publish_InrD [OF pub]) simp
  from inv w idle have ok: "header_ok (sy_mem y)" "even (pw_seq w)" "sy_mem y 64 \<in> {pw_seq w, pw_seq w - 1}"
    by (simp_all add: page_inv_def writer_ok_def)
  note run = run_publish [OF sts ep, of "sy_mem y"]
  have quiet: "list_all quiet ep" by (simp add: ep quiet_def)
  have "writer_ok ?y" using ok w' by (simp add: writer_ok_def run header_ok_def)
  moreover have "todo_ok ?y"
    by (rule publishing_firstI [of _ "map (\<lambda>off. (off, word_at p off)) body_offsets" ep "pw_seq w" s])
      (use ok quiet sts p run in \<open>simp_all add: snapshot_word_def\<close>)
  moreover have "moves_left sts = 3" "moves_left (sy_todo y) = 0"
    using quiet body_seq_stores [of "map (\<lambda>off. (off, word_at p off)) body_offsets"]
    by (simp_all add: moves_left_def sts idle quiet_seq_stores)
  then have "reader_ok ?y" using inv by (auto simp: page_inv_def reader_ok_def Suc_diff_le)
  moreover have "mem_ok mem0 ?y" using inv p by (auto simp: page_inv_def mem_ok_def current_word_def)
  ultimately show ?thesis by (simp add: page_inv_def)
qed

lemma step_die: "page_inv mem0 y \<Longrightarrow> page_inv mem0 (y\<lparr>sy_writer := None, sy_todo := []\<rparr>)"
  by (auto simp: page_inv_def mem_ok_def writer_ok_def todo_ok_def reader_ok_def current_word_def moves_left_def)

lemma ok_reader [simp]:
  "mem_ok mem0 (y\<lparr>sy_reader := r\<rparr>) = mem_ok mem0 y" "writer_ok (y\<lparr>sy_reader := r\<rparr>) = writer_ok y"
  "todo_ok (y\<lparr>sy_reader := r\<rparr>) = todo_ok y"
  by (simp_all add: todo_ok_def publishing_def mem_ok_def writer_ok_def current_word_def split: option.split)

lemma moves_left_le: "todo_ok y \<Longrightarrow> moves_left (sy_todo y) \<le> 3"
  by (auto simp: todo_ok_def publishing_def moves_left_def quiet_seq_stores body_seq_stores)

lemma step_readers:
  assumes "page_inv mem0 y"
  shows "even (sy_mem y 64) \<Longrightarrow> page_inv mem0 (y\<lparr>sy_reader := Some \<lparr>rd_seq = sy_mem y 64, rd_copy = Map.empty,
      rd_moves = sy_moves y, rd_pubs = sy_pubs y\<rparr>\<rparr>)"
    and "sy_reader y = Some r \<Longrightarrow> off \<in> set body_offsets \<Longrightarrow>
      page_inv mem0 (y\<lparr>sy_reader := Some (r\<lparr>rd_copy := (rd_copy r)(off \<mapsto> sy_mem y off)\<rparr>)\<rparr>)"
    and "page_inv mem0 (y\<lparr>sy_reader := None\<rparr>)"
proof -
  have seq: "sy_mem y 64 = word_of_nat (sy_moves y)" and "moves_left (sy_todo y) \<le> 3"
    using assms moves_left_le [of y] unfolding page_inv_def mem_ok_def by blast+
  then show "even (sy_mem y 64) \<Longrightarrow> page_inv mem0 (y\<lparr>sy_reader := Some \<lparr>rd_seq = sy_mem y 64, rd_copy = Map.empty,
      rd_moves = sy_moves y, rd_pubs = sy_pubs y\<rparr>\<rparr>)"
    using assms unfolding page_inv_def by (simp add: reader_ok_def)
  show "sy_reader y = Some r \<Longrightarrow> off \<in> set body_offsets \<Longrightarrow>
      page_inv mem0 (y\<lparr>sy_reader := Some (r\<lparr>rd_copy := (rd_copy r)(off \<mapsto> sy_mem y off)\<rparr>)\<rparr>)"
    using assms unfolding page_inv_def by (auto simp: reader_ok_def)
  show "page_inv mem0 (y\<lparr>sy_reader := None\<rparr>)"
    using assms unfolding page_inv_def by (simp add: reader_ok_def)
qed

lemma page_step_inv:
  assumes "page_step y y'" "page_inv mem0 y"
  shows "page_inv mem0 y'"
  using assms
proof (induction rule: page_step.induct)
  case (store y st sts)
  then have "todo_ok y" by (simp add: page_inv_def)
  then show ?case unfolding todo_ok_def
    using store store_quiet [OF store.prems store.hyps] store_publishing [OF store.prems store.hyps] by auto
next
  case (publish y w s w' sts)
  then show ?case by (intro step_publish)
qed (simp_all add: step_open_page step_die step_readers PageSeqOffset_def)

definition page_reach :: "page_mem \<Rightarrow> page_system \<Rightarrow> bool" where
  "page_reach mem0 y \<longleftrightarrow> page_step\<^sup>*\<^sup>* (page_start mem0) y"

lemma page_reach_inv:
  assumes "page_reach mem0 y" "header_ok mem0 \<or> mem0 PageSeqOffset = 0"
  shows "page_inv mem0 y"
  using assms(1) unfolding page_reach_def
proof (induction rule: rtranclp_induct)
  case base
  show ?case using assms(2)
    by (simp add: page_inv_def page_start_def mem_ok_def writer_ok_def todo_ok_def reader_ok_def
        current_word_def PageSeqOffset_def)
qed (rule page_step_inv)

section \<open>Runs\<close>

lemma drain:
  "\<exists>y'. page_step\<^sup>*\<^sup>* y y' \<and> sy_mem y' = run_stores (sy_mem y) (sy_todo y) \<and> sy_todo y' = [] \<and>
     sy_writer y' = sy_writer y"
proof (induction "sy_todo y" arbitrary: y)
  case Nil
  then show ?case by (intro exI [of _ y]) simp
next
  case (Cons st sts)
  let ?y = "store_effect st (y\<lparr>sy_todo := sts\<rparr>)"
  have "page_step y ?y" by (rule page_step.store) (simp add: Cons.hyps(2) [symmetric])
  moreover obtain y' where "page_step\<^sup>*\<^sup>* ?y y'" "sy_mem y' = run_stores (sy_mem ?y) (sy_todo ?y)"
    "sy_todo y' = []" "sy_writer y' = sy_writer ?y"
    using Cons.hyps(1) [of ?y] by auto
  ultimately show ?case
    by (intro exI [of _ y']) (auto simp: Cons.hyps(2) [symmetric] intro: converse_rtranclp_into_rtranclp)
qed

lemma copy_words:
  assumes "sy_reader y = Some r" "set offs \<subseteq> set body_offsets"
  shows "\<exists>y' r'. page_step\<^sup>*\<^sup>* y y' \<and> sy_mem y' = sy_mem y \<and> sy_reader y' = Some r' \<and> rd_seq r' = rd_seq r \<and>
    sy_pubs y' = sy_pubs y \<and> rd_pubs r' = rd_pubs r \<and>
    (\<forall>off \<in> set offs. rd_copy r' off = Some (sy_mem y off)) \<and>
    (\<forall>off. off \<notin> set offs \<longrightarrow> rd_copy r' off = rd_copy r off)"
  using assms
proof (induction offs arbitrary: y r)
  case Nil
  then show ?case by (intro exI [of _ y] exI [of _ r]) simp
next
  case (Cons off offs)
  let ?r = "r\<lparr>rd_copy := (rd_copy r)(off \<mapsto> sy_mem y off)\<rparr>"
  let ?y = "y\<lparr>sy_reader := Some ?r\<rparr>"
  have "page_step y ?y" using Cons.prems by (intro page_step.read_word) auto
  moreover obtain y' r' where "page_step\<^sup>*\<^sup>* ?y y'" "sy_mem y' = sy_mem ?y" "sy_reader y' = Some r'"
    "rd_seq r' = rd_seq ?r" "sy_pubs y' = sy_pubs ?y" "rd_pubs r' = rd_pubs ?r" "\<forall>off \<in> set offs. rd_copy r' off = Some (sy_mem ?y off)"
    "\<forall>off. off \<notin> set offs \<longrightarrow> rd_copy r' off = rd_copy ?r off"
    using Cons.IH [of ?y ?r] Cons.prems(2) by auto
  ultimately show ?case
    by (intro exI [of _ y'] exI [of _ r']) (auto intro: converse_rtranclp_into_rtranclp)
qed

lemma read_alone:
  assumes "even (sy_mem y 64)"
  shows "\<exists>y' r. page_step\<^sup>*\<^sup>* y y' \<and> sy_mem y' = sy_mem y \<and> stable_read y' r \<and> sy_pubs y' = rd_pubs r \<and>
    (\<forall>off \<in> set body_offsets. rd_copy r off = Some (sy_mem y off))"
proof -
  let ?r = "\<lparr>rd_seq = sy_mem y 64, rd_copy = Map.empty, rd_moves = sy_moves y, rd_pubs = sy_pubs y\<rparr>"
  let ?y = "y\<lparr>sy_reader := Some ?r\<rparr>"
  have "page_step y ?y" using page_step.read_start [of y] assms by (simp add: PageSeqOffset_def)
  moreover obtain y' r where "page_step\<^sup>*\<^sup>* ?y y'" "sy_mem y' = sy_mem ?y" "sy_reader y' = Some r" "rd_seq r = rd_seq ?r"
    "sy_pubs y' = sy_pubs ?y" "rd_pubs r = rd_pubs ?r"
    "\<forall>off \<in> set body_offsets. rd_copy r off = Some (sy_mem ?y off)"
    using copy_words [of ?y ?r body_offsets] by auto
  ultimately show ?thesis
    by (intro exI [of _ y'] exI [of _ r])
      (auto simp: stable_read_def PageSeqOffset_def intro: converse_rtranclp_into_rtranclp)
qed

lemma stable_read_current:
  assumes inv: "page_inv mem0 y" and st: "stable_read y r" and few: "sy_pubs y - rd_pubs r < 2 ^ 62"
    and off: "off \<in> set body_offsets"
  shows "rd_copy r off = Some (current_word mem0 y off)"
proof -
  from inv st have r: "even (rd_seq r)" "rd_seq r = word_of_nat (rd_moves r)" "rd_moves r \<le> sy_moves y"
    "sy_moves y + moves_left (sy_todo y) \<le> rd_moves r + 3 * (sy_pubs y - rd_pubs r + 1)"
    and copy: "rd_moves r = sy_moves y \<longrightarrow>
      (\<forall>off v. rd_copy r off = Some v \<longrightarrow> off \<in> set body_offsets \<and> v = sy_mem y off)"
    unfolding page_inv_def reader_ok_def stable_read_def by blast+
  have m: "sy_mem y 64 = word_of_nat (sy_moves y)"
    and body: "even (sy_mem y 64) \<longrightarrow> (\<forall>off \<in> set body_offsets. sy_mem y off = current_word mem0 y off)"
    using inv unfolding page_inv_def mem_ok_def by blast+
  have same: "sy_mem y 64 = rd_seq r" and full: "rd_copy r off \<noteq> None"
    using st off by (simp_all add: stable_read_def PageSeqOffset_def)
  have "(word_of_nat (sy_moves y - rd_moves r) :: uint64) = 0"
    using same m r(2,3) by (simp add: of_nat_diff)
  then have "2 ^ 64 dvd sy_moves y - rd_moves r" by (simp add: word_of_nat_eq_0_iff)
  moreover have "sy_moves y - rd_moves r < 2 ^ 64" using r(4) few by simp
  ultimately have "sy_moves y - rd_moves r = 0" using nat_dvd_not_less by blast
  with r(3) copy full same r(1) body off show ?thesis by auto
qed

lemma publish_result:
  assumes "Publish w s = Inr (w', sts)" "EncodePage (replicate PageSize 0) s = Inr p" "even (pw_seq w)"
  shows "even (run_stores mem sts 64) \<and> (\<forall>off \<in> set body_offsets. run_stores mem sts off = word_at p off)"
proof -
  obtain p' ep where "EncodePage (replicate PageSize 0) s = Inr p'"
    and sts: "sts = (64, pw_seq w + 1) # map (\<lambda>off. (off, word_at p' off)) body_offsets @ (64, pw_seq w + 2) # ep"
    and ep: "ep = (if \<not> pw_hasLast w \<or> notifyKeyOf s \<noteq> pw_last w then [(128, pw_epoch w + 1)] else [])"
    by (rule Publish_InrD [OF assms(1)])
  with assms(2,3) show ?thesis unfolding run_publish [OF sts ep] by simp
qed

lemma recovers_run:
  assumes "EncodePage (replicate PageSize 0) s = Inr p"
  shows "\<exists>y' r. page_step\<^sup>*\<^sup>* y y' \<and> stable_read y' r \<and> sy_pubs y' = rd_pubs r \<and>
    (\<forall>off \<in> set body_offsets. rd_copy r off = Some (word_at p off))"
proof -
  let ?dead = "y\<lparr>sy_writer := None, sy_todo := []\<rparr>"
  obtain w where w: "NewPageWriter PageSize 0 True = Inr w" by (simp add: NewPageWriter_def)
  obtain w1 sts where res: "Resume (sy_mem ?dead) w = Inr (w1, sts)" "pw_resumed w1" "even (pw_seq w1)"
    by (simp add: Resume_eq)
  let ?open = "?dead\<lparr>sy_writer := Some w1, sy_todo := sts\<rparr>"
  have "page_step y ?dead" by (rule page_step.die)
  moreover have "page_step ?dead ?open" using w res(1) by (intro page_step.open_page) auto
  moreover obtain y1 where y1: "page_step\<^sup>*\<^sup>* ?open y1" "sy_todo y1 = []" "sy_writer y1 = Some w1"
    using drain [of ?open] by auto
  obtain w2 sts' where pub: "Publish w1 s = Inr (w2, sts')"
    using Publish_ok_iff [of w1 s] res(2) assms by auto
  let ?pub = "y1\<lparr>sy_writer := Some w2, sy_todo := sts', sy_next := Some s, sy_pubs := sy_pubs y1 + 1\<rparr>"
  have "page_step y1 ?pub" by (rule page_step.publish [OF y1(3,2) pub])
  moreover obtain y2 where y2: "page_step\<^sup>*\<^sup>* ?pub y2" "sy_mem y2 = run_stores (sy_mem y1) sts'"
    using drain [of ?pub] by auto
  have "even (sy_mem y2 64) \<and> (\<forall>off \<in> set body_offsets. sy_mem y2 off = word_at p off)"
    using publish_result [OF pub assms res(3)] y2(2) by simp
  moreover from this read_alone [of y2] obtain y' r where "page_step\<^sup>*\<^sup>* y2 y'" "stable_read y' r" "sy_pubs y' = rd_pubs r"
    "\<forall>off \<in> set body_offsets. rd_copy r off = Some (sy_mem y2 off)" by auto
  ultimately show ?thesis using y1(1) y2(1)
    by (intro exI [of _ y'] exI [of _ r]) (auto intro: converse_rtranclp_into_rtranclp rtranclp_trans)
qed

section \<open>Properties\<close>

text \<open>(C1) The seqlock is safe. In every run of the writer's stores, with the writer dying and being
  replaced at any point and fewer than \<open>2 ^ 62\<close> publications during one read, a stable read (the
  same even \<open>seq\<close> before and after the copy) holds the body of exactly one publication, the last
  one completed, or the body the page had at the start if there is none; and then each word
  field of the copy is the field's value in that one snapshot. The page starts as one of this
  ABI major, with any \<open>seq\<close>, or with \<open>seq\<close> 0, as a new file has it.\<close>

theorem seqlock_safe:
  assumes "page_reach mem0 y" "header_ok mem0 \<or> mem0 PageSeqOffset = 0"
    and "stable_read y r" "sy_pubs y - rd_pubs r < 2 ^ 62"
  shows "(\<forall>off \<in> set body_offsets. rd_copy r off = Some (current_word mem0 y off)) \<and>
    (\<forall>s f get. sy_current y = Some s \<and> f \<in> set pageLayout \<and> pf_get f = Some get \<and>
       pf_kind f \<in> {kindU64, kindI64} \<and> PageHeaderSize \<le> pf_offset f \<longrightarrow>
       rd_copy r (pf_offset f) = Some (fst (get s)))"
proof -
  have inv: "page_inv mem0 y" by (rule page_reach_inv [OF assms(1,2)])
  note copy = stable_read_current [OF inv assms(3,4)]
  moreover have "current_word mem0 y (pf_offset f) = fst (get s)"
    if cur: "sy_current y = Some s"
      and f: "f \<in> set pageLayout" "pf_get f = Some get" "pf_kind f \<in> {kindU64, kindI64}" for s f get
  proof -
    obtain p where p: "EncodePage (replicate PageSize 0) s = Inr p"
      using inv cur unfolding page_inv_def mem_ok_def by blast
    from EncodePage_word(2) [OF p f] cur p show ?thesis
      by (simp add: current_word_def snapshot_word_def word_at_def)
  qed
  ultimately show ?thesis using word_offset_in_body by (simp add: PageHeaderSize_def)
qed

theorem seqlock_safe_witness:
  "\<exists>y r. page_reach (\<lambda>_. 0) y \<and> stable_read y r \<and> rd_copy r 192 = Some (current_word (\<lambda>_. 0) y 192)"
proof -
  obtain p where "EncodePage (replicate PageSize 0) sample_snapshot = Inr p"
    using sample_page by (auto simp: sample_snapshot_def)
  from recovers_run [OF this, of "page_start (\<lambda>_. 0)"] obtain y r
    where y: "page_reach (\<lambda>_. 0) y" "stable_read y r" "sy_pubs y = rd_pubs r" by (auto simp: page_reach_def)
  have "192 \<in> set body_offsets" by (simp add: body_offsets_eq image_iff)
  with seqlock_safe [OF y(1) _ y(2)] y show ?thesis by auto
qed



end
