(* ===== verification/Cloning.thy ===== *)
theory Cloning
  imports Prelude "HOL-Library.State_Monad"
begin

text \<open>
  Copying code (\<open>clonePtr\<close> and \<open>cloneSlice\<close> of \<open>budget/v1alpha1/validate.go\<close>, and the
  shape every \<open>DeepCopyInto\<close> is built from). An allocation takes the next address from a
  counter threaded through a state monad, so a copy is a computation
  \<^typ>\<open>(addr, 'a) state\<close>.

  The contract of a deep copy is the locale \<open>deep_copier\<close>: apart from addresses the copy
  equals the original (\<open>strip\<close> forgets addresses), and the addresses the copy holds are
  exactly those allocated during the copy, each once. So no memory is shared with anything
  that existed before, and no two fields of the copy alias. Copies of pointers and of slices
  to copied elements meet the contract again (\<open>ptr_copier\<close>, \<open>slice_copier\<close>).
\<close>

section \<open>Allocation\<close>

definition fresh :: "(addr, addr) state" where
  "fresh = State (\<lambda>n. (n, Suc n))"

primrec mapM_state :: "('a \<Rightarrow> ('s, 'b) state) \<Rightarrow> 'a list \<Rightarrow> ('s, 'b list) state" where
  "mapM_state f [] = State_Monad.return []"
| "mapM_state f (x # xs) = do { y \<leftarrow> f x; ys \<leftarrow> mapM_state f xs; State_Monad.return (y # ys) }"

text \<open>\<open>if p != nil { out = new(T); p.DeepCopyInto(out) }\<close>, and the loop over a slice.\<close>

definition copyPtr :: "('a \<Rightarrow> (addr, 'a) state) \<Rightarrow> 'a ptr \<Rightarrow> (addr, 'a ptr) state" where
  "copyPtr copy p =
     (case p of
        NilP \<Rightarrow> State_Monad.return NilP
      | Ptr _ v \<Rightarrow> do { a \<leftarrow> fresh; w \<leftarrow> copy v; State_Monad.return (Ptr a w) })"

definition copySlice :: "('a \<Rightarrow> (addr, 'a) state) \<Rightarrow> 'a slice \<Rightarrow> (addr, 'a slice) state" where
  "copySlice copy s =
     (case s of
        NilP \<Rightarrow> State_Monad.return NilP
      | Ptr _ xs \<Rightarrow> do { a \<leftarrow> fresh; ys \<leftarrow> mapM_state copy xs; State_Monad.return (Ptr a ys) })"

definition clonePtr :: "'a ptr \<Rightarrow> (addr, 'a ptr) state" where
  "clonePtr p =
     (case p of
        NilP \<Rightarrow> State_Monad.return NilP
      | Ptr _ v \<Rightarrow> do { a \<leftarrow> fresh; State_Monad.return (Ptr a v) })"

definition cloneSlice :: "'a slice \<Rightarrow> (addr, 'a slice) state" where
  "cloneSlice s =
     (case s of
        NilP \<Rightarrow> State_Monad.return NilP
      | Ptr _ xs \<Rightarrow> do { a \<leftarrow> fresh; State_Monad.return (Ptr a xs) })"


section \<open>Addresses and values\<close>

primrec strip_ptr :: "('a \<Rightarrow> 'a) \<Rightarrow> 'a ptr \<Rightarrow> 'a ptr" where
  "strip_ptr f NilP = NilP"
| "strip_ptr f (Ptr a v) = Ptr 0 (f v)"

primrec addrs_ptr :: "('a \<Rightarrow> addr list) \<Rightarrow> 'a ptr \<Rightarrow> addr list" where
  "addrs_ptr g NilP = []"
| "addrs_ptr g (Ptr a v) = a # g v"

abbreviation strip_leaf :: "'a ptr \<Rightarrow> 'a ptr" where
  "strip_leaf \<equiv> strip_ptr (\<lambda>v. v)"

abbreviation addrs_leaf :: "'a ptr \<Rightarrow> addr list" where
  "addrs_leaf \<equiv> addrs_ptr (\<lambda>_. [])"

abbreviation strip_slice :: "('a \<Rightarrow> 'a) \<Rightarrow> 'a slice \<Rightarrow> 'a slice" where
  "strip_slice f \<equiv> strip_ptr (map f)"

abbreviation addrs_slice :: "('a \<Rightarrow> addr list) \<Rightarrow> 'a slice \<Rightarrow> addr list" where
  "addrs_slice g \<equiv> addrs_ptr (\<lambda>xs. concat (map g xs))"

text \<open>\<open>copies pre m A Q\<close>: run after a computation that allocated \<open>pre\<close>, \<open>m\<close> yields a
  value that satisfies \<open>Q\<close> and whose addresses \<open>A\<close> are \<open>pre\<close> followed by those \<open>m\<close> allocates.\<close>

definition copies ::
  "addr list \<Rightarrow> (addr, 'a) state \<Rightarrow> ('a \<Rightarrow> addr list) \<Rightarrow> ('a \<Rightarrow> bool) \<Rightarrow> bool"
where
  "copies pre m A Q \<longleftrightarrow>
     (\<forall>k n. k \<le> n \<longrightarrow> pre = [k..<n] \<longrightarrow>
        (case run_state m n of (y, l) \<Rightarrow> n \<le> l \<and> A y = [k..<l] \<and> Q y))"

lemma copies_return: "A y = pre \<Longrightarrow> Q y \<Longrightarrow> copies pre (State_Monad.return y) A Q"
  by (simp add: copies_def)

lemma copiesD:
  "copies pre m A Q \<Longrightarrow> pre = [k..<n] \<Longrightarrow> k \<le> n \<Longrightarrow> run_state m n = (y, l) \<Longrightarrow>
   n \<le> l \<and> A y = [k..<l] \<and> Q y"
  by (simp only: copies_def) (fastforce dest: spec [of _ k])

lemma copiesI:
  assumes "\<And>k n y l. k \<le> n \<Longrightarrow> pre = [k..<n] \<Longrightarrow> run_state m n = (y, l) \<Longrightarrow>
    n \<le> l \<and> A y = [k..<l] \<and> Q y"
  shows "copies pre m A Q"
  unfolding copies_def
proof (intro allI impI)
  fix k n assume "k \<le> n" "pre = [k..<n]"
  from assms [OF this] show "case run_state m n of (y, l) \<Rightarrow> n \<le> l \<and> A y = [k..<l] \<and> Q y"
    by (cases "run_state m n") (simp only: prod.case)
qed

lemma copies_bind:
  assumes "copies [] m A Q" "\<And>x. Q x \<Longrightarrow> copies (pre @ A x) (f x) C R"
  shows "copies pre (m \<bind> f) C R"
proof (rule copiesI)
  fix k n y l assume kn: "k \<le> n" "pre = [k..<n]" and run: "run_state (m \<bind> f) n = (y, l)"
  obtain x i where m: "run_state m n = (x, i)" by (cases "run_state m n")
  from run m have f: "run_state (f x) i = (y, l)" by simp
  have x: "n \<le> i" "A x = [n..<i]" "Q x"
    using copiesD [OF assms(1) _ _ m, of n] by simp_all
  have "pre @ A x = [k..<i]"
    using upt_add_eq_append [of k n "i - n"] kn x(1) by (simp add: x(2))
  from copiesD [OF assms(2) [OF x(3)] this _ f] kn(1) x(1)
  show "n \<le> l \<and> C y = [k..<l] \<and> R y" by simp
qed

lemma copies_fresh: "copies [] fresh (\<lambda>a. [a]) (\<lambda>_. True)"
  by (simp add: copies_def fresh_def)

lemma copies_run:
  assumes "copies [] m A Q" "run_state m n = (y, l)"
  shows "n \<le> l" "A y = [n..<l]" "Q y"
  using copiesD [OF assms(1) _ _ assms(2), of n] by simp_all

section \<open>The contract of a deep copy\<close>

locale deep_copier =
  fixes copy :: "'a \<Rightarrow> (addr, 'a) state"
    and strip :: "'a \<Rightarrow> 'a"
    and addrs :: "'a \<Rightarrow> addr list"
  assumes copy_copies: "copies [] (copy x) addrs (\<lambda>y. strip y = strip x)"
begin

lemma copy_value: "run_state (copy x) n = (y, l) \<Longrightarrow> strip y = strip x"
  using copies_run [OF copy_copies] by blast

lemma copy_addrs: "run_state (copy x) n = (y, l) \<Longrightarrow> addrs y = [n..<l] \<and> n \<le> l"
  using copies_run [OF copy_copies] by blast

lemma copy_distinct: "run_state (copy x) n = (y, l) \<Longrightarrow> distinct (addrs y)"
  by (simp add: copy_addrs)

lemma copy_disjoint:
  "run_state (copy x) n = (y, l) \<Longrightarrow> \<forall>a \<in> set (addrs z). a < n \<Longrightarrow> set (addrs y) \<inter> set (addrs z) = {}"
  by (fastforce simp: copy_addrs)

lemma mapM_copies:
  "copies [] (mapM_state copy xs) (\<lambda>ys. concat (map addrs ys)) (\<lambda>ys. map strip ys = map strip xs)"
proof (induction xs)
  case Nil
  then show ?case by (auto intro: copies_return)
next
  case (Cons x xs)
  show ?case
    unfolding mapM_state.simps
    by (rule copies_bind [OF copy_copies], rule copies_bind [OF Cons.IH]) (auto intro: copies_return)
qed

lemma copyPtr_copies:
  "copies [] (copyPtr copy p) (addrs_ptr addrs) (\<lambda>q. strip_ptr strip q = strip_ptr strip p)"
proof (cases p)
  case (Ptr a v)
  show ?thesis
    unfolding copyPtr_def Ptr ptr.case
    by (rule copies_bind [OF copies_fresh], rule copies_bind [OF copy_copies])
      (auto intro: copies_return)
qed (auto simp: copyPtr_def intro: copies_return)

lemma copySlice_copies:
  "copies [] (copySlice copy s) (addrs_slice addrs) (\<lambda>t. strip_slice strip t = strip_slice strip s)"
proof (cases s)
  case (Ptr a xs)
  show ?thesis
    unfolding copySlice_def Ptr ptr.case
    by (rule copies_bind [OF copies_fresh], rule copies_bind [OF mapM_copies])
      (auto intro: copies_return)
qed (auto simp: copySlice_def intro: copies_return)

lemma ptr_copier: "deep_copier (copyPtr copy) (strip_ptr strip) (addrs_ptr addrs)"
  by unfold_locales (rule copyPtr_copies)

lemma slice_copier: "deep_copier (copySlice copy) (strip_slice strip) (addrs_slice addrs)"
  by unfold_locales (rule copySlice_copies)

end

interpretation clone_ptr: deep_copier clonePtr strip_leaf addrs_leaf
proof
  fix p :: "'a ptr"
  show "copies [] (clonePtr p) addrs_leaf (\<lambda>q. strip_leaf q = strip_leaf p)"
  proof (cases p)
    case (Ptr a v)
    show ?thesis
      unfolding clonePtr_def Ptr ptr.case
      by (rule copies_bind [OF copies_fresh]) (auto intro: copies_return)
  qed (auto simp: clonePtr_def intro: copies_return)
qed

interpretation clone_slice: deep_copier cloneSlice strip_leaf addrs_leaf
proof
  fix s :: "'a slice"
  have "cloneSlice s = clonePtr s"
    by (simp add: cloneSlice_def clonePtr_def)
  then show "copies [] (cloneSlice s) addrs_leaf (\<lambda>t. strip_leaf t = strip_leaf s)"
    by (simp add: clone_ptr.copy_copies)
qed

text \<open>Running a copy and looking through the addresses.\<close>

lemma deref_strip: "strip_leaf p = strip_leaf q \<Longrightarrow> deref p = deref q"
  by (cases p; cases q) auto

lemma deref_strip_leaf [simp]: "deref (strip_leaf p) = deref p"
  by (cases p) simp_all

lemma strip_ptr_Nil [simp]: "strip_ptr f p = NilP \<longleftrightarrow> p = NilP"
  by (cases p) simp_all

lemma deref_strip_ptr: "deref (strip_ptr f p) = map_option f (deref p)"
  by (cases p) simp_all

lemma els_strip_ptr: "els (strip_ptr (map f) s) = map f (els s)"
  by (cases s) simp_all

section \<open>Maps\<close>

text \<open>A Go map as its entries in iteration order; the keys of a map are distinct. A copy
  ranges over the entries and stores each into a new map.\<close>

type_synonym ('k, 'v) gomap = "('k \<times> 'v) list"

definition map_len :: "('k, 'v) gomap \<Rightarrow> nat" where
  "map_len m = length (remdups (map fst m))"

definition map_put :: "'k \<Rightarrow> 'v \<Rightarrow> ('k, 'v) gomap \<Rightarrow> ('k, 'v) gomap" where
  "map_put k v m =
     (if k \<in> fst ` set m then map (\<lambda>(j, w). if j = k then (j, v) else (j, w)) m else m @ [(k, v)])"

definition range_copy :: "('k, 'v) gomap \<Rightarrow> ('k, 'v) gomap" where
  "range_copy m = foldl (\<lambda>acc (k, v). map_put k v acc) [] m"

definition copyMap :: "('k, 'v) gomap ptr \<Rightarrow> (addr, ('k, 'v) gomap ptr) state" where
  "copyMap p =
     (case p of
        NilP \<Rightarrow> State_Monad.return NilP
      | Ptr _ m \<Rightarrow> do { a \<leftarrow> fresh; State_Monad.return (Ptr a (range_copy m)) })"

lemma range_copy_distinct_acc:
  "distinct (map fst (acc @ m)) \<Longrightarrow> foldl (\<lambda>acc (k, v). map_put k v acc) acc m = acc @ m"
proof (induction m arbitrary: acc)
  case (Cons e m)
  obtain k v where e: "e = (k, v)" by (cases e)
  from Cons.prems e have "map_put k v acc = acc @ [(k, v)]" by (auto simp: map_put_def)
  with Cons.IH [of "acc @ [(k, v)]"] Cons.prems e show ?case by simp
qed simp

lemma range_copy_id: "distinct (map fst m) \<Longrightarrow> range_copy m = m"
  using range_copy_distinct_acc [of "[]" m] by (simp add: range_copy_def)

lemma map_put_keys:
  "map fst (map_put k v m) = (if k \<in> set (map fst m) then map fst m else map fst m @ [k])"
proof -
  have "map fst (map (\<lambda>(j, w). if j = k then (j, v) else (j, w)) m) = map fst m"
    by (induction m) auto
  then show ?thesis by (simp add: map_put_def)
qed

lemma map_put_distinct: "distinct (map fst m) \<Longrightarrow> distinct (map fst (map_put k v m))"
  by (simp only: map_put_keys) simp

lemma range_copy_distinct: "distinct (map fst (range_copy m))"
proof -
  have "distinct (map fst acc) \<Longrightarrow> distinct (map fst (foldl (\<lambda>acc (k, v). map_put k v acc) acc m))" for acc
    by (induction m arbitrary: acc) (auto simp: map_put_distinct split: prod.split)
  from this [of "[]"] show ?thesis by (simp add: range_copy_def)
qed

lemma map_put_set: "set (map fst (map_put k v m)) = insert k (set (map fst m))"
  by (simp only: map_put_keys) auto

lemma range_copy_keys: "set (map fst (range_copy m)) = set (map fst m)"
proof -
  have "set (map fst (foldl (\<lambda>acc (k, v). map_put k v acc) acc m)) =
      set (map fst acc) \<union> set (map fst m)" for acc
  proof (induction m arbitrary: acc)
    case (Cons e m)
    obtain k v where "e = (k, v)" by (cases e)
    then show ?case
      by (simp only: foldl.simps prod.case Cons map_put_set list.map list.set fst_conv) blast
  qed simp
  from this [of "[]"] show ?thesis by (simp add: range_copy_def)
qed

lemma map_len_range_copy [simp]: "map_len (range_copy m) = map_len m"
  by (simp only: map_len_def length_remdups_card_conv range_copy_keys)

abbreviation strip_map :: "('k, 'v) gomap ptr \<Rightarrow> ('k, 'v) gomap ptr" where
  "strip_map \<equiv> strip_ptr range_copy"

interpretation copy_map: deep_copier copyMap strip_map addrs_leaf
proof
  fix p :: "('a, 'b) gomap ptr"
  show "copies [] (copyMap p) addrs_leaf (\<lambda>q. strip_map q = strip_map p)"
  proof (cases p)
    case (Ptr a m)
    show ?thesis
      unfolding copyMap_def Ptr ptr.case
      by (rule copies_bind [OF copies_fresh])
        (auto intro: copies_return simp: range_copy_id range_copy_distinct)
  qed (auto simp: copyMap_def intro: copies_return)
qed


section \<open>Type metadata\<close>

text \<open>\<open>metav1.TypeMeta\<close>, carried by every served object; it holds no pointer.\<close>

record TypeMeta =
  tm_Kind :: string
  tm_APIVersion :: string


section \<open>Objects\<close>

text \<open>\<open>DeepCopyObject\<close>: a nil copy becomes a nil interface.\<close>

definition as_object :: "(addr, 'a ptr) state \<Rightarrow> (addr, 'a ptr) state" where
  "as_object copied = do { c \<leftarrow> copied; if c \<noteq> NilP then State_Monad.return c else State_Monad.return NilP }"

lemma as_object_same [simp]: "as_object m = m"
  by (rule state_ext) (auto simp: as_object_def split: prod.split)

lemma els_strip_leaf [simp]: "els (strip_leaf s) = els s"
  by (cases s) simp_all

lemma pointer_copy_isolated:
  assumes "deep_copier copy strip addrs" "run_state (copyPtr copy p) n = (q, l)"
    and "\<forall>a \<in> set (addrs_ptr addrs p). a < n"
  shows "strip_ptr strip q = strip_ptr strip p \<and> distinct (addrs_ptr addrs q) \<and>
    set (addrs_ptr addrs q) \<inter> set (addrs_ptr addrs p) = {} \<and> (q = NilP \<longleftrightarrow> p = NilP)"
proof -
  note pc = deep_copier.ptr_copier [OF assms(1)]
  have "strip_ptr strip q = strip_ptr strip p" by (rule deep_copier.copy_value [OF pc assms(2)])
  moreover from this have "q = NilP \<longleftrightarrow> p = NilP" by (metis strip_ptr_Nil)
  ultimately show ?thesis
    using deep_copier.copy_distinct [OF pc assms(2)] deep_copier.copy_disjoint [OF pc assms(2,3)] by blast
qed

end
