(* ===== verification/StableSort.thy ===== *)
theory StableSort
  imports Prelude "HOL-Library.Multiset"
begin

text \<open>
  \<open>sort.SliceStable\<close> with a \<open>less\<close> callback, as insertion sort. The contract the callers
  rely on is the locale \<open>weak_order\<close>: when the callback is a strict weak order, the result
  is a permutation in order, and elements the callback does not tell apart keep their order.
\<close>

primrec insert_stable :: "('a \<Rightarrow> 'a \<Rightarrow> bool) \<Rightarrow> 'a \<Rightarrow> 'a list \<Rightarrow> 'a list" where
  "insert_stable lt x [] = [x]"
| "insert_stable lt x (y # ys) =
     (if lt y x then y # insert_stable lt x ys else x # y # ys)"

definition SliceStable :: "('a \<Rightarrow> 'a \<Rightarrow> bool) \<Rightarrow> 'a list \<Rightarrow> 'a list" where
  "SliceStable lt xs = foldr (insert_stable lt) xs []"

lemma SliceStable_simps [simp]:
  "SliceStable lt [] = []"
  "SliceStable lt (x # xs) = insert_stable lt x (SliceStable lt xs)"
  by (simp_all add: SliceStable_def)

lemma mset_insert_stable [simp]: "mset (insert_stable lt x ys) = add_mset x (mset ys)"
  by (induction ys) auto

lemma mset_SliceStable [simp]: "mset (SliceStable lt xs) = mset xs"
  by (induction xs) auto

lemma set_SliceStable [simp]: "set (SliceStable lt xs) = set xs"
  by (metis mset_SliceStable set_mset_mset)

lemma length_SliceStable [simp]: "length (SliceStable lt xs) = length xs"
  by (metis mset_SliceStable size_mset)

lemma sorted_mset_unique:
  assumes "sorted_wrt P xs" "sorted_wrt P ys" "mset xs = mset ys"
    and "\<And>x y. x \<in> set xs \<Longrightarrow> y \<in> set xs \<Longrightarrow> P x y \<Longrightarrow> P y x \<Longrightarrow> x = y"
  shows "xs = ys"
  using assms
proof (induction xs arbitrary: ys)
  case (Cons x xs)
  obtain y zs where ys: "ys = y # zs" using Cons.prems(3) by (cases ys) auto
  have set: "insert x (set xs) = insert y (set zs)"
    using Cons.prems(3) ys by (metis list.simps(15) set_mset_mset)
  have "x = y"
  proof (rule ccontr)
    assume "x \<noteq> y"
    with set have "x \<in> set zs" "y \<in> set xs" by auto
    with Cons.prems(1,2) ys have "P x y" "P y x" by auto
    with Cons.prems(4) \<open>y \<in> set xs\<close> \<open>x \<noteq> y\<close> show False by auto
  qed
  moreover from this Cons.prems(3) ys have "mset xs = mset zs" by simp
  ultimately show ?case using Cons ys by auto
qed simp

locale weak_order =
  fixes lt :: "'a \<Rightarrow> 'a \<Rightarrow> bool"
  assumes asym: "lt x y \<Longrightarrow> \<not> lt y x"
    and negtrans: "lt x z \<Longrightarrow> lt x y \<or> lt y z"
begin

abbreviation (input) in_order :: "'a list \<Rightarrow> bool" where
  "in_order \<equiv> sorted_wrt (\<lambda>x y. \<not> lt y x)"

lemma insert_in_order: "in_order ys \<Longrightarrow> in_order (insert_stable lt x ys)"
proof (induction ys)
  case (Cons y ys)
  have *: "z \<in> set (insert_stable lt x ys) \<longleftrightarrow> z = x \<or> z \<in> set ys" for z
    by (metis insert_iff mset_insert_stable set_mset_add_mset_insert set_mset_mset)
  show ?case
  proof (cases "lt y x")
    case True
    with Cons * asym show ?thesis by auto
  next
    case False
    with Cons negtrans show ?thesis by fastforce
  qed
qed simp

lemma SliceStable_in_order: "in_order (SliceStable lt xs)"
  by (induction xs) (simp_all add: insert_in_order)

lemma insert_stable_class:
  "in_order ys \<Longrightarrow> \<forall>z. P z \<longrightarrow> \<not> lt z x \<and> \<not> lt x z \<Longrightarrow> P x \<Longrightarrow>
   filter P (insert_stable lt x ys) = x # filter P ys"
proof (induction ys)
  case (Cons y ys)
  then show ?case by (cases "P y") auto
qed simp

lemma insert_stable_other: "\<not> P x \<Longrightarrow> filter P (insert_stable lt x ys) = filter P ys"
  by (induction ys) auto

lemma SliceStable_stable:
  assumes "\<And>x y. P x \<Longrightarrow> P y \<Longrightarrow> \<not> lt x y"
  shows "filter P (SliceStable lt xs) = filter P xs"
proof (induction xs)
  case (Cons x xs)
  show ?case
  proof (cases "P x")
    case True
    with assms Cons insert_stable_class [OF SliceStable_in_order, of P x xs] show ?thesis by simp
  qed (simp add: insert_stable_other Cons)
qed simp

lemma SliceStable_head:
  "SliceStable lt xs = y # ys \<Longrightarrow> z \<in> set xs \<Longrightarrow> \<not> lt z y"
proof -
  assume s: "SliceStable lt xs = y # ys" and z: "z \<in> set xs"
  from s have set: "set xs = insert y (set ys)" by (metis list.simps(15) set_SliceStable)
  from s SliceStable_in_order [of xs] have "\<forall>u \<in> set ys. \<not> lt u y" by simp
  with z set asym [of y y] show ?thesis by auto
qed

end

end
