(* ===== verification/Policy.thy ===== *)
theory Policy
  imports Ladder Cloning StableSort
begin

text \<open>
  NodeBudgetPolicy (\<open>budget/v1alpha1/nodebudgetpolicy.go\<close>): its types, the validator,
  the floors a node applies to a policy, the selection of the policy that governs a node,
  and the deep copies the last two take.

  \<open>metav1.TypeMeta\<close> is the record of its two strings. \<open>metav1.ObjectMeta\<close> belongs to a
  package outside the repository: the model keeps the name, which the code reads, and
  leaves the rest a type parameter; its \<open>DeepCopyInto\<close> is the parameter \<open>copyMeta\<close>, of
  which the lemmas assume the contract \<open>deep_copier\<close>.
\<close>

definition MaxPolicyThresholds :: nat where [const_defs]: "MaxPolicyThresholds = 8"
definition MaxPolicyNodeSelectorLabels :: nat where
  [const_defs]: "MaxPolicyNodeSelectorLabels = 32"

section \<open>Types\<close>

record 'm ObjectMeta =
  om_Name :: string
  om_rest :: 'm

record SignalThresholds =
  th_Signal :: SignalID
  th_WarnThreshold :: "int64 ptr"
  th_AdmitStopThreshold :: "int64 ptr"
  th_CriticalThreshold :: "int64 ptr"
  th_EvictSoftThreshold :: "int64 ptr"
  th_EvictHardThreshold :: "int64 ptr"
  th_WarnRelease :: "int64 ptr"
  th_AdmitStopRelease :: "int64 ptr"
  th_CriticalRelease :: "int64 ptr"
  th_EvictSoftRelease :: "int64 ptr"
  th_EvictHardRelease :: "int64 ptr"
  th_GraceSeconds :: "int64 ptr"
  th_MinReclaimBytes :: "int64 ptr"
  th_DwellSeconds :: "int64 ptr"
  th_WindowSeconds :: "int64 ptr"

record BudgetReserves =
  rs_CPUSystemReserveMilli :: "int64 ptr"
  rs_MemSystemReserveBytes :: "int64 ptr"
  rs_MemEvictionReserveBytes :: "int64 ptr"

record BudgetHistory =
  hs_MemoryHalfLifeSeconds :: "int64 ptr"
  hs_CPUHalfLifeSeconds :: "int64 ptr"
  hs_MarginPermille :: "int32 ptr"

record NodeBudgetPolicySpec =
  sp_NodeSelector :: "(string, string) gomap ptr"
  sp_Priority :: int32
  sp_Thresholds :: "SignalThresholds slice"
  sp_Reserves :: "BudgetReserves ptr"
  sp_History :: "BudgetHistory ptr"
  sp_Mode :: KillModeName
  sp_Tier1GraceSeconds :: "int64 ptr"
  sp_Tier1HeldSeconds :: "int64 ptr"
  sp_Tier1MaxDeliveriesPerHour :: "int32 ptr"
  sp_Tier1CooloffSeconds :: "int64 ptr"
  sp_PSIHeldPermille :: "int32 ptr"

record 'm NodeBudgetPolicy =
  np_TypeMeta :: TypeMeta
  np_ObjectMeta :: "'m ObjectMeta"
  np_Spec :: NodeBudgetPolicySpec

definition SignalThresholds_rungs :: "SignalThresholds \<Rightarrow> int64 ptr list" where
  "SignalThresholds_rungs t = [th_WarnThreshold t, th_AdmitStopThreshold t, th_CriticalThreshold t,
     th_EvictSoftThreshold t, th_EvictHardThreshold t]"

definition SignalThresholds_releases :: "SignalThresholds \<Rightarrow> int64 ptr list" where
  "SignalThresholds_releases t = [th_WarnRelease t, th_AdmitStopRelease t, th_CriticalRelease t,
     th_EvictSoftRelease t, th_EvictHardRelease t]"

text \<open>The entries of a map that may be nil.\<close>

definition entries :: "('k, 'v) gomap ptr \<Rightarrow> ('k, 'v) gomap" where
  "entries p = (case deref p of None \<Rightarrow> [] | Some m \<Rightarrow> m)"


section \<open>Validation\<close>

datatype policy_err =
    TooManyLabels nat
  | TooManyThresholds nat
  | ThUnknownSignal nat string
  | ThRepeated nat string
  | ThLadder nat string ladder_err
  | ThField nat string field_err
  | PolField field_err
  | HalfLifeBelow1 string int
  | PolUnknownMode string
  | DeliveriesBelowMin int

definition SignalThresholds_checks :: "nat \<Rightarrow> bool \<Rightarrow> SignalThresholds \<Rightarrow> policy_err option" where
  "SignalThresholds_checks i seen t =
     first_err
       [fail_if (\<not> SignalID_Valid (th_Signal t)) (ThUnknownSignal i (th_Signal t)),
        fail_if seen (ThRepeated i (th_Signal t)),
        map_option (ThLadder i (th_Signal t))
          (checkLadder (th_Signal t) (SignalThresholds_rungs t) (SignalThresholds_releases t)),
        first_err (map (\<lambda>(name, v). map_option (ThField i (th_Signal t)) (nonNegative name v))
          [(''graceSeconds'', th_GraceSeconds t), (''dwellSeconds'', th_DwellSeconds t),
           (''windowSeconds'', th_WindowSeconds t)]),
        map_option (ThField i (th_Signal t)) (nonNegative ''minReclaimBytes'' (th_MinReclaimBytes t))]"

definition BudgetReserves_checks :: "BudgetReserves \<Rightarrow> policy_err option" where
  "BudgetReserves_checks r =
     first_err (map (\<lambda>(name, v). map_option PolField (nonNegative name v))
       [(''reserves.cpuSystemReserveMilli'', rs_CPUSystemReserveMilli r),
        (''reserves.memSystemReserveBytes'', rs_MemSystemReserveBytes r),
        (''reserves.memEvictionReserveBytes'', rs_MemEvictionReserveBytes r)])"

definition BudgetHistory_checks :: "BudgetHistory \<Rightarrow> policy_err option" where
  "BudgetHistory_checks h =
     first_err
       [first_err (map (\<lambda>(name, v).
            opt_err (\<lambda>x. fail_if (sint x < 1) (HalfLifeBelow1 name (sint x))) (deref v))
          [(''history.memoryHalfLifeSeconds'', hs_MemoryHalfLifeSeconds h),
           (''history.cpuHalfLifeSeconds'', hs_CPUHalfLifeSeconds h)]),
        map_option PolField (permille ''history.marginPermille'' (hs_MarginPermille h))]"

definition NodeBudgetPolicySpec_validate :: "NodeBudgetPolicySpec \<Rightarrow> policy_err option" where
  "NodeBudgetPolicySpec_validate s =
     first_err
       [fail_if (map_len (entries (sp_NodeSelector s)) > MaxPolicyNodeSelectorLabels)
          (TooManyLabels (map_len (entries (sp_NodeSelector s)))),
        fail_if (length (els (sp_Thresholds s)) > MaxPolicyThresholds)
          (TooManyThresholds (length (els (sp_Thresholds s)))),
        range_seen SignalThresholds_checks th_Signal [] 0 (els (sp_Thresholds s)),
        opt_err BudgetReserves_checks (deref (sp_Reserves s)),
        opt_err BudgetHistory_checks (deref (sp_History s)),
        fail_if (sp_Mode s \<noteq> '''' \<and> \<not> KillModeName_Valid (sp_Mode s)) (PolUnknownMode (sp_Mode s)),
        opt_err (\<lambda>v. fail_if (sint v < sint MinTier1DeliveriesPerHour) (DeliveriesBelowMin (sint v)))
          (deref (sp_Tier1MaxDeliveriesPerHour s)),
        map_option PolField (permille ''psiHeldPermille'' (sp_PSIHeldPermille s))]"

datatype policy_wrapped_err = ErrInvalidNodeBudgetPolicy policy_err

definition NodeBudgetPolicySpec_Validate :: "NodeBudgetPolicySpec \<Rightarrow> policy_wrapped_err option" where
  "NodeBudgetPolicySpec_Validate s =
     map_option ErrInvalidNodeBudgetPolicy (NodeBudgetPolicySpec_validate s)"

section \<open>What the validator decides\<close>

definition thresholds_wf :: "SignalThresholds \<Rightarrow> bool" where
  "thresholds_wf t \<longleftrightarrow> th_Signal t \<in> set Signals \<and>
     ladder_ok (th_Signal t) (SignalThresholds_rungs t) (SignalThresholds_releases t) \<and>
     (\<forall>v \<in> {th_GraceSeconds t, th_DwellSeconds t, th_WindowSeconds t, th_MinReclaimBytes t}. nonneg v)"

definition reserves_wf :: "BudgetReserves \<Rightarrow> bool" where
  "reserves_wf r \<longleftrightarrow>
     (\<forall>v \<in> {rs_CPUSystemReserveMilli r, rs_MemSystemReserveBytes r, rs_MemEvictionReserveBytes r}. nonneg v)"

definition history_wf :: "BudgetHistory \<Rightarrow> bool" where
  "history_wf h \<longleftrightarrow>
     (\<forall>p \<in> {hs_MemoryHalfLifeSeconds h, hs_CPUHalfLifeSeconds h}. \<forall>v. deref p = Some v \<longrightarrow> 1 \<le> sint v) \<and>
     in_permille (hs_MarginPermille h)"

definition spec_wf :: "NodeBudgetPolicySpec \<Rightarrow> bool" where
  "spec_wf s \<longleftrightarrow>
     map_len (entries (sp_NodeSelector s)) \<le> MaxPolicyNodeSelectorLabels \<and>
     length (els (sp_Thresholds s)) \<le> MaxPolicyThresholds \<and>
     (\<forall>t \<in> set (els (sp_Thresholds s)). thresholds_wf t) \<and>
     distinct (map th_Signal (els (sp_Thresholds s))) \<and>
     (\<forall>r. deref (sp_Reserves s) = Some r \<longrightarrow> reserves_wf r) \<and>
     (\<forall>h. deref (sp_History s) = Some h \<longrightarrow> history_wf h) \<and>
     (sp_Mode s = '''' \<or> KillModeName_Valid (sp_Mode s)) \<and>
     (\<forall>v. deref (sp_Tier1MaxDeliveriesPerHour s) = Some v \<longrightarrow> sint MinTier1DeliveriesPerHour \<le> sint v) \<and>
     in_permille (sp_PSIHeldPermille s)"

lemma SignalThresholds_checks_None:
  "SignalThresholds_checks i seen t = None \<longleftrightarrow> \<not> seen \<and> thresholds_wf t"
proof -
  have "checkLadder (th_Signal t) (SignalThresholds_rungs t) (SignalThresholds_releases t) = None \<longleftrightarrow>
      ladder_ok (th_Signal t) (SignalThresholds_rungs t) (SignalThresholds_releases t)"
    by (rule checkLadder_iff) (simp add: SignalThresholds_rungs_def SignalThresholds_releases_def)
  then show ?thesis
    unfolding SignalThresholds_checks_def thresholds_wf_def list.map prod.case check_simps Signals_def
      SignalID_Valid_iff
    by auto
qed

lemma BudgetReserves_checks_None: "BudgetReserves_checks r = None \<longleftrightarrow> reserves_wf r"
  by (auto simp: BudgetReserves_checks_def reserves_wf_def check_simps)

lemma BudgetHistory_checks_None: "BudgetHistory_checks h = None \<longleftrightarrow> history_wf h"
  unfolding BudgetHistory_checks_def history_wf_def list.map prod.case check_simps
  by (auto simp: not_less)

theorem NodeBudgetPolicySpec_validate_iff: "NodeBudgetPolicySpec_validate s = None \<longleftrightarrow> spec_wf s"
  unfolding NodeBudgetPolicySpec_validate_def spec_wf_def check_simps
    range_seen_start [OF SignalThresholds_checks_None] BudgetReserves_checks_None BudgetHistory_checks_None
  by (auto simp: not_less)


section \<open>Deep copies\<close>

definition SignalThresholds_DeepCopyInto :: "SignalThresholds \<Rightarrow> (addr, SignalThresholds) state" where
  "SignalThresholds_DeepCopyInto t = do {
     w \<leftarrow> clonePtr (th_WarnThreshold t);
     as \<leftarrow> clonePtr (th_AdmitStopThreshold t);
     c \<leftarrow> clonePtr (th_CriticalThreshold t);
     es \<leftarrow> clonePtr (th_EvictSoftThreshold t);
     eh \<leftarrow> clonePtr (th_EvictHardThreshold t);
     wr \<leftarrow> clonePtr (th_WarnRelease t);
     ar \<leftarrow> clonePtr (th_AdmitStopRelease t);
     cr \<leftarrow> clonePtr (th_CriticalRelease t);
     sr \<leftarrow> clonePtr (th_EvictSoftRelease t);
     hr \<leftarrow> clonePtr (th_EvictHardRelease t);
     g \<leftarrow> clonePtr (th_GraceSeconds t);
     mr \<leftarrow> clonePtr (th_MinReclaimBytes t);
     d \<leftarrow> clonePtr (th_DwellSeconds t);
     ws \<leftarrow> clonePtr (th_WindowSeconds t);
     State_Monad.return (t\<lparr>th_WarnThreshold := w, th_AdmitStopThreshold := as,
       th_CriticalThreshold := c, th_EvictSoftThreshold := es, th_EvictHardThreshold := eh,
       th_WarnRelease := wr, th_AdmitStopRelease := ar, th_CriticalRelease := cr,
       th_EvictSoftRelease := sr, th_EvictHardRelease := hr, th_GraceSeconds := g,
       th_MinReclaimBytes := mr, th_DwellSeconds := d, th_WindowSeconds := ws\<rparr>) }"

definition BudgetReserves_copy :: "BudgetReserves \<Rightarrow> (addr, BudgetReserves) state" where
  "BudgetReserves_copy r = do {
     c \<leftarrow> clonePtr (rs_CPUSystemReserveMilli r);
     m \<leftarrow> clonePtr (rs_MemSystemReserveBytes r);
     e \<leftarrow> clonePtr (rs_MemEvictionReserveBytes r);
     State_Monad.return \<lparr>rs_CPUSystemReserveMilli = c, rs_MemSystemReserveBytes = m,
       rs_MemEvictionReserveBytes = e\<rparr> }"

definition BudgetHistory_copy :: "BudgetHistory \<Rightarrow> (addr, BudgetHistory) state" where
  "BudgetHistory_copy h = do {
     m \<leftarrow> clonePtr (hs_MemoryHalfLifeSeconds h);
     c \<leftarrow> clonePtr (hs_CPUHalfLifeSeconds h);
     p \<leftarrow> clonePtr (hs_MarginPermille h);
     State_Monad.return \<lparr>hs_MemoryHalfLifeSeconds = m, hs_CPUHalfLifeSeconds = c,
       hs_MarginPermille = p\<rparr> }"

definition NodeBudgetPolicySpec_DeepCopyInto ::
  "NodeBudgetPolicySpec \<Rightarrow> (addr, NodeBudgetPolicySpec) state"
where
  "NodeBudgetPolicySpec_DeepCopyInto s = do {
     sel \<leftarrow> copyMap (sp_NodeSelector s);
     th \<leftarrow> copySlice SignalThresholds_DeepCopyInto (sp_Thresholds s);
     r \<leftarrow> copyPtr BudgetReserves_copy (sp_Reserves s);
     h \<leftarrow> copyPtr BudgetHistory_copy (sp_History s);
     g \<leftarrow> clonePtr (sp_Tier1GraceSeconds s);
     hl \<leftarrow> clonePtr (sp_Tier1HeldSeconds s);
     mx \<leftarrow> clonePtr (sp_Tier1MaxDeliveriesPerHour s);
     co \<leftarrow> clonePtr (sp_Tier1CooloffSeconds s);
     psi \<leftarrow> clonePtr (sp_PSIHeldPermille s);
     State_Monad.return (s\<lparr>sp_NodeSelector := sel, sp_Thresholds := th, sp_Reserves := r,
       sp_History := h, sp_Tier1GraceSeconds := g, sp_Tier1HeldSeconds := hl,
       sp_Tier1MaxDeliveriesPerHour := mx, sp_Tier1CooloffSeconds := co, sp_PSIHeldPermille := psi\<rparr>) }"

definition NodeBudgetPolicy_DeepCopyInto ::
  "('m ObjectMeta \<Rightarrow> (addr, 'm ObjectMeta) state) \<Rightarrow> 'm NodeBudgetPolicy \<Rightarrow> (addr, 'm NodeBudgetPolicy) state"
where
  "NodeBudgetPolicy_DeepCopyInto copyMeta p = do {
     m \<leftarrow> copyMeta (np_ObjectMeta p);
     s \<leftarrow> NodeBudgetPolicySpec_DeepCopyInto (np_Spec p);
     State_Monad.return (p\<lparr>np_TypeMeta := np_TypeMeta p, np_ObjectMeta := m, np_Spec := s\<rparr>) }"

text \<open>The value of each type without its addresses, and its addresses in copying order.\<close>

definition strip_thresholds :: "SignalThresholds \<Rightarrow> SignalThresholds" where
  "strip_thresholds t = \<lparr>th_Signal = th_Signal t,
     th_WarnThreshold = strip_leaf (th_WarnThreshold t),
     th_AdmitStopThreshold = strip_leaf (th_AdmitStopThreshold t),
     th_CriticalThreshold = strip_leaf (th_CriticalThreshold t),
     th_EvictSoftThreshold = strip_leaf (th_EvictSoftThreshold t),
     th_EvictHardThreshold = strip_leaf (th_EvictHardThreshold t),
     th_WarnRelease = strip_leaf (th_WarnRelease t),
     th_AdmitStopRelease = strip_leaf (th_AdmitStopRelease t),
     th_CriticalRelease = strip_leaf (th_CriticalRelease t),
     th_EvictSoftRelease = strip_leaf (th_EvictSoftRelease t),
     th_EvictHardRelease = strip_leaf (th_EvictHardRelease t),
     th_GraceSeconds = strip_leaf (th_GraceSeconds t),
     th_MinReclaimBytes = strip_leaf (th_MinReclaimBytes t),
     th_DwellSeconds = strip_leaf (th_DwellSeconds t),
     th_WindowSeconds = strip_leaf (th_WindowSeconds t)\<rparr>"

definition addrs_thresholds :: "SignalThresholds \<Rightarrow> addr list" where
  "addrs_thresholds t = concat (map addrs_leaf
     [th_WarnThreshold t, th_AdmitStopThreshold t, th_CriticalThreshold t, th_EvictSoftThreshold t,
      th_EvictHardThreshold t, th_WarnRelease t, th_AdmitStopRelease t, th_CriticalRelease t,
      th_EvictSoftRelease t, th_EvictHardRelease t, th_GraceSeconds t, th_MinReclaimBytes t,
      th_DwellSeconds t, th_WindowSeconds t])"

interpretation copy_thresholds: deep_copier SignalThresholds_DeepCopyInto strip_thresholds addrs_thresholds
proof
  fix t
  show "copies [] (SignalThresholds_DeepCopyInto t) addrs_thresholds
      (\<lambda>y. strip_thresholds y = strip_thresholds t)"
    unfolding SignalThresholds_DeepCopyInto_def
    by (rule copies_bind [OF clone_ptr.copy_copies])+
      (rule copies_return; simp add: addrs_thresholds_def strip_thresholds_def)
qed

definition strip_reserves :: "BudgetReserves \<Rightarrow> BudgetReserves" where
  "strip_reserves r = \<lparr>rs_CPUSystemReserveMilli = strip_leaf (rs_CPUSystemReserveMilli r),
     rs_MemSystemReserveBytes = strip_leaf (rs_MemSystemReserveBytes r),
     rs_MemEvictionReserveBytes = strip_leaf (rs_MemEvictionReserveBytes r)\<rparr>"

definition addrs_reserves :: "BudgetReserves \<Rightarrow> addr list" where
  "addrs_reserves r = addrs_leaf (rs_CPUSystemReserveMilli r) @
     addrs_leaf (rs_MemSystemReserveBytes r) @ addrs_leaf (rs_MemEvictionReserveBytes r)"

interpretation copy_reserves: deep_copier BudgetReserves_copy strip_reserves addrs_reserves
proof
  fix r
  show "copies [] (BudgetReserves_copy r) addrs_reserves (\<lambda>y. strip_reserves y = strip_reserves r)"
    unfolding BudgetReserves_copy_def
    by (rule copies_bind [OF clone_ptr.copy_copies])+
      (rule copies_return; simp add: addrs_reserves_def strip_reserves_def)
qed

definition strip_history :: "BudgetHistory \<Rightarrow> BudgetHistory" where
  "strip_history h = \<lparr>hs_MemoryHalfLifeSeconds = strip_leaf (hs_MemoryHalfLifeSeconds h),
     hs_CPUHalfLifeSeconds = strip_leaf (hs_CPUHalfLifeSeconds h),
     hs_MarginPermille = strip_leaf (hs_MarginPermille h)\<rparr>"

definition addrs_history :: "BudgetHistory \<Rightarrow> addr list" where
  "addrs_history h = addrs_leaf (hs_MemoryHalfLifeSeconds h) @
     addrs_leaf (hs_CPUHalfLifeSeconds h) @ addrs_leaf (hs_MarginPermille h)"

interpretation copy_history: deep_copier BudgetHistory_copy strip_history addrs_history
proof
  fix h
  show "copies [] (BudgetHistory_copy h) addrs_history (\<lambda>y. strip_history y = strip_history h)"
    unfolding BudgetHistory_copy_def
    by (rule copies_bind [OF clone_ptr.copy_copies])+
      (rule copies_return; simp add: addrs_history_def strip_history_def)
qed

definition strip_spec :: "NodeBudgetPolicySpec \<Rightarrow> NodeBudgetPolicySpec" where
  "strip_spec s = \<lparr>sp_NodeSelector = strip_map (sp_NodeSelector s), sp_Priority = sp_Priority s,
     sp_Thresholds = strip_slice strip_thresholds (sp_Thresholds s),
     sp_Reserves = strip_ptr strip_reserves (sp_Reserves s),
     sp_History = strip_ptr strip_history (sp_History s), sp_Mode = sp_Mode s,
     sp_Tier1GraceSeconds = strip_leaf (sp_Tier1GraceSeconds s),
     sp_Tier1HeldSeconds = strip_leaf (sp_Tier1HeldSeconds s),
     sp_Tier1MaxDeliveriesPerHour = strip_leaf (sp_Tier1MaxDeliveriesPerHour s),
     sp_Tier1CooloffSeconds = strip_leaf (sp_Tier1CooloffSeconds s),
     sp_PSIHeldPermille = strip_leaf (sp_PSIHeldPermille s)\<rparr>"

definition addrs_spec :: "NodeBudgetPolicySpec \<Rightarrow> addr list" where
  "addrs_spec s = addrs_leaf (sp_NodeSelector s) @
     addrs_slice addrs_thresholds (sp_Thresholds s) @ addrs_ptr addrs_reserves (sp_Reserves s) @
     addrs_ptr addrs_history (sp_History s) @ addrs_leaf (sp_Tier1GraceSeconds s) @
     addrs_leaf (sp_Tier1HeldSeconds s) @ addrs_leaf (sp_Tier1MaxDeliveriesPerHour s) @
     addrs_leaf (sp_Tier1CooloffSeconds s) @ addrs_leaf (sp_PSIHeldPermille s)"

interpretation copy_spec: deep_copier NodeBudgetPolicySpec_DeepCopyInto strip_spec addrs_spec
proof
  fix s
  show "copies [] (NodeBudgetPolicySpec_DeepCopyInto s) addrs_spec (\<lambda>y. strip_spec y = strip_spec s)"
    unfolding NodeBudgetPolicySpec_DeepCopyInto_def
    apply (rule copies_bind [OF copy_map.copy_copies])
    apply (rule copies_bind [OF copy_thresholds.copySlice_copies])
    apply (rule copies_bind [OF copy_reserves.copyPtr_copies])
    apply (rule copies_bind [OF copy_history.copyPtr_copies])
    apply (rule copies_bind [OF clone_ptr.copy_copies])+
    apply (rule copies_return; simp add: addrs_spec_def strip_spec_def)
    done
qed

definition strip_policy ::
  "('m ObjectMeta \<Rightarrow> 'm ObjectMeta) \<Rightarrow> 'm NodeBudgetPolicy \<Rightarrow> 'm NodeBudgetPolicy"
where
  "strip_policy stripMeta p = \<lparr>np_TypeMeta = np_TypeMeta p, np_ObjectMeta = stripMeta (np_ObjectMeta p),
     np_Spec = strip_spec (np_Spec p)\<rparr>"

definition addrs_policy :: "('m ObjectMeta \<Rightarrow> addr list) \<Rightarrow> 'm NodeBudgetPolicy \<Rightarrow> addr list" where
  "addrs_policy addrsMeta p = addrsMeta (np_ObjectMeta p) @ addrs_spec (np_Spec p)"

text \<open>A policy is copied deeply when the copier of its metadata is one.\<close>

lemma policy_copier:
  assumes "deep_copier copyMeta stripMeta addrsMeta"
  shows "deep_copier (NodeBudgetPolicy_DeepCopyInto copyMeta) (strip_policy stripMeta) (addrs_policy addrsMeta)"
proof
  fix p
  show "copies [] (NodeBudgetPolicy_DeepCopyInto copyMeta p) (addrs_policy addrsMeta)
      (\<lambda>y. strip_policy stripMeta y = strip_policy stripMeta p)"
    unfolding NodeBudgetPolicy_DeepCopyInto_def
    by (rule copies_bind [OF deep_copier.copy_copies [OF assms]],
        rule copies_bind [OF copy_spec.copy_copies],
        rule copies_return; simp add: addrs_policy_def strip_policy_def)
qed


section \<open>Floors\<close>

text \<open>The closure \<open>raise\<close>: it writes through the pointer, here into the fresh copy, and
  appends to the captured \<open>clamped\<close>.\<close>

definition raise_floor ::
  "PolicyField \<Rightarrow> int64 ptr \<Rightarrow> int64 \<Rightarrow> PolicyField list \<Rightarrow> int64 ptr \<times> PolicyField list"
where
  "raise_floor name p floor clamped =
     (case p of
        NilP \<Rightarrow> (p, clamped)
      | Ptr a v \<Rightarrow> if sint v < sint floor then (Ptr a floor, clamped @ [name]) else (p, clamped))"

definition ApplyFloors ::
  "NodeBudgetPolicySpec \<Rightarrow> (addr, NodeBudgetPolicySpec \<times> PolicyField list) state"
where
  "ApplyFloors s = do {
     out \<leftarrow> NodeBudgetPolicySpec_DeepCopyInto s;
     State_Monad.return
       (let (g, c1) = raise_floor FieldTier1GraceSeconds (sp_Tier1GraceSeconds out) MinTier1GraceSeconds [];
            (h, c2) = raise_floor FieldTier1HeldSeconds (sp_Tier1HeldSeconds out) MinTier1HeldSeconds c1;
            (m, c3) =
              (case sp_Tier1MaxDeliveriesPerHour out of
                 NilP \<Rightarrow> (NilP, c2)
               | Ptr a v \<Rightarrow>
                   if sint v > sint MaxTier1DeliveriesPerHour
                   then (Ptr a MaxTier1DeliveriesPerHour, c2 @ [FieldTier1MaxDeliveriesPerHour])
                   else (Ptr a v, c2));
            (c, c4) = raise_floor FieldTier1CooloffSeconds (sp_Tier1CooloffSeconds out)
              MinTier1CooloffSeconds c3
        in (out\<lparr>sp_Tier1GraceSeconds := g, sp_Tier1HeldSeconds := h,
             sp_Tier1MaxDeliveriesPerHour := m, sp_Tier1CooloffSeconds := c\<rparr>, c4)) }"

text \<open>The clamps as functions of the set value.\<close>

definition clamp_low :: "'w::len word \<Rightarrow> 'w word \<Rightarrow> 'w word" where
  "clamp_low floor v = (if sint v < sint floor then floor else v)"

definition clamp_high :: "'w::len word \<Rightarrow> 'w word \<Rightarrow> 'w word" where
  "clamp_high cap v = (if sint v > sint cap then cap else v)"

definition map_ptr_val :: "('a \<Rightarrow> 'a) \<Rightarrow> 'a ptr \<Rightarrow> 'a ptr" where
  "map_ptr_val f p = (case p of NilP \<Rightarrow> NilP | Ptr a v \<Rightarrow> Ptr a (f v))"

definition floored :: "NodeBudgetPolicySpec \<Rightarrow> NodeBudgetPolicySpec" where
  "floored s = s\<lparr>
     sp_Tier1GraceSeconds := map_ptr_val (clamp_low MinTier1GraceSeconds) (sp_Tier1GraceSeconds s),
     sp_Tier1HeldSeconds := map_ptr_val (clamp_low MinTier1HeldSeconds) (sp_Tier1HeldSeconds s),
     sp_Tier1MaxDeliveriesPerHour :=
       map_ptr_val (clamp_high MaxTier1DeliveriesPerHour) (sp_Tier1MaxDeliveriesPerHour s),
     sp_Tier1CooloffSeconds := map_ptr_val (clamp_low MinTier1CooloffSeconds) (sp_Tier1CooloffSeconds s)\<rparr>"

definition changed :: "PolicyField \<Rightarrow> ('a \<Rightarrow> 'a) \<Rightarrow> 'a ptr \<Rightarrow> PolicyField list" where
  "changed name f p = (case deref p of None \<Rightarrow> [] | Some v \<Rightarrow> if f v = v then [] else [name])"

definition floor_changes :: "NodeBudgetPolicySpec \<Rightarrow> PolicyField list" where
  "floor_changes s =
     changed FieldTier1GraceSeconds (clamp_low MinTier1GraceSeconds) (sp_Tier1GraceSeconds s) @
     changed FieldTier1HeldSeconds (clamp_low MinTier1HeldSeconds) (sp_Tier1HeldSeconds s) @
     changed FieldTier1MaxDeliveriesPerHour (clamp_high MaxTier1DeliveriesPerHour)
       (sp_Tier1MaxDeliveriesPerHour s) @
     changed FieldTier1CooloffSeconds (clamp_low MinTier1CooloffSeconds) (sp_Tier1CooloffSeconds s)"

lemma raise_floor_eq:
  "raise_floor name p floor cl =
     (map_ptr_val (clamp_low floor) p, cl @ changed name (clamp_low floor) p)"
  by (cases p) (auto simp: raise_floor_def map_ptr_val_def clamp_low_def changed_def)

lemma cap_eq:
  "(case p of NilP \<Rightarrow> (NilP, cl)
    | Ptr a v \<Rightarrow> if sint v > sint cap then (Ptr a cap, cl @ [name]) else (Ptr a v, cl)) =
   (map_ptr_val (clamp_high cap) p, cl @ changed name (clamp_high cap) p)"
  by (cases p) (auto simp: map_ptr_val_def clamp_high_def changed_def)

lemma ApplyFloors_run:
  "run_state (ApplyFloors s) n =
     (case run_state (NodeBudgetPolicySpec_DeepCopyInto s) n of
        (out, l) \<Rightarrow> ((floored out, floor_changes out), l))"
  by (simp add: ApplyFloors_def raise_floor_eq cap_eq floored_def floor_changes_def split: prod.split)

lemma map_ptr_val_simps [simp]:
  "map_ptr_val f NilP = NilP" "map_ptr_val f (Ptr a v) = Ptr a (f v)"
  by (simp_all add: map_ptr_val_def)

lemma deref_map_ptr_val [simp]: "deref (map_ptr_val f p) = map_option f (deref p)"
  by (cases p) simp_all

lemma strip_map_ptr_val [simp]: "strip_leaf (map_ptr_val f p) = map_ptr_val f (strip_leaf p)"
  by (cases p) simp_all

lemma addrs_map_ptr_val [simp]: "addrs_leaf (map_ptr_val f p) = addrs_leaf p"
  by (cases p) simp_all

lemma map_ptr_val_idem: "(\<And>v. f (f v) = f v) \<Longrightarrow> map_ptr_val f (map_ptr_val f p) = map_ptr_val f p"
  by (cases p) simp_all

lemma clamp_idem [simp]:
  "clamp_low c (clamp_low c v) = clamp_low c v" "clamp_high c (clamp_high c v) = clamp_high c v"
  by (simp_all add: clamp_low_def clamp_high_def)

lemma changed_strip [simp]: "changed name f (strip_leaf p) = changed name f p"
  by (simp add: changed_def)

lemma changed_map_ptr_val: "(\<And>v. f (f v) = f v) \<Longrightarrow> changed name f (map_ptr_val f p) = []"
  by (cases p) (simp_all add: changed_def)

lemma floored_strip: "strip_spec (floored s) = floored (strip_spec s)"
  by (simp add: strip_spec_def floored_def)

lemma floor_changes_strip: "floor_changes (strip_spec s) = floor_changes s"
  by (simp add: strip_spec_def floor_changes_def)

lemma floored_idem: "floored (floored s) = floored s"
  by (simp add: floored_def map_ptr_val_idem)

lemma floor_changes_floored: "floor_changes (floored s) = []"
  by (simp add: floor_changes_def floored_def changed_map_ptr_val)

definition floors_ok :: "NodeBudgetPolicySpec \<Rightarrow> bool" where
  "floors_ok s \<longleftrightarrow>
     (\<forall>v. deref (sp_Tier1GraceSeconds s) = Some v \<longrightarrow> sint v \<ge> 10) \<and>
     (\<forall>v. deref (sp_Tier1HeldSeconds s) = Some v \<longrightarrow> sint v \<ge> 10) \<and>
     (\<forall>v. deref (sp_Tier1MaxDeliveriesPerHour s) = Some v \<longrightarrow> sint v \<le> 6) \<and>
     (\<forall>v. deref (sp_Tier1CooloffSeconds s) = Some v \<longrightarrow> sint v \<ge> 300)"

lemma floors_ok_strip: "floors_ok (strip_spec s) = floors_ok s"
  by (simp add: floors_ok_def strip_spec_def)

lemma floored_ok: "floors_ok (floored s)"
  by (auto simp: floors_ok_def floored_def clamp_low_def clamp_high_def const_defs split: if_splits)

lemma floor_changes_Nil: "floors_ok s \<Longrightarrow> floor_changes s = []"
  by (auto simp: floors_ok_def floor_changes_def changed_def clamp_low_def clamp_high_def const_defs
      split: option.splits)

text \<open>Validity does not depend on addresses, and flooring keeps it.\<close>

lemma map_filter_strip: "List.map_filter deref (map strip_leaf ps) = List.map_filter deref ps"
  by (induction ps) (simp_all add: map_filter_simps split: option.split)

lemma nonneg_strip [simp]: "nonneg (strip_leaf p) = nonneg p"
  by (simp add: nonneg_def)

lemma in_permille_strip [simp]: "in_permille (strip_leaf p) = in_permille p"
  by (simp add: in_permille_def)

lemma ladder_ok_strip:
  "3 < length rungs \<Longrightarrow>
   ladder_ok sig (map strip_leaf rungs) (map strip_leaf rels) = ladder_ok sig rungs rels"
  by (simp add: ladder_ok_def map_filter_strip list_all_iff list_all2_map1 list_all2_map2)

lemma thresholds_wf_strip: "thresholds_wf (strip_thresholds t) = thresholds_wf t"
proof -
  have "SignalThresholds_rungs (strip_thresholds t) = map strip_leaf (SignalThresholds_rungs t)"
    "SignalThresholds_releases (strip_thresholds t) = map strip_leaf (SignalThresholds_releases t)"
    by (simp_all add: SignalThresholds_rungs_def SignalThresholds_releases_def strip_thresholds_def)
  moreover have "3 < length (SignalThresholds_rungs t)" by (simp add: SignalThresholds_rungs_def)
  moreover have "th_Signal (strip_thresholds t) = th_Signal t"
    "th_GraceSeconds (strip_thresholds t) = strip_leaf (th_GraceSeconds t)"
    "th_DwellSeconds (strip_thresholds t) = strip_leaf (th_DwellSeconds t)"
    "th_WindowSeconds (strip_thresholds t) = strip_leaf (th_WindowSeconds t)"
    "th_MinReclaimBytes (strip_thresholds t) = strip_leaf (th_MinReclaimBytes t)"
    by (simp_all add: strip_thresholds_def)
  ultimately show ?thesis by (simp add: thresholds_wf_def ladder_ok_strip)
qed

lemma entries_strip: "entries (strip_map p) = range_copy (entries p)"
  by (cases p) (simp_all add: entries_def range_copy_def)

lemma reserves_wf_strip: "reserves_wf (strip_reserves r) = reserves_wf r"
  by (simp add: reserves_wf_def strip_reserves_def)

lemma history_wf_strip: "history_wf (strip_history h) = history_wf h"
  by (simp add: history_wf_def strip_history_def)

lemma spec_wf_strip: "spec_wf (strip_spec s) = spec_wf s"
proof -
  have "th_Signal \<circ> strip_thresholds = th_Signal"
    by (simp add: fun_eq_iff strip_thresholds_def)
  then show ?thesis
    by (auto simp: spec_wf_def strip_spec_def entries_strip els_strip_ptr deref_strip_ptr
        thresholds_wf_strip reserves_wf_strip history_wf_strip)
qed

lemma spec_wf_floored: "spec_wf s \<Longrightarrow> spec_wf (floored s)"
  by (auto simp: spec_wf_def floored_def clamp_high_def const_defs)

section \<open>Selection\<close>

definition Selects :: "NodeBudgetPolicySpec \<Rightarrow> (string \<Rightarrow> string option) \<Rightarrow> bool" where
  "Selects s nodeLabels = list_all (\<lambda>(k, v). nodeLabels k = Some v) (entries (sp_NodeSelector s))"

definition policy_name :: "'m NodeBudgetPolicy \<Rightarrow> string" where
  "policy_name p = om_Name (np_ObjectMeta p)"

text \<open>The callback of the sort: higher priority first, then the smaller name.\<close>

definition policy_before :: "'m NodeBudgetPolicy \<Rightarrow> 'm NodeBudgetPolicy \<Rightarrow> bool" where
  "policy_before p q =
     (if sp_Priority (np_Spec p) \<noteq> sp_Priority (np_Spec q)
      then sint (sp_Priority (np_Spec p)) > sint (sp_Priority (np_Spec q))
      else str_less (policy_name p) (policy_name q))"

definition SelectPolicy ::
  "('m ObjectMeta \<Rightarrow> (addr, 'm ObjectMeta) state) \<Rightarrow> 'm NodeBudgetPolicy list \<Rightarrow>
   (string \<Rightarrow> string option) \<Rightarrow> (addr, 'm NodeBudgetPolicy option \<times> string list) state"
where
  "SelectPolicy copyMeta policies nodeLabels =
     (let sel = filter (\<lambda>p. Selects (np_Spec p) nodeLabels) policies in
      if sel = [] then State_Monad.return (None, [])
      else let sorted = SliceStable policy_before sel in
        do { w \<leftarrow> NodeBudgetPolicy_DeepCopyInto copyMeta (hd sorted);
             State_Monad.return (Some w, map policy_name (tl sorted)) })"

text \<open>The order of precedence is a strict weak order, total on policies of distinct names.\<close>

lemma policy_before_alt:
  "policy_before p q \<longleftrightarrow>
     sint (sp_Priority (np_Spec q)) < sint (sp_Priority (np_Spec p)) \<or>
     sint (sp_Priority (np_Spec p)) = sint (sp_Priority (np_Spec q)) \<and>
       str_less (policy_name p) (policy_name q)"
proof -
  have "sp_Priority (np_Spec p) = sp_Priority (np_Spec q) \<longleftrightarrow>
      sint (sp_Priority (np_Spec p)) = sint (sp_Priority (np_Spec q))"
    by (metis signed_word_eqI)
  then show ?thesis by (auto simp: policy_before_def)
qed

lemma str_less_split: "str_less s u \<Longrightarrow> str_less s t \<or> str_less t u"
  using str_less_total [of s t] str_less_trans by blast

lemma rank_split:
  fixes a b c :: int
  assumes "c < a \<or> a = c \<and> str_less s u"
  shows "(b < a \<or> a = b \<and> str_less s t) \<or> (c < b \<or> b = c \<and> str_less t u)"
  using assms str_less_split [of s u t]
  by (cases a b rule: linorder_cases; cases b c rule: linorder_cases) auto

interpretation precedence: weak_order policy_before
proof
  fix p q r :: "'m NodeBudgetPolicy"
  show "policy_before p q \<Longrightarrow> \<not> policy_before q p"
    unfolding policy_before_alt using str_less_asym by force
  show "policy_before p r \<Longrightarrow> policy_before p q \<or> policy_before q r"
    unfolding policy_before_alt by (rule rank_split)
qed

text \<open>The selecting policies in order of precedence.\<close>

definition ranking :: "'m NodeBudgetPolicy list \<Rightarrow> (string \<Rightarrow> string option) \<Rightarrow> 'm NodeBudgetPolicy list" where
  "ranking policies nodeLabels =
     SliceStable policy_before (filter (\<lambda>p. Selects (np_Spec p) nodeLabels) policies)"

lemma ranking_Nil: "ranking ps nl = [] \<longleftrightarrow> (\<forall>p \<in> set ps. \<not> Selects (np_Spec p) nl)"
proof -
  have "ranking ps nl = [] \<longleftrightarrow> set (ranking ps nl) = {}" by simp
  then show ?thesis by (auto simp: ranking_def filter_empty_conv)
qed

lemma SelectPolicy_ranking:
  "SelectPolicy copyMeta ps nl =
     (case ranking ps nl of
        [] \<Rightarrow> State_Monad.return (None, [])
      | p # rest \<Rightarrow> do { w \<leftarrow> NodeBudgetPolicy_DeepCopyInto copyMeta p;
                        State_Monad.return (Some w, map policy_name rest) })"
proof (cases "ranking ps nl")
  case Nil
  then have "filter (\<lambda>p. Selects (np_Spec p) nl) ps = []"
    by (simp only: ranking_Nil filter_empty_conv)
  with Nil show ?thesis by (simp add: SelectPolicy_def Let_def)
next
  case (Cons p rest)
  then have "filter (\<lambda>p. Selects (np_Spec p) nl) ps \<noteq> []"
    by (intro notI) (simp add: ranking_def)
  with Cons show ?thesis by (simp add: SelectPolicy_def Let_def ranking_def)
qed

lemma policy_ties:
  "\<not> policy_before p q \<Longrightarrow> \<not> policy_before q p \<Longrightarrow> policy_name p = policy_name q"
  unfolding policy_before_alt using str_less_total [of "policy_name p" "policy_name q"] by linarith

lemma ranking_perm:
  assumes "mset ps = mset qs" "distinct (map policy_name ps)"
  shows "ranking ps nl = ranking qs nl"
proof (rule sorted_mset_unique)
  show "sorted_wrt (\<lambda>x y. \<not> policy_before y x) (ranking ps nl)"
    "sorted_wrt (\<lambda>x y. \<not> policy_before y x) (ranking qs nl)"
    by (simp_all add: ranking_def precedence.SliceStable_in_order)
  from assms(1) show "mset (ranking ps nl) = mset (ranking qs nl)"
    by (simp add: ranking_def)
next
  fix x y assume xy: "x \<in> set (ranking ps nl)" "y \<in> set (ranking ps nl)"
    and tie: "\<not> policy_before y x" "\<not> policy_before x y"
  from tie have "policy_name x = policy_name y" by (intro policy_ties)
  moreover from xy have "x \<in> set ps" "y \<in> set ps" by (simp_all add: ranking_def)
  ultimately show "x = y" using assms(2) by (simp add: distinct_map) (blast dest: inj_onD)
qed

section \<open>Properties\<close>

lemma ApplyFloors_result:
  assumes "run_state (ApplyFloors s) n = ((out, clamped), l)"
  obtains c where "run_state (NodeBudgetPolicySpec_DeepCopyInto s) n = (c, l)" "out = floored c"
    "clamped = floor_changes s" "strip_spec out = floored (strip_spec s)"
proof -
  obtain c k where copy: "run_state (NodeBudgetPolicySpec_DeepCopyInto s) n = (c, k)"
    by (cases "run_state (NodeBudgetPolicySpec_DeepCopyInto s) n")
  with assms have out: "out = floored c" "clamped = floor_changes c" "l = k"
    by (simp_all add: ApplyFloors_run)
  note strip = copy_spec.copy_value [OF copy]
  have "clamped = floor_changes s"
    using out(2) floor_changes_strip [of c] floor_changes_strip [of s] strip by simp
  moreover have "strip_spec out = floored (strip_spec s)" by (simp add: out(1) floored_strip strip)
  ultimately show ?thesis using that copy out by blast
qed

text \<open>(C29) \<open>ApplyFloors\<close> computes exactly the floored spec and the fields it changed. Addresses
  aside, the result is the input with the four tier-1 timers clamped and every other field as
  it was; the list names exactly those timers whose value changed, in the fixed order. The
  result holds only memory allocated by the call, so the input is not modified.\<close>

theorem ApplyFloors_exact:
  assumes "run_state (ApplyFloors s) n = ((out, clamped), l)" "\<forall>a \<in> set (addrs_spec s). a < n"
  shows "strip_spec out = floored (strip_spec s) \<and> clamped = floor_changes s \<and>
    set (addrs_spec out) \<inter> set (addrs_spec s) = {}"
proof -
  obtain c where c: "run_state (NodeBudgetPolicySpec_DeepCopyInto s) n = (c, l)" "out = floored c"
    "clamped = floor_changes s" "strip_spec out = floored (strip_spec s)"
    by (rule ApplyFloors_result [OF assms(1)])
  have "addrs_spec out = addrs_spec c" by (simp add: c(2) floored_def addrs_spec_def)
  with copy_spec.copy_disjoint [OF c(1) assms(2)] c show ?thesis by simp
qed

definition sample_spec :: NodeBudgetPolicySpec where
  "sample_spec = \<lparr>sp_NodeSelector = Ptr 1 [(''zone'', ''a'')], sp_Priority = 7,
     sp_Thresholds = NilP, sp_Reserves = NilP, sp_History = NilP, sp_Mode = KillModeAuto,
     sp_Tier1GraceSeconds = Ptr 2 3, sp_Tier1HeldSeconds = NilP,
     sp_Tier1MaxDeliveriesPerHour = Ptr 3 9, sp_Tier1CooloffSeconds = Ptr 4 600,
     sp_PSIHeldPermille = NilP\<rparr>"

theorem ApplyFloors_exact_witness:
  "\<exists>out l. run_state (ApplyFloors sample_spec) 10 =
      ((out, [FieldTier1GraceSeconds, FieldTier1MaxDeliveriesPerHour]), l) \<and>
    deref (sp_Tier1GraceSeconds out) = Some 10 \<and> deref (sp_Tier1MaxDeliveriesPerHour out) = Some 6 \<and>
    deref (sp_Tier1CooloffSeconds out) = Some 600"
proof -
  obtain out clamped l where run: "run_state (ApplyFloors sample_spec) 10 = ((out, clamped), l)"
    by (metis prod.exhaust)
  have "\<forall>a \<in> set (addrs_spec sample_spec). a < 10"
    by (simp add: sample_spec_def addrs_spec_def)
  note exact = ApplyFloors_exact [OF run this]
  have "floor_changes sample_spec = [FieldTier1GraceSeconds, FieldTier1MaxDeliveriesPerHour]"
    by (simp add: sample_spec_def floor_changes_def changed_def clamp_low_def clamp_high_def const_defs)
  moreover have "floored (strip_spec sample_spec) = (strip_spec sample_spec)
      \<lparr>sp_Tier1GraceSeconds := Ptr 0 10, sp_Tier1MaxDeliveriesPerHour := Ptr 0 6\<rparr>"
    by (simp add: sample_spec_def floored_def strip_spec_def clamp_low_def clamp_high_def const_defs)
  moreover have "deref (sp_Tier1GraceSeconds out) = deref (sp_Tier1GraceSeconds (strip_spec out))"
    "deref (sp_Tier1MaxDeliveriesPerHour out) = deref (sp_Tier1MaxDeliveriesPerHour (strip_spec out))"
    "deref (sp_Tier1CooloffSeconds out) = deref (sp_Tier1CooloffSeconds (strip_spec out))"
    by (simp_all add: strip_spec_def)
  moreover have "sp_Tier1CooloffSeconds (strip_spec sample_spec) = Ptr 0 600"
    by (simp add: strip_spec_def sample_spec_def)
  ultimately show ?thesis using exact run by simp
qed

text \<open>(C30) No policy lowers a floor: whatever spec \<open>ApplyFloors\<close> is given, the grace and held
  times of the result are at least 10 seconds, its cool-off at least 300 and its hourly cap at
  most 6 where they are set. A valid spec stays valid, and applying the floors again changes
  nothing and reports nothing.\<close>

theorem ApplyFloors_safe:
  assumes "run_state (ApplyFloors s) n = ((out, clamped), l)"
  shows "floors_ok out \<and>
    (NodeBudgetPolicySpec_Validate s = None \<longrightarrow> NodeBudgetPolicySpec_Validate out = None) \<and>
    (\<forall>m out' clamped' l'. run_state (ApplyFloors out) m = ((out', clamped'), l') \<longrightarrow>
       strip_spec out' = strip_spec out \<and> clamped' = [])"
proof -
  obtain c where c: "out = floored c" "strip_spec out = floored (strip_spec s)"
    by (rule ApplyFloors_result [OF assms])
  have "spec_wf s \<longrightarrow> spec_wf out"
    using c(2) spec_wf_strip [of s] spec_wf_strip [of out] spec_wf_floored [of "strip_spec s"] by simp
  moreover have "strip_spec out' = strip_spec out \<and> clamped' = []"
    if "run_state (ApplyFloors out) m = ((out', clamped'), l')" for m out' clamped' l'
  proof -
    from that obtain d where d: "clamped' = floor_changes out" "strip_spec out' = floored (strip_spec out)"
      by (rule ApplyFloors_result)
    from d(2) c(2) have "strip_spec out' = strip_spec out" by (simp add: floored_idem)
    with d(1) c(1) show ?thesis by (simp add: floor_changes_floored)
  qed
  ultimately show ?thesis
    using c(1) floored_ok
    by (simp add: NodeBudgetPolicySpec_Validate_def NodeBudgetPolicySpec_validate_iff)
qed

theorem ApplyFloors_safe_witness:
  "\<exists>out clamped l. run_state (ApplyFloors sample_spec) 10 = ((out, clamped), l) \<and> floors_ok out \<and>
     \<not> floors_ok sample_spec"
proof -
  obtain out clamped l where run: "run_state (ApplyFloors sample_spec) 10 = ((out, clamped), l)"
    by (metis prod.exhaust)
  with ApplyFloors_safe [OF run] show ?thesis by (auto simp: floors_ok_def sample_spec_def)
qed

text \<open>\<open>NodeBudgetPolicySpec.Validate\<close> accepts exactly the specs the contract allows.\<close>

theorem policy_Validate_decides:
  "NodeBudgetPolicySpec_Validate s = None \<longleftrightarrow> spec_wf s"
  by (simp add: NodeBudgetPolicySpec_Validate_def NodeBudgetPolicySpec_validate_iff)

lemma SelectPolicy_by_ranking:
  assumes "deep_copier copyMeta stripMeta addrsMeta"
    and "run_state (SelectPolicy copyMeta policies nodeLabels) n = ((winner, losers), l)"
  shows "(winner = None \<longleftrightarrow> (\<forall>p \<in> set policies. \<not> Selects (np_Spec p) nodeLabels)) \<and>
    (winner = None \<longrightarrow> losers = []) \<and>
    (\<forall>w. winner = Some w \<longrightarrow>
      (\<exists>p rest. mset (p # rest) = mset (filter (\<lambda>p. Selects (np_Spec p) nodeLabels) policies) \<and>
         sorted_wrt (\<lambda>x y. \<not> policy_before y x) (p # rest) \<and>
         strip_policy stripMeta w = strip_policy stripMeta p \<and>
         addrs_policy addrsMeta w = [n..<l] \<and> losers = map policy_name rest))"
proof (cases "ranking policies nodeLabels")
  case Nil
  with assms(2) show ?thesis by (simp add: SelectPolicy_ranking ranking_Nil [symmetric])
next
  case (Cons p rest)
  obtain w k where copy: "run_state (NodeBudgetPolicy_DeepCopyInto copyMeta p) n = (w, k)"
    by (cases "run_state (NodeBudgetPolicy_DeepCopyInto copyMeta p) n")
  with assms(2) Cons have res: "winner = Some w" "losers = map policy_name rest" "k = l"
    by (simp_all add: SelectPolicy_ranking)
  note copier = policy_copier [OF assms(1)]
  from deep_copier.copy_value [OF copier copy] deep_copier.copy_addrs [OF copier copy] res(3)
  have w: "strip_policy stripMeta w = strip_policy stripMeta p" "addrs_policy addrsMeta w = [n..<l]"
    by simp_all
  have "mset (p # rest) = mset (filter (\<lambda>p. Selects (np_Spec p) nodeLabels) policies)"
    "sorted_wrt (\<lambda>x y. \<not> policy_before y x) (p # rest)"
    unfolding Cons [symmetric] by (simp_all add: ranking_def precedence.SliceStable_in_order)
  with w res Cons ranking_Nil [of policies nodeLabels] show ?thesis by auto
qed

text \<open>The selection and the precedence spelled out, as the documentation of \<open>SelectPolicy\<close> gives them.\<close>

lemma Selects_labels:
  "Selects s nodeLabels \<longleftrightarrow> (\<forall>k v. (k, v) \<in> set (entries (sp_NodeSelector s)) \<longrightarrow> nodeLabels k = Some v)"
  by (auto simp: Selects_def list_all_iff)

lemma not_before:
  "\<not> policy_before y x \<longleftrightarrow>
     sint (sp_Priority (np_Spec y)) < sint (sp_Priority (np_Spec x)) \<or>
     sp_Priority (np_Spec x) = sp_Priority (np_Spec y) \<and>
       (om_Name (np_ObjectMeta x) = om_Name (np_ObjectMeta y) \<or>
        str_less (om_Name (np_ObjectMeta x)) (om_Name (np_ObjectMeta y)))"
proof (cases "sp_Priority (np_Spec x) = sp_Priority (np_Spec y)")
  case True
  then show ?thesis
    using str_less_total [of "policy_name x" "policy_name y"] str_less_asym [of "policy_name x" "policy_name y"]
    by (auto simp: policy_before_def policy_name_def)
next
  case False
  then have "sint (sp_Priority (np_Spec x)) \<noteq> sint (sp_Priority (np_Spec y))" by (metis signed_word_eqI)
  with False show ?thesis by (auto simp: policy_before_def)
qed

text \<open>(C26) \<open>SelectPolicy\<close> picks the policy that governs a node. A policy selects the node when every
  label of its selector is a label of the node with the same value. The result is nil exactly
  when no policy does. Otherwise the selecting policies can be listed so that a policy of higher
  priority stands before one of lower priority, and of two with the same priority the lexically
  smaller name stands first; the result is a deep copy of the first of the list, in fresh memory,
  and the losers are the names of the others in that order. The copier of the object metadata is
  assumed to copy deeply.\<close>

theorem SelectPolicy_correct:
  assumes "deep_copier copyMeta stripMeta addrsMeta"
    and "run_state (SelectPolicy copyMeta policies nodeLabels) n = ((winner, losers), l)"
  shows "(winner = None \<longleftrightarrow> (\<forall>p \<in> set policies.
      \<exists>k v. (k, v) \<in> set (entries (sp_NodeSelector (np_Spec p))) \<and> nodeLabels k \<noteq> Some v)) \<and>
    (winner = None \<longrightarrow> losers = []) \<and>
    (\<forall>w. winner = Some w \<longrightarrow>
      (\<exists>p rest. mset (p # rest) = mset (filter (\<lambda>p.
           \<forall>k v. (k, v) \<in> set (entries (sp_NodeSelector (np_Spec p))) \<longrightarrow> nodeLabels k = Some v) policies) \<and>
         sorted_wrt (\<lambda>x y. sint (sp_Priority (np_Spec y)) < sint (sp_Priority (np_Spec x)) \<or>
           sp_Priority (np_Spec x) = sp_Priority (np_Spec y) \<and>
             (om_Name (np_ObjectMeta x) = om_Name (np_ObjectMeta y) \<or>
              str_less (om_Name (np_ObjectMeta x)) (om_Name (np_ObjectMeta y)))) (p # rest) \<and>
         strip_policy stripMeta w = strip_policy stripMeta p \<and>
         addrs_policy addrsMeta w = [n..<l] \<and> losers = map (\<lambda>q. om_Name (np_ObjectMeta q)) rest))"
proof -
  have none: "(\<forall>p \<in> set policies.
      \<exists>k v. (k, v) \<in> set (entries (sp_NodeSelector (np_Spec p))) \<and> nodeLabels k \<noteq> Some v) \<longleftrightarrow>
    (\<forall>p \<in> set policies. \<not> Selects (np_Spec p) nodeLabels)"
    unfolding Selects_labels by blast
  have name: "policy_name = (\<lambda>q. om_Name (np_ObjectMeta q))" by (rule ext) (simp add: policy_name_def)
  show ?thesis
    using SelectPolicy_by_ranking [OF assms]
    unfolding none Selects_labels [symmetric] not_before [symmetric] name [symmetric] .
qed

definition sample_policy :: "string \<Rightarrow> int32 \<Rightarrow> unit NodeBudgetPolicy" where
  "sample_policy name prio =
     \<lparr>np_TypeMeta = \<lparr>tm_Kind = ''NodeBudgetPolicy'', tm_APIVersion = ''budget.k3sm.io/v1alpha1''\<rparr>,
      np_ObjectMeta = \<lparr>om_Name = name, om_rest = ()\<rparr>,
      np_Spec = sample_spec\<lparr>sp_Priority := prio\<rparr>\<rparr>"

lemma unit_meta_copier:
  "deep_copier (State_Monad.return :: unit ObjectMeta \<Rightarrow> (addr, unit ObjectMeta) state) (\<lambda>m. m) (\<lambda>_. [])"
  by unfold_locales (auto intro: copies_return)

lemma sample_selects: "Selects (np_Spec (sample_policy name prio)) [''zone'' \<mapsto> ''a'']"
  by (simp add: Selects_def sample_policy_def sample_spec_def entries_def)

lemma sample_fields [simp]:
  "policy_name (sample_policy name prio) = name" "sp_Priority (np_Spec (sample_policy name prio)) = prio"
  by (simp_all add: policy_name_def sample_policy_def)

theorem SelectPolicy_correct_witness:
  "\<exists>w l. run_state (SelectPolicy State_Monad.return
      [sample_policy ''a'' 1, sample_policy ''b'' 2] [''zone'' \<mapsto> ''a'']) 100 = ((Some w, [''a'']), l) \<and>
    om_Name (np_ObjectMeta w) = ''b''"
proof -
  let ?ps = "[sample_policy ''a'' 1, sample_policy ''b'' 2]"
  obtain r l where run: "run_state (SelectPolicy State_Monad.return ?ps [''zone'' \<mapsto> ''a'']) 100 = (r, l)"
    by (metis prod.exhaust)
  obtain winner losers where r: "r = (winner, losers)" by (cases r)
  note spec = SelectPolicy_correct [OF unit_meta_copier, OF run [unfolded r], folded Selects_labels]
  have sel: "filter (\<lambda>p. Selects (np_Spec p) [''zone'' \<mapsto> ''a'']) ?ps = ?ps" by (simp add: sample_selects)
  from spec have "winner \<noteq> None" using sample_selects [of "''a''" 1] by (auto simp: Selects_labels)
  then obtain w where w: "winner = Some w" by blast
  with spec obtain p rest where rest: "mset (p # rest) = mset ?ps" "losers = map (\<lambda>q. om_Name (np_ObjectMeta q)) rest"
    and first: "\<forall>y \<in> set rest. sint (sp_Priority (np_Spec y)) \<le> sint (sp_Priority (np_Spec p))"
    and copy: "strip_policy (\<lambda>m. m) w = strip_policy (\<lambda>m. m) p"
    unfolding sel by fastforce
  have "length rest = 1" using arg_cong [OF rest(1), of size] by simp
  then obtain q where q: "rest = [q]" by (cases rest) auto
  have names: "om_Name (np_ObjectMeta (sample_policy x i)) = x" for x i by (simp add: sample_policy_def)
  have "{#p, q#} = {#sample_policy ''a'' 1, sample_policy ''b'' 2#}" using rest(1) q by simp
  then have "p = sample_policy ''b'' 2 \<and> q = sample_policy ''a'' 1 \<or>
      p = sample_policy ''a'' 1 \<and> q = sample_policy ''b'' 2"
    by (auto simp: add_eq_conv_ex)
  with first q have pq: "p = sample_policy ''b'' 2" "q = sample_policy ''a'' 1" by auto
  have "om_Name (np_ObjectMeta w) = om_Name (np_ObjectMeta p)"
    using arg_cong [OF copy, of "\<lambda>x. om_Name (np_ObjectMeta x)"] by (simp add: strip_policy_def)
  with run r w rest(2) q pq show ?thesis by (auto simp: names)
qed

text \<open>(C31) The choice does not depend on the order in which the policies are listed: for
  policies of distinct names, any two orders of the same policies give the same winner and
  the same losers in the same order.\<close>

theorem SelectPolicy_order_independent:
  assumes "mset policies = mset policies'" "distinct (map policy_name policies)"
  shows "SelectPolicy copyMeta policies nodeLabels = SelectPolicy copyMeta policies' nodeLabels"
  by (simp only: SelectPolicy_ranking ranking_perm [OF assms])

theorem SelectPolicy_order_independent_witness:
  "SelectPolicy State_Monad.return [sample_policy ''a'' 1, sample_policy ''b'' 1] [''zone'' \<mapsto> ''a''] =
   SelectPolicy State_Monad.return [sample_policy ''b'' 1, sample_policy ''a'' 1] [''zone'' \<mapsto> ''a'']"
  by (rule SelectPolicy_order_independent) simp_all

end
