(* ===== verification/BudgetCopy.thy ===== *)
theory BudgetCopy
  imports Policy Observation
begin

text \<open>
  The hand-written deep copies of \<open>nodebudget.go\<close> and of the list type of
  \<open>nodebudgetpolicy.go\<close>, each an instance of the contract \<open>deep_copier\<close>: the copy has the value
  of the original, its addresses are distinct and new. \<open>metav1.Time\<close> and \<open>metav1.Condition\<close> hold
  no pointer to memory a caller can change, so their copies are values. The copies of
  \<open>metav1.ObjectMeta\<close> and \<open>metav1.ListMeta\<close> are parameters.
\<close>

section \<open>Parts of an observation\<close>

definition BudgetCapacity_DeepCopyInto ::
  "BudgetCapacity \<Rightarrow> (addr, BudgetCapacity) state"
where
  "BudgetCapacity_DeepCopyInto x = do {
     v1 \<leftarrow> clonePtr (cap_CPUCapacityMilli x);
     v2 \<leftarrow> clonePtr (cap_CPUSystemReserveMilli x);
     v3 \<leftarrow> clonePtr (cap_MemCapacityBytes x);
     v4 \<leftarrow> clonePtr (cap_MemSystemReserveBytes x);
     v5 \<leftarrow> clonePtr (cap_MemEvictionReserveBytes x);
     v6 \<leftarrow> clonePtr (cap_MemAllocatableBytes x);
     v7 \<leftarrow> clonePtr (cap_SwapTotalBytes x);
     v8 \<leftarrow> clonePtr (cap_SwapUsedBytes x);
     v9 \<leftarrow> clonePtr (cap_CPUPerformanceCores x);
     v10 \<leftarrow> clonePtr (cap_CPUEfficiencyCores x);
     v11 \<leftarrow> clonePtr (cap_GPUPresent x);
     v12 \<leftarrow> clonePtr (cap_GPUCount x);
     State_Monad.return (x\<lparr>cap_CPUCapacityMilli := v1, cap_CPUSystemReserveMilli := v2, cap_MemCapacityBytes := v3,
       cap_MemSystemReserveBytes := v4, cap_MemEvictionReserveBytes := v5,
       cap_MemAllocatableBytes := v6, cap_SwapTotalBytes := v7, cap_SwapUsedBytes := v8,
       cap_CPUPerformanceCores := v9, cap_CPUEfficiencyCores := v10, cap_GPUPresent := v11,
       cap_GPUCount := v12\<rparr>) }"

definition strip_capacity ::
  "BudgetCapacity \<Rightarrow> BudgetCapacity"
where
  "strip_capacity x = \<lparr>cap_CPUCapacityMilli = strip_leaf (cap_CPUCapacityMilli x),
     cap_CPUSystemReserveMilli = strip_leaf (cap_CPUSystemReserveMilli x),
     cap_MemCapacityBytes = strip_leaf (cap_MemCapacityBytes x),
     cap_MemSystemReserveBytes = strip_leaf (cap_MemSystemReserveBytes x),
     cap_MemEvictionReserveBytes = strip_leaf (cap_MemEvictionReserveBytes x),
     cap_MemAllocatableBytes = strip_leaf (cap_MemAllocatableBytes x),
     cap_SwapTotalBytes = strip_leaf (cap_SwapTotalBytes x),
     cap_SwapUsedBytes = strip_leaf (cap_SwapUsedBytes x),
     cap_CPUPerformanceCores = strip_leaf (cap_CPUPerformanceCores x),
     cap_CPUEfficiencyCores = strip_leaf (cap_CPUEfficiencyCores x),
     cap_GPUPresent = strip_leaf (cap_GPUPresent x), cap_GPUCount = strip_leaf (cap_GPUCount x)\<rparr>"

definition addrs_capacity ::
  "BudgetCapacity \<Rightarrow> addr list"
where
  "addrs_capacity x = addrs_leaf (cap_CPUCapacityMilli x) @ addrs_leaf (cap_CPUSystemReserveMilli x) @
     addrs_leaf (cap_MemCapacityBytes x) @ addrs_leaf (cap_MemSystemReserveBytes x) @
     addrs_leaf (cap_MemEvictionReserveBytes x) @ addrs_leaf (cap_MemAllocatableBytes x) @
     addrs_leaf (cap_SwapTotalBytes x) @ addrs_leaf (cap_SwapUsedBytes x) @
     addrs_leaf (cap_CPUPerformanceCores x) @ addrs_leaf (cap_CPUEfficiencyCores x) @
     addrs_leaf (cap_GPUPresent x) @ addrs_leaf (cap_GPUCount x)"

interpretation copy_capacity: deep_copier BudgetCapacity_DeepCopyInto strip_capacity addrs_capacity
proof
  fix x
  show "copies [] (BudgetCapacity_DeepCopyInto x) addrs_capacity (\<lambda>y. strip_capacity y = strip_capacity x)"
    unfolding BudgetCapacity_DeepCopyInto_def
    apply (rule copies_bind [OF clone_ptr.copy_copies])
    apply (rule copies_bind [OF clone_ptr.copy_copies])
    apply (rule copies_bind [OF clone_ptr.copy_copies])
    apply (rule copies_bind [OF clone_ptr.copy_copies])
    apply (rule copies_bind [OF clone_ptr.copy_copies])
    apply (rule copies_bind [OF clone_ptr.copy_copies])
    apply (rule copies_bind [OF clone_ptr.copy_copies])
    apply (rule copies_bind [OF clone_ptr.copy_copies])
    apply (rule copies_bind [OF clone_ptr.copy_copies])
    apply (rule copies_bind [OF clone_ptr.copy_copies])
    apply (rule copies_bind [OF clone_ptr.copy_copies])
    apply (rule copies_bind [OF clone_ptr.copy_copies])
    apply (rule copies_return; simp add: addrs_capacity_def strip_capacity_def)
    done
qed

definition BudgetSignal_DeepCopyInto ::
  "BudgetSignal \<Rightarrow> (addr, BudgetSignal) state"
where
  "BudgetSignal_DeepCopyInto x = do {
     v1 \<leftarrow> clonePtr (sig_Value x);
     v2 \<leftarrow> clonePtr (sig_WarnThreshold x);
     v3 \<leftarrow> clonePtr (sig_AdmitStopThreshold x);
     v4 \<leftarrow> clonePtr (sig_CriticalThreshold x);
     v5 \<leftarrow> clonePtr (sig_EvictSoftThreshold x);
     v6 \<leftarrow> clonePtr (sig_EvictHardThreshold x);
     v7 \<leftarrow> clonePtr (sig_WarnRelease x);
     v8 \<leftarrow> clonePtr (sig_AdmitStopRelease x);
     v9 \<leftarrow> clonePtr (sig_CriticalRelease x);
     v10 \<leftarrow> clonePtr (sig_EvictSoftRelease x);
     v11 \<leftarrow> clonePtr (sig_EvictHardRelease x);
     v12 \<leftarrow> clonePtr (sig_GraceSeconds x);
     v13 \<leftarrow> clonePtr (sig_MinReclaimBytes x);
     v14 \<leftarrow> clonePtr (sig_WindowSeconds x);
     v15 \<leftarrow> clonePtr (sig_EtaToNextRungSeconds x);
     State_Monad.return (x\<lparr>sig_Value := v1, sig_WarnThreshold := v2, sig_AdmitStopThreshold := v3,
       sig_CriticalThreshold := v4, sig_EvictSoftThreshold := v5, sig_EvictHardThreshold := v6,
       sig_WarnRelease := v7, sig_AdmitStopRelease := v8, sig_CriticalRelease := v9,
       sig_EvictSoftRelease := v10, sig_EvictHardRelease := v11, sig_GraceSeconds := v12,
       sig_MinReclaimBytes := v13, sig_WindowSeconds := v14, sig_EtaToNextRungSeconds := v15\<rparr>) }"

definition strip_signal ::
  "BudgetSignal \<Rightarrow> BudgetSignal"
where
  "strip_signal x = \<lparr>sig_ID = sig_ID x, sig_Unit = sig_Unit x, sig_Value = strip_leaf (sig_Value x),
     sig_WarnThreshold = strip_leaf (sig_WarnThreshold x),
     sig_AdmitStopThreshold = strip_leaf (sig_AdmitStopThreshold x),
     sig_CriticalThreshold = strip_leaf (sig_CriticalThreshold x),
     sig_EvictSoftThreshold = strip_leaf (sig_EvictSoftThreshold x),
     sig_EvictHardThreshold = strip_leaf (sig_EvictHardThreshold x),
     sig_WarnRelease = strip_leaf (sig_WarnRelease x),
     sig_AdmitStopRelease = strip_leaf (sig_AdmitStopRelease x),
     sig_CriticalRelease = strip_leaf (sig_CriticalRelease x),
     sig_EvictSoftRelease = strip_leaf (sig_EvictSoftRelease x),
     sig_EvictHardRelease = strip_leaf (sig_EvictHardRelease x),
     sig_GraceSeconds = strip_leaf (sig_GraceSeconds x),
     sig_MinReclaimBytes = strip_leaf (sig_MinReclaimBytes x),
     sig_WindowSeconds = strip_leaf (sig_WindowSeconds x),
     sig_EtaToNextRungSeconds = strip_leaf (sig_EtaToNextRungSeconds x), sig_Trend = sig_Trend x,
     sig_LimitingResource = sig_LimitingResource x, sig_SharedWith = sig_SharedWith x\<rparr>"

definition addrs_signal ::
  "BudgetSignal \<Rightarrow> addr list"
where
  "addrs_signal x = addrs_leaf (sig_Value x) @ addrs_leaf (sig_WarnThreshold x) @
     addrs_leaf (sig_AdmitStopThreshold x) @ addrs_leaf (sig_CriticalThreshold x) @
     addrs_leaf (sig_EvictSoftThreshold x) @ addrs_leaf (sig_EvictHardThreshold x) @
     addrs_leaf (sig_WarnRelease x) @ addrs_leaf (sig_AdmitStopRelease x) @
     addrs_leaf (sig_CriticalRelease x) @ addrs_leaf (sig_EvictSoftRelease x) @
     addrs_leaf (sig_EvictHardRelease x) @ addrs_leaf (sig_GraceSeconds x) @
     addrs_leaf (sig_MinReclaimBytes x) @ addrs_leaf (sig_WindowSeconds x) @
     addrs_leaf (sig_EtaToNextRungSeconds x)"

interpretation copy_signal: deep_copier BudgetSignal_DeepCopyInto strip_signal addrs_signal
proof
  fix x
  show "copies [] (BudgetSignal_DeepCopyInto x) addrs_signal (\<lambda>y. strip_signal y = strip_signal x)"
    unfolding BudgetSignal_DeepCopyInto_def
    apply (rule copies_bind [OF clone_ptr.copy_copies])
    apply (rule copies_bind [OF clone_ptr.copy_copies])
    apply (rule copies_bind [OF clone_ptr.copy_copies])
    apply (rule copies_bind [OF clone_ptr.copy_copies])
    apply (rule copies_bind [OF clone_ptr.copy_copies])
    apply (rule copies_bind [OF clone_ptr.copy_copies])
    apply (rule copies_bind [OF clone_ptr.copy_copies])
    apply (rule copies_bind [OF clone_ptr.copy_copies])
    apply (rule copies_bind [OF clone_ptr.copy_copies])
    apply (rule copies_bind [OF clone_ptr.copy_copies])
    apply (rule copies_bind [OF clone_ptr.copy_copies])
    apply (rule copies_bind [OF clone_ptr.copy_copies])
    apply (rule copies_bind [OF clone_ptr.copy_copies])
    apply (rule copies_bind [OF clone_ptr.copy_copies])
    apply (rule copies_bind [OF clone_ptr.copy_copies])
    apply (rule copies_return; simp add: addrs_signal_def strip_signal_def)
    done
qed

definition BandCounters_DeepCopyInto ::
  "BandCounters \<Rightarrow> (addr, BandCounters) state"
where
  "BandCounters_DeepCopyInto x = do {
     v1 \<leftarrow> cloneSlice (bc_Windows x);
     State_Monad.return (x\<lparr>bc_Windows := v1\<rparr>) }"

definition strip_counters ::
  "BandCounters \<Rightarrow> BandCounters"
where
  "strip_counters x = \<lparr>bc_Band = bc_Band x, bc_EvictionsTotal = bc_EvictionsTotal x,
     bc_OOMKillsTotal = bc_OOMKillsTotal x, bc_KernelKillsTotal = bc_KernelKillsTotal x,
     bc_RestartsTotal = bc_RestartsTotal x, bc_MemHighEventsTotal = bc_MemHighEventsTotal x,
     bc_Tier1RefusedTotal = bc_Tier1RefusedTotal x, bc_Windows = strip_leaf (bc_Windows x)\<rparr>"

definition addrs_counters ::
  "BandCounters \<Rightarrow> addr list"
where
  "addrs_counters x = addrs_leaf (bc_Windows x)"

interpretation copy_counters: deep_copier BandCounters_DeepCopyInto strip_counters addrs_counters
proof
  fix x
  show "copies [] (BandCounters_DeepCopyInto x) addrs_counters (\<lambda>y. strip_counters y = strip_counters x)"
    unfolding BandCounters_DeepCopyInto_def
    apply (rule copies_bind [OF clone_slice.copy_copies])
    apply (rule copies_return; simp add: addrs_counters_def strip_counters_def)
    done
qed

definition DarwinCompressor_copy ::
  "DarwinCompressor \<Rightarrow> (addr, DarwinCompressor) state"
where
  "DarwinCompressor_copy x = do {
     v1 \<leftarrow> clonePtr (dc_BytesUsed x);
     v2 \<leftarrow> clonePtr (dc_BytesStored x);
     v3 \<leftarrow> clonePtr (dc_SegmentLimitBytes x);
     State_Monad.return (x\<lparr>dc_BytesUsed := v1, dc_BytesStored := v2, dc_SegmentLimitBytes := v3\<rparr>) }"

definition strip_compressor ::
  "DarwinCompressor \<Rightarrow> DarwinCompressor"
where
  "strip_compressor x = \<lparr>dc_BytesUsed = strip_leaf (dc_BytesUsed x), dc_BytesStored = strip_leaf (dc_BytesStored x),
     dc_SegmentLimitBytes = strip_leaf (dc_SegmentLimitBytes x)\<rparr>"

definition addrs_compressor ::
  "DarwinCompressor \<Rightarrow> addr list"
where
  "addrs_compressor x = addrs_leaf (dc_BytesUsed x) @ addrs_leaf (dc_BytesStored x) @ addrs_leaf (dc_SegmentLimitBytes x)"

interpretation copy_compressor: deep_copier DarwinCompressor_copy strip_compressor addrs_compressor
proof
  fix x
  show "copies [] (DarwinCompressor_copy x) addrs_compressor (\<lambda>y. strip_compressor y = strip_compressor x)"
    unfolding DarwinCompressor_copy_def
    apply (rule copies_bind [OF clone_ptr.copy_copies])
    apply (rule copies_bind [OF clone_ptr.copy_copies])
    apply (rule copies_bind [OF clone_ptr.copy_copies])
    apply (rule copies_return; simp add: addrs_compressor_def strip_compressor_def)
    done
qed

definition DarwinSignals_DeepCopyInto ::
  "DarwinSignals \<Rightarrow> (addr, DarwinSignals) state"
where
  "DarwinSignals_DeepCopyInto x = do {
     v1 \<leftarrow> clonePtr (dw_VMPressureLevel x);
     v2 \<leftarrow> clonePtr (dw_MemorystatusLevelPermille x);
     v3 \<leftarrow> clonePtr (dw_SwapinsTotal x);
     v4 \<leftarrow> clonePtr (dw_SwapoutsTotal x);
     v5 \<leftarrow> copyPtr DarwinCompressor_copy (dw_Compressor x);
     State_Monad.return (x\<lparr>dw_VMPressureLevel := v1, dw_MemorystatusLevelPermille := v2, dw_SwapinsTotal := v3,
       dw_SwapoutsTotal := v4, dw_Compressor := v5\<rparr>) }"

definition strip_darwin ::
  "DarwinSignals \<Rightarrow> DarwinSignals"
where
  "strip_darwin x = \<lparr>dw_VMPressureLevel = strip_leaf (dw_VMPressureLevel x),
     dw_MemorystatusLevelPermille = strip_leaf (dw_MemorystatusLevelPermille x),
     dw_Compressor = strip_ptr strip_compressor (dw_Compressor x),
     dw_SwapinsTotal = strip_leaf (dw_SwapinsTotal x),
     dw_SwapoutsTotal = strip_leaf (dw_SwapoutsTotal x)\<rparr>"

definition addrs_darwin ::
  "DarwinSignals \<Rightarrow> addr list"
where
  "addrs_darwin x = addrs_leaf (dw_VMPressureLevel x) @ addrs_leaf (dw_MemorystatusLevelPermille x) @
     addrs_leaf (dw_SwapinsTotal x) @ addrs_leaf (dw_SwapoutsTotal x) @
     addrs_ptr addrs_compressor (dw_Compressor x)"

interpretation copy_darwin: deep_copier DarwinSignals_DeepCopyInto strip_darwin addrs_darwin
proof
  fix x
  show "copies [] (DarwinSignals_DeepCopyInto x) addrs_darwin (\<lambda>y. strip_darwin y = strip_darwin x)"
    unfolding DarwinSignals_DeepCopyInto_def
    apply (rule copies_bind [OF clone_ptr.copy_copies])
    apply (rule copies_bind [OF clone_ptr.copy_copies])
    apply (rule copies_bind [OF clone_ptr.copy_copies])
    apply (rule copies_bind [OF clone_ptr.copy_copies])
    apply (rule copies_bind [OF copy_compressor.copyPtr_copies])
    apply (rule copies_return; simp add: addrs_darwin_def strip_darwin_def)
    done
qed

definition PSILine_copy ::
  "PSILine \<Rightarrow> (addr, PSILine) state"
where
  "PSILine_copy x = do {
     v1 \<leftarrow> clonePtr (psi_Avg10Permille x);
     v2 \<leftarrow> clonePtr (psi_Avg60Permille x);
     v3 \<leftarrow> clonePtr (psi_TotalUs x);
     State_Monad.return (x\<lparr>psi_Avg10Permille := v1, psi_Avg60Permille := v2, psi_TotalUs := v3\<rparr>) }"

definition strip_psiline ::
  "PSILine \<Rightarrow> PSILine"
where
  "strip_psiline x = \<lparr>psi_Avg10Permille = strip_leaf (psi_Avg10Permille x),
     psi_Avg60Permille = strip_leaf (psi_Avg60Permille x), psi_TotalUs = strip_leaf (psi_TotalUs x)\<rparr>"

definition addrs_psiline ::
  "PSILine \<Rightarrow> addr list"
where
  "addrs_psiline x = addrs_leaf (psi_Avg10Permille x) @ addrs_leaf (psi_Avg60Permille x) @ addrs_leaf (psi_TotalUs x)"

interpretation copy_psiline: deep_copier PSILine_copy strip_psiline addrs_psiline
proof
  fix x
  show "copies [] (PSILine_copy x) addrs_psiline (\<lambda>y. strip_psiline y = strip_psiline x)"
    unfolding PSILine_copy_def
    apply (rule copies_bind [OF clone_ptr.copy_copies])
    apply (rule copies_bind [OF clone_ptr.copy_copies])
    apply (rule copies_bind [OF clone_ptr.copy_copies])
    apply (rule copies_return; simp add: addrs_psiline_def strip_psiline_def)
    done
qed

definition PSIResource_copy ::
  "PSIResource \<Rightarrow> (addr, PSIResource) state"
where
  "PSIResource_copy x = do {
     v1 \<leftarrow> copyPtr PSILine_copy (psi_Some x);
     v2 \<leftarrow> copyPtr PSILine_copy (psi_Full x);
     State_Monad.return (x\<lparr>psi_Some := v1, psi_Full := v2\<rparr>) }"

definition strip_psiresource ::
  "PSIResource \<Rightarrow> PSIResource"
where
  "strip_psiresource x = \<lparr>psi_Some = strip_ptr strip_psiline (psi_Some x), psi_Full = strip_ptr strip_psiline (psi_Full x)\<rparr>"

definition addrs_psiresource ::
  "PSIResource \<Rightarrow> addr list"
where
  "addrs_psiresource x = addrs_ptr addrs_psiline (psi_Some x) @ addrs_ptr addrs_psiline (psi_Full x)"

interpretation copy_psiresource: deep_copier PSIResource_copy strip_psiresource addrs_psiresource
proof
  fix x
  show "copies [] (PSIResource_copy x) addrs_psiresource (\<lambda>y. strip_psiresource y = strip_psiresource x)"
    unfolding PSIResource_copy_def
    apply (rule copies_bind [OF copy_psiline.copyPtr_copies])
    apply (rule copies_bind [OF copy_psiline.copyPtr_copies])
    apply (rule copies_return; simp add: addrs_psiresource_def strip_psiresource_def)
    done
qed

definition LinuxPSI_copy ::
  "LinuxPSI \<Rightarrow> (addr, LinuxPSI) state"
where
  "LinuxPSI_copy x = do {
     v1 \<leftarrow> copyPtr PSIResource_copy (psi_CPU x);
     v2 \<leftarrow> copyPtr PSIResource_copy (psi_Memory x);
     v3 \<leftarrow> copyPtr PSIResource_copy (psi_IO x);
     State_Monad.return (x\<lparr>psi_CPU := v1, psi_Memory := v2, psi_IO := v3\<rparr>) }"

definition strip_psi ::
  "LinuxPSI \<Rightarrow> LinuxPSI"
where
  "strip_psi x = \<lparr>psi_CPU = strip_ptr strip_psiresource (psi_CPU x),
     psi_Memory = strip_ptr strip_psiresource (psi_Memory x),
     psi_IO = strip_ptr strip_psiresource (psi_IO x)\<rparr>"

definition addrs_psi ::
  "LinuxPSI \<Rightarrow> addr list"
where
  "addrs_psi x = addrs_ptr addrs_psiresource (psi_CPU x) @ addrs_ptr addrs_psiresource (psi_Memory x) @
     addrs_ptr addrs_psiresource (psi_IO x)"

interpretation copy_psi: deep_copier LinuxPSI_copy strip_psi addrs_psi
proof
  fix x
  show "copies [] (LinuxPSI_copy x) addrs_psi (\<lambda>y. strip_psi y = strip_psi x)"
    unfolding LinuxPSI_copy_def
    apply (rule copies_bind [OF copy_psiresource.copyPtr_copies])
    apply (rule copies_bind [OF copy_psiresource.copyPtr_copies])
    apply (rule copies_bind [OF copy_psiresource.copyPtr_copies])
    apply (rule copies_return; simp add: addrs_psi_def strip_psi_def)
    done
qed

definition LinuxMemoryEvents_copy ::
  "LinuxMemoryEvents \<Rightarrow> (addr, LinuxMemoryEvents) state"
where
  "LinuxMemoryEvents_copy x = do {
     v1 \<leftarrow> clonePtr (me_High x);
     v2 \<leftarrow> clonePtr (me_Max x);
     v3 \<leftarrow> clonePtr (me_OOM x);
     v4 \<leftarrow> clonePtr (me_OOMKill x);
     State_Monad.return (x\<lparr>me_High := v1, me_Max := v2, me_OOM := v3, me_OOMKill := v4\<rparr>) }"

definition strip_events ::
  "LinuxMemoryEvents \<Rightarrow> LinuxMemoryEvents"
where
  "strip_events x = \<lparr>me_High = strip_leaf (me_High x), me_Max = strip_leaf (me_Max x), me_OOM = strip_leaf (me_OOM x),
     me_OOMKill = strip_leaf (me_OOMKill x)\<rparr>"

definition addrs_events ::
  "LinuxMemoryEvents \<Rightarrow> addr list"
where
  "addrs_events x = addrs_leaf (me_High x) @ addrs_leaf (me_Max x) @ addrs_leaf (me_OOM x) @ addrs_leaf (me_OOMKill x)"

interpretation copy_events: deep_copier LinuxMemoryEvents_copy strip_events addrs_events
proof
  fix x
  show "copies [] (LinuxMemoryEvents_copy x) addrs_events (\<lambda>y. strip_events y = strip_events x)"
    unfolding LinuxMemoryEvents_copy_def
    apply (rule copies_bind [OF clone_ptr.copy_copies])
    apply (rule copies_bind [OF clone_ptr.copy_copies])
    apply (rule copies_bind [OF clone_ptr.copy_copies])
    apply (rule copies_bind [OF clone_ptr.copy_copies])
    apply (rule copies_return; simp add: addrs_events_def strip_events_def)
    done
qed

definition LinuxSignals_DeepCopyInto ::
  "LinuxSignals \<Rightarrow> (addr, LinuxSignals) state"
where
  "LinuxSignals_DeepCopyInto x = do {
     v1 \<leftarrow> copyPtr LinuxPSI_copy (lx_PSI x);
     v2 \<leftarrow> copyPtr LinuxMemoryEvents_copy (lx_MemoryEvents x);
     State_Monad.return (x\<lparr>lx_PSI := v1, lx_MemoryEvents := v2\<rparr>) }"

definition strip_linux ::
  "LinuxSignals \<Rightarrow> LinuxSignals"
where
  "strip_linux x = \<lparr>lx_PSI = strip_ptr strip_psi (lx_PSI x),
     lx_MemoryEvents = strip_ptr strip_events (lx_MemoryEvents x)\<rparr>"

definition addrs_linux ::
  "LinuxSignals \<Rightarrow> addr list"
where
  "addrs_linux x = addrs_ptr addrs_psi (lx_PSI x) @ addrs_ptr addrs_events (lx_MemoryEvents x)"

interpretation copy_linux: deep_copier LinuxSignals_DeepCopyInto strip_linux addrs_linux
proof
  fix x
  show "copies [] (LinuxSignals_DeepCopyInto x) addrs_linux (\<lambda>y. strip_linux y = strip_linux x)"
    unfolding LinuxSignals_DeepCopyInto_def
    apply (rule copies_bind [OF copy_psi.copyPtr_copies])
    apply (rule copies_bind [OF copy_events.copyPtr_copies])
    apply (rule copies_return; simp add: addrs_linux_def strip_linux_def)
    done
qed

definition BudgetRecommendation_copy ::
  "BudgetRecommendation \<Rightarrow> (addr, BudgetRecommendation) state"
where
  "BudgetRecommendation_copy x = do {
     v1 \<leftarrow> clonePtr (rec_SafeAdditionalBytes x);
     State_Monad.return (x\<lparr>rec_SafeAdditionalBytes := v1\<rparr>) }"

definition strip_recommendation ::
  "BudgetRecommendation \<Rightarrow> BudgetRecommendation"
where
  "strip_recommendation x = \<lparr>rec_SafeAdditionalBytes = strip_leaf (rec_SafeAdditionalBytes x), rec_Basis = rec_Basis x\<rparr>"

definition addrs_recommendation ::
  "BudgetRecommendation \<Rightarrow> addr list"
where
  "addrs_recommendation x = addrs_leaf (rec_SafeAdditionalBytes x)"

interpretation copy_recommendation: deep_copier BudgetRecommendation_copy strip_recommendation addrs_recommendation
proof
  fix x
  show "copies [] (BudgetRecommendation_copy x) addrs_recommendation (\<lambda>y. strip_recommendation y = strip_recommendation x)"
    unfolding BudgetRecommendation_copy_def
    apply (rule copies_bind [OF clone_ptr.copy_copies])
    apply (rule copies_return; simp add: addrs_recommendation_def strip_recommendation_def)
    done
qed

definition AppliedPolicy_copy ::
  "AppliedPolicy \<Rightarrow> (addr, AppliedPolicy) state"
where
  "AppliedPolicy_copy x = do {
     v1 \<leftarrow> cloneSlice (ap_ClampedFields x);
     State_Monad.return (x\<lparr>ap_ClampedFields := v1\<rparr>) }"

definition strip_applied ::
  "AppliedPolicy \<Rightarrow> AppliedPolicy"
where
  "strip_applied x = \<lparr>ap_PolicyRef = ap_PolicyRef x, ap_Outcome = ap_Outcome x,
     ap_ClampedFields = strip_leaf (ap_ClampedFields x)\<rparr>"

definition addrs_applied ::
  "AppliedPolicy \<Rightarrow> addr list"
where
  "addrs_applied x = addrs_leaf (ap_ClampedFields x)"

interpretation copy_applied: deep_copier AppliedPolicy_copy strip_applied addrs_applied
proof
  fix x
  show "copies [] (AppliedPolicy_copy x) addrs_applied (\<lambda>y. strip_applied y = strip_applied x)"
    unfolding AppliedPolicy_copy_def
    apply (rule copies_bind [OF clone_slice.copy_copies])
    apply (rule copies_return; simp add: addrs_applied_def strip_applied_def)
    done
qed

section \<open>Observation and status\<close>

definition NodeBudgetObservation_DeepCopyInto ::
  "NodeBudgetObservation \<Rightarrow> (addr, NodeBudgetObservation) state"
where
  "NodeBudgetObservation_DeepCopyInto x = do {
     v1 \<leftarrow> clonePtr (obs_EvictDeadline x);
     v2 \<leftarrow> BudgetCapacity_DeepCopyInto (obs_Capacity x);
     v3 \<leftarrow> copySlice BudgetSignal_DeepCopyInto (obs_Signals x);
     v4 \<leftarrow> BudgetRecommendation_copy (obs_Recommendation x);
     v5 \<leftarrow> clonePtr (obs_WouldKill x);
     v6 \<leftarrow> copySlice BandCounters_DeepCopyInto (obs_Counters x);
     v7 \<leftarrow> copyPtr AppliedPolicy_copy (obs_Policy x);
     v8 \<leftarrow> clonePtr (obs_InForce x);
     v9 \<leftarrow> copyPtr DarwinSignals_DeepCopyInto (obs_Darwin x);
     v10 \<leftarrow> copyPtr LinuxSignals_DeepCopyInto (obs_Linux x);
     State_Monad.return (x\<lparr>obs_EvictDeadline := v1, obs_Capacity := v2, obs_Signals := v3, obs_Recommendation := v4,
       obs_WouldKill := v5, obs_Counters := v6, obs_Policy := v7, obs_InForce := v8, obs_Darwin := v9,
       obs_Linux := v10\<rparr>) }"

definition strip_observation ::
  "NodeBudgetObservation \<Rightarrow> NodeBudgetObservation"
where
  "strip_observation x = \<lparr>obs_ObservedAt = obs_ObservedAt x, obs_ProducerGeneration = obs_ProducerGeneration x,
     obs_Platform = obs_Platform x, obs_Level = obs_Level x, obs_Admit = obs_Admit x,
     obs_AdmitReasonSignal = obs_AdmitReasonSignal x,
     obs_EvictDeadline = strip_leaf (obs_EvictDeadline x),
     obs_Capacity = strip_capacity (obs_Capacity x),
     obs_Signals = strip_slice strip_signal (obs_Signals x),
     obs_Recommendation = strip_recommendation (obs_Recommendation x), obs_KillMode = obs_KillMode x,
     obs_WouldKill = strip_leaf (obs_WouldKill x),
     obs_Counters = strip_slice strip_counters (obs_Counters x),
     obs_Policy = strip_ptr strip_applied (obs_Policy x), obs_InForce = strip_leaf (obs_InForce x),
     obs_Darwin = strip_ptr strip_darwin (obs_Darwin x), obs_Linux = strip_ptr strip_linux (obs_Linux x)\<rparr>"

definition addrs_observation ::
  "NodeBudgetObservation \<Rightarrow> addr list"
where
  "addrs_observation x = addrs_leaf (obs_EvictDeadline x) @ addrs_capacity (obs_Capacity x) @
     addrs_slice addrs_signal (obs_Signals x) @ addrs_recommendation (obs_Recommendation x) @
     addrs_leaf (obs_WouldKill x) @ addrs_slice addrs_counters (obs_Counters x) @
     addrs_ptr addrs_applied (obs_Policy x) @ addrs_leaf (obs_InForce x) @
     addrs_ptr addrs_darwin (obs_Darwin x) @ addrs_ptr addrs_linux (obs_Linux x)"

interpretation copy_observation: deep_copier NodeBudgetObservation_DeepCopyInto strip_observation addrs_observation
proof
  fix x
  show "copies [] (NodeBudgetObservation_DeepCopyInto x) addrs_observation (\<lambda>y. strip_observation y = strip_observation x)"
    unfolding NodeBudgetObservation_DeepCopyInto_def
    apply (rule copies_bind [OF clone_ptr.copy_copies])
    apply (rule copies_bind [OF copy_capacity.copy_copies])
    apply (rule copies_bind [OF copy_signal.copySlice_copies])
    apply (rule copies_bind [OF copy_recommendation.copy_copies])
    apply (rule copies_bind [OF clone_ptr.copy_copies])
    apply (rule copies_bind [OF copy_counters.copySlice_copies])
    apply (rule copies_bind [OF copy_applied.copyPtr_copies])
    apply (rule copies_bind [OF clone_ptr.copy_copies])
    apply (rule copies_bind [OF copy_darwin.copyPtr_copies])
    apply (rule copies_bind [OF copy_linux.copyPtr_copies])
    apply (rule copies_return; simp add: addrs_observation_def strip_observation_def)
    done
qed

definition NodeBudgetStatus_DeepCopyInto ::
  "NodeBudgetStatus \<Rightarrow> (addr, NodeBudgetStatus) state"
where
  "NodeBudgetStatus_DeepCopyInto x = do {
     v1 \<leftarrow> NodeBudgetObservation_DeepCopyInto (nbs_Observation x);
     v2 \<leftarrow> clonePtr (nbs_Writer x);
     v3 \<leftarrow> cloneSlice (nbs_Conditions x);
     State_Monad.return (x\<lparr>nbs_Observation := v1, nbs_Writer := v2, nbs_Conditions := v3\<rparr>) }"

definition strip_status ::
  "NodeBudgetStatus \<Rightarrow> NodeBudgetStatus"
where
  "strip_status x = \<lparr>nbs_Observation = strip_observation (nbs_Observation x), nbs_Writer = strip_leaf (nbs_Writer x),
     nbs_Conditions = strip_leaf (nbs_Conditions x)\<rparr>"

definition addrs_status ::
  "NodeBudgetStatus \<Rightarrow> addr list"
where
  "addrs_status x = addrs_observation (nbs_Observation x) @ addrs_leaf (nbs_Writer x) @ addrs_leaf (nbs_Conditions x)"

interpretation copy_status: deep_copier NodeBudgetStatus_DeepCopyInto strip_status addrs_status
proof
  fix x
  show "copies [] (NodeBudgetStatus_DeepCopyInto x) addrs_status (\<lambda>y. strip_status y = strip_status x)"
    unfolding NodeBudgetStatus_DeepCopyInto_def
    apply (rule copies_bind [OF copy_observation.copy_copies])
    apply (rule copies_bind [OF clone_ptr.copy_copies])
    apply (rule copies_bind [OF clone_slice.copy_copies])
    apply (rule copies_return; simp add: addrs_status_def strip_status_def)
    done
qed

section \<open>Objects and lists\<close>

record 'm NodeBudget =
  nb_TypeMeta :: TypeMeta
  nb_ObjectMeta :: "'m ObjectMeta"
  nb_Status :: NodeBudgetStatus

record ('l, 'm) NodeBudgetList =
  nbl_TypeMeta :: TypeMeta
  nbl_ListMeta :: 'l
  nbl_Items :: "'m NodeBudget slice"

record ('l, 'm) NodeBudgetPolicyList =
  npl_TypeMeta :: TypeMeta
  npl_ListMeta :: 'l
  npl_Items :: "'m NodeBudgetPolicy slice"

definition NodeBudget_DeepCopyInto ::
  "('m ObjectMeta \<Rightarrow> (addr, 'm ObjectMeta) state) \<Rightarrow> 'm NodeBudget \<Rightarrow> (addr, 'm NodeBudget) state"
where
  "NodeBudget_DeepCopyInto copyMeta x = do {
     v1 \<leftarrow> copyMeta (nb_ObjectMeta x);
     v2 \<leftarrow> NodeBudgetStatus_DeepCopyInto (nb_Status x);
     State_Monad.return (x\<lparr>nb_ObjectMeta := v1, nb_Status := v2\<rparr>) }"

definition strip_nodebudget ::
  "('m ObjectMeta \<Rightarrow> 'm ObjectMeta) \<Rightarrow> 'm NodeBudget \<Rightarrow> 'm NodeBudget"
where
  "strip_nodebudget stripMeta x = \<lparr>nb_TypeMeta = nb_TypeMeta x, nb_ObjectMeta = stripMeta (nb_ObjectMeta x),
     nb_Status = strip_status (nb_Status x)\<rparr>"

definition addrs_nodebudget ::
  "('m ObjectMeta \<Rightarrow> addr list) \<Rightarrow> 'm NodeBudget \<Rightarrow> addr list"
where
  "addrs_nodebudget addrsMeta x = addrsMeta (nb_ObjectMeta x) @ addrs_status (nb_Status x)"

lemma nodebudget_copier:
  assumes meta: "deep_copier copyMeta stripMeta addrsMeta"
  shows "deep_copier (NodeBudget_DeepCopyInto copyMeta) (strip_nodebudget stripMeta) (addrs_nodebudget addrsMeta)"
proof
  fix x
  show "copies [] (NodeBudget_DeepCopyInto copyMeta x) (addrs_nodebudget addrsMeta) (\<lambda>y. strip_nodebudget stripMeta y = strip_nodebudget stripMeta x)"
    unfolding NodeBudget_DeepCopyInto_def
    apply (rule copies_bind [OF deep_copier.copy_copies [OF meta]])
    apply (rule copies_bind [OF copy_status.copy_copies])
    apply (rule copies_return; simp add: addrs_nodebudget_def strip_nodebudget_def)
    done
qed

definition NodeBudgetList_DeepCopyInto ::
  "('l \<Rightarrow> (addr, 'l) state) \<Rightarrow> ('m ObjectMeta \<Rightarrow> (addr, 'm ObjectMeta) state) \<Rightarrow> ('l, 'm) NodeBudgetList \<Rightarrow> (addr, ('l, 'm) NodeBudgetList) state"
where
  "NodeBudgetList_DeepCopyInto copyList copyMeta x = do {
     v1 \<leftarrow> copyList (nbl_ListMeta x);
     v2 \<leftarrow> copySlice (NodeBudget_DeepCopyInto copyMeta) (nbl_Items x);
     State_Monad.return (x\<lparr>nbl_ListMeta := v1, nbl_Items := v2\<rparr>) }"

definition strip_nodebudgets ::
  "('l \<Rightarrow> 'l) \<Rightarrow> ('m ObjectMeta \<Rightarrow> 'm ObjectMeta) \<Rightarrow> ('l, 'm) NodeBudgetList \<Rightarrow> ('l, 'm) NodeBudgetList"
where
  "strip_nodebudgets stripList stripMeta x = \<lparr>nbl_TypeMeta = nbl_TypeMeta x, nbl_ListMeta = stripList (nbl_ListMeta x),
     nbl_Items = strip_slice (strip_nodebudget stripMeta) (nbl_Items x)\<rparr>"

definition addrs_nodebudgets ::
  "('l \<Rightarrow> addr list) \<Rightarrow> ('m ObjectMeta \<Rightarrow> addr list) \<Rightarrow> ('l, 'm) NodeBudgetList \<Rightarrow> addr list"
where
  "addrs_nodebudgets addrsList addrsMeta x = addrsList (nbl_ListMeta x) @ addrs_slice (addrs_nodebudget addrsMeta) (nbl_Items x)"

lemma nodebudgets_copier:
  assumes list: "deep_copier copyList stripList addrsList" and meta: "deep_copier copyMeta stripMeta addrsMeta"
  shows "deep_copier (NodeBudgetList_DeepCopyInto copyList copyMeta) (strip_nodebudgets stripList stripMeta) (addrs_nodebudgets addrsList addrsMeta)"
proof
  fix x
  show "copies [] (NodeBudgetList_DeepCopyInto copyList copyMeta x) (addrs_nodebudgets addrsList addrsMeta) (\<lambda>y. strip_nodebudgets stripList stripMeta y = strip_nodebudgets stripList stripMeta x)"
    unfolding NodeBudgetList_DeepCopyInto_def
    apply (rule copies_bind [OF deep_copier.copy_copies [OF list]])
    apply (rule copies_bind [OF deep_copier.copySlice_copies [OF nodebudget_copier [OF meta]]])
    apply (rule copies_return; simp add: addrs_nodebudgets_def strip_nodebudgets_def)
    done
qed

definition NodeBudgetPolicyList_DeepCopyInto ::
  "('l \<Rightarrow> (addr, 'l) state) \<Rightarrow> ('m ObjectMeta \<Rightarrow> (addr, 'm ObjectMeta) state) \<Rightarrow> ('l, 'm) NodeBudgetPolicyList \<Rightarrow> (addr, ('l, 'm) NodeBudgetPolicyList) state"
where
  "NodeBudgetPolicyList_DeepCopyInto copyList copyMeta x = do {
     v1 \<leftarrow> copyList (npl_ListMeta x);
     v2 \<leftarrow> copySlice (NodeBudgetPolicy_DeepCopyInto copyMeta) (npl_Items x);
     State_Monad.return (x\<lparr>npl_ListMeta := v1, npl_Items := v2\<rparr>) }"

definition strip_policies ::
  "('l \<Rightarrow> 'l) \<Rightarrow> ('m ObjectMeta \<Rightarrow> 'm ObjectMeta) \<Rightarrow> ('l, 'm) NodeBudgetPolicyList \<Rightarrow> ('l, 'm) NodeBudgetPolicyList"
where
  "strip_policies stripList stripMeta x = \<lparr>npl_TypeMeta = npl_TypeMeta x, npl_ListMeta = stripList (npl_ListMeta x),
     npl_Items = strip_slice (strip_policy stripMeta) (npl_Items x)\<rparr>"

definition addrs_policies ::
  "('l \<Rightarrow> addr list) \<Rightarrow> ('m ObjectMeta \<Rightarrow> addr list) \<Rightarrow> ('l, 'm) NodeBudgetPolicyList \<Rightarrow> addr list"
where
  "addrs_policies addrsList addrsMeta x = addrsList (npl_ListMeta x) @ addrs_slice (addrs_policy addrsMeta) (npl_Items x)"

lemma policies_copier:
  assumes list: "deep_copier copyList stripList addrsList" and meta: "deep_copier copyMeta stripMeta addrsMeta"
  shows "deep_copier (NodeBudgetPolicyList_DeepCopyInto copyList copyMeta) (strip_policies stripList stripMeta) (addrs_policies addrsList addrsMeta)"
proof
  fix x
  show "copies [] (NodeBudgetPolicyList_DeepCopyInto copyList copyMeta x) (addrs_policies addrsList addrsMeta) (\<lambda>y. strip_policies stripList stripMeta y = strip_policies stripList stripMeta x)"
    unfolding NodeBudgetPolicyList_DeepCopyInto_def
    apply (rule copies_bind [OF deep_copier.copy_copies [OF list]])
    apply (rule copies_bind [OF deep_copier.copySlice_copies [OF policy_copier [OF meta]]])
    apply (rule copies_return; simp add: addrs_policies_def strip_policies_def)
    done
qed

text \<open>The pointer methods: a nil receiver gives nil. \<open>DeepCopyObject\<close> returns the interface value of
  the copy, nil for a nil receiver.\<close>

definition NodeBudgetObservation_DeepCopy ::
  "NodeBudgetObservation ptr \<Rightarrow> (addr, NodeBudgetObservation ptr) state"
where
  "NodeBudgetObservation_DeepCopy p = copyPtr NodeBudgetObservation_DeepCopyInto p"

definition NodeBudgetStatus_DeepCopy :: "NodeBudgetStatus ptr \<Rightarrow> (addr, NodeBudgetStatus ptr) state" where
  "NodeBudgetStatus_DeepCopy p = copyPtr NodeBudgetStatus_DeepCopyInto p"

definition NodeBudget_DeepCopy ::
  "('m ObjectMeta \<Rightarrow> (addr, 'm ObjectMeta) state) \<Rightarrow> 'm NodeBudget ptr \<Rightarrow> (addr, 'm NodeBudget ptr) state"
where
  "NodeBudget_DeepCopy copyMeta p = copyPtr (NodeBudget_DeepCopyInto copyMeta) p"

definition NodeBudgetList_DeepCopy ::
  "('l \<Rightarrow> (addr, 'l) state) \<Rightarrow> ('m ObjectMeta \<Rightarrow> (addr, 'm ObjectMeta) state) \<Rightarrow>
   ('l, 'm) NodeBudgetList ptr \<Rightarrow> (addr, ('l, 'm) NodeBudgetList ptr) state"
where
  "NodeBudgetList_DeepCopy copyList copyMeta p = copyPtr (NodeBudgetList_DeepCopyInto copyList copyMeta) p"

definition NodeBudgetPolicySpec_DeepCopy ::
  "NodeBudgetPolicySpec ptr \<Rightarrow> (addr, NodeBudgetPolicySpec ptr) state"
where
  "NodeBudgetPolicySpec_DeepCopy p = copyPtr NodeBudgetPolicySpec_DeepCopyInto p"

definition NodeBudgetPolicy_DeepCopy ::
  "('m ObjectMeta \<Rightarrow> (addr, 'm ObjectMeta) state) \<Rightarrow> 'm NodeBudgetPolicy ptr \<Rightarrow>
   (addr, 'm NodeBudgetPolicy ptr) state"
where
  "NodeBudgetPolicy_DeepCopy copyMeta p = copyPtr (NodeBudgetPolicy_DeepCopyInto copyMeta) p"

definition NodeBudgetPolicyList_DeepCopy ::
  "('l \<Rightarrow> (addr, 'l) state) \<Rightarrow> ('m ObjectMeta \<Rightarrow> (addr, 'm ObjectMeta) state) \<Rightarrow>
   ('l, 'm) NodeBudgetPolicyList ptr \<Rightarrow> (addr, ('l, 'm) NodeBudgetPolicyList ptr) state"
where
  "NodeBudgetPolicyList_DeepCopy copyList copyMeta p =
     copyPtr (NodeBudgetPolicyList_DeepCopyInto copyList copyMeta) p"

definition NodeBudget_DeepCopyObject ::
  "('m ObjectMeta \<Rightarrow> (addr, 'm ObjectMeta) state) \<Rightarrow> 'm NodeBudget ptr \<Rightarrow> (addr, 'm NodeBudget ptr) state"
where
  "NodeBudget_DeepCopyObject copyMeta p = as_object (NodeBudget_DeepCopy copyMeta p)"

definition NodeBudgetList_DeepCopyObject ::
  "('l \<Rightarrow> (addr, 'l) state) \<Rightarrow> ('m ObjectMeta \<Rightarrow> (addr, 'm ObjectMeta) state) \<Rightarrow>
   ('l, 'm) NodeBudgetList ptr \<Rightarrow> (addr, ('l, 'm) NodeBudgetList ptr) state"
where
  "NodeBudgetList_DeepCopyObject copyList copyMeta p = as_object (NodeBudgetList_DeepCopy copyList copyMeta p)"

definition NodeBudgetPolicy_DeepCopyObject ::
  "('m ObjectMeta \<Rightarrow> (addr, 'm ObjectMeta) state) \<Rightarrow> 'm NodeBudgetPolicy ptr \<Rightarrow>
   (addr, 'm NodeBudgetPolicy ptr) state"
where
  "NodeBudgetPolicy_DeepCopyObject copyMeta p = as_object (NodeBudgetPolicy_DeepCopy copyMeta p)"

definition NodeBudgetPolicyList_DeepCopyObject ::
  "('l \<Rightarrow> (addr, 'l) state) \<Rightarrow> ('m ObjectMeta \<Rightarrow> (addr, 'm ObjectMeta) state) \<Rightarrow>
   ('l, 'm) NodeBudgetPolicyList ptr \<Rightarrow> (addr, ('l, 'm) NodeBudgetPolicyList ptr) state"
where
  "NodeBudgetPolicyList_DeepCopyObject copyList copyMeta p =
     as_object (NodeBudgetPolicyList_DeepCopy copyList copyMeta p)"

section \<open>A copy validates as the original\<close>


lemma all_deref_strip:
  "(\<forall>v. deref (strip_ptr f p) = Some v \<longrightarrow> P v) \<longleftrightarrow> (\<forall>v. deref p = Some v \<longrightarrow> P (f v))"
  by (cases p) simp_all


lemma strip_capacity_wf: "capacity_wf (strip_capacity c) = capacity_wf c"
  by (simp add: capacity_wf_def strip_capacity_def)

lemma strip_signal_wf: "signal_wf (strip_signal g) = signal_wf g"
proof -
  have "BudgetSignal_rungs (strip_signal g) = map strip_leaf (BudgetSignal_rungs g)"
    "BudgetSignal_releases (strip_signal g) = map strip_leaf (BudgetSignal_releases g)"
    by (simp_all add: strip_signal_def BudgetSignal_rungs_def BudgetSignal_releases_def)
  moreover have "3 < length (BudgetSignal_rungs g)" by (simp add: BudgetSignal_rungs_def)
  ultimately show ?thesis unfolding signal_wf_def
    by (simp add: ladder_ok_strip) (simp add: strip_signal_def)
qed

lemma strip_parts_wf:
  "counters_wf (strip_counters c) = counters_wf c" "applied_wf (strip_applied p) = applied_wf p"
  "darwin_wf (strip_darwin d) = darwin_wf d"
  by (simp_all add: counters_wf_def strip_counters_def applied_wf_def strip_applied_def darwin_wf_def
      strip_darwin_def strip_compressor_def all_deref_strip)

lemma strip_psiresource_wf: "psiresource_wf (strip_psiresource r) = psiresource_wf r"
  by (simp add: psiresource_wf_def strip_psiresource_def all_deref_strip psiline_wf_def strip_psiline_def)

lemma strip_linux_wf: "linux_wf (strip_linux l) = linux_wf l"
  by (simp add: linux_wf_def strip_linux_def strip_psi_def strip_events_def all_deref_strip strip_psiresource_wf)

lemma strip_observation_wf: "observation_wf (strip_observation x) = observation_wf x"
proof -
  have "header_wf (strip_observation x) = header_wf x"
    by (simp add: header_wf_def strip_observation_def)
  moreover have "map sig_ID (map strip_signal gs) = map sig_ID gs" "map bc_Band (map strip_counters cs) = map bc_Band cs"
    for gs cs by (simp_all add: strip_signal_def strip_counters_def)
  then have "body_wf (strip_observation x) = body_wf x"
    by (simp add: body_wf_def strip_observation_def els_strip_ptr strip_capacity_wf strip_signal_wf strip_parts_wf
        strip_recommendation_def del: map_map)
  moreover have "policy_wf (strip_observation x) = policy_wf x"
    by (cases "obs_Policy x"; cases "obs_InForce x")
      (simp_all add: policy_wf_def strip_observation_def strip_parts_wf, simp_all add: strip_applied_def)
  moreover have "(\<forall>d. deref (obs_Darwin (strip_observation x)) = Some d \<longrightarrow> darwin_wf d) \<longleftrightarrow>
      (\<forall>d. deref (obs_Darwin x) = Some d \<longrightarrow> darwin_wf d)"
    "(\<forall>l. deref (obs_Linux (strip_observation x)) = Some l \<longrightarrow> linux_wf l) \<longleftrightarrow>
      (\<forall>l. deref (obs_Linux x) = Some l \<longrightarrow> linux_wf l)"
    by (simp_all add: strip_observation_def all_deref_strip strip_parts_wf strip_linux_wf)
  ultimately show ?thesis unfolding observation_wf_def by simp
qed

lemma strip_observation_zero:
  "strip_observation x = strip_observation zeroObservation \<longleftrightarrow> x = zeroObservation"
proof
  assume "strip_observation x = strip_observation zeroObservation"
  then show "x = zeroObservation"
    by (cases x) (auto simp: strip_observation_def zeroObservation_def zeroBudgetCapacity_def
        strip_capacity_def strip_recommendation_def intro!: BudgetCapacity.equality BudgetRecommendation.equality)
qed simp

lemma strip_status_Validate:
  assumes "strip_status y = strip_status x"
  shows "NodeBudgetStatus_Validate y = None \<longleftrightarrow> NodeBudgetStatus_Validate x = None"
proof -
  have parts: "strip_observation (nbs_Observation y) = strip_observation (nbs_Observation x)"
    "deref (nbs_Writer y) = deref (nbs_Writer x)" "els (nbs_Conditions y) = els (nbs_Conditions x)"
    using assms by (auto simp: strip_status_def els_deref dest!: deref_strip)
  have "observation_wf (nbs_Observation y) = observation_wf (nbs_Observation x)"
    using strip_observation_wf [of "nbs_Observation y"] strip_observation_wf [of "nbs_Observation x"] parts(1) by simp
  moreover have "nbs_Observation y = zeroObservation \<longleftrightarrow> nbs_Observation x = zeroObservation"
    using strip_observation_zero [of "nbs_Observation y"] strip_observation_zero [of "nbs_Observation x"] parts(1) by simp
  ultimately show ?thesis
    by (simp add: NodeBudgetStatus_Validate_def NodeBudgetObservation_Validate_def
        NodeBudgetObservation_validate_iff parts check_simps)
qed

section \<open>Properties\<close>

text \<open>The deep copies of the lists share nothing: copying a \<open>NodeBudgetList\<close> or a
  \<open>NodeBudgetPolicyList\<close> as a runtime object, with metadata copiers that copy deeply, gives an
  equal value all of whose addresses, at every depth, are distinct and none of the original's;
  nil gives nil.\<close>

theorem list_copies_isolated:
  assumes "deep_copier copyList stripList addrsList" "deep_copier copyMeta stripMeta addrsMeta"
    and "run_state (NodeBudgetList_DeepCopyObject copyList copyMeta p) n = (q, l)"
    and "\<forall>a \<in> set (addrs_ptr (addrs_nodebudgets addrsList addrsMeta) p). a < n"
    and "run_state (NodeBudgetPolicyList_DeepCopyObject copyList copyMeta p') n' = (q', l')"
    and "\<forall>a \<in> set (addrs_ptr (addrs_policies addrsList addrsMeta) p'). a < n'"
  shows "strip_ptr (strip_nodebudgets stripList stripMeta) q = strip_ptr (strip_nodebudgets stripList stripMeta) p \<and>
    distinct (addrs_ptr (addrs_nodebudgets addrsList addrsMeta) q) \<and>
    set (addrs_ptr (addrs_nodebudgets addrsList addrsMeta) q) \<inter>
      set (addrs_ptr (addrs_nodebudgets addrsList addrsMeta) p) = {} \<and> (q = NilP \<longleftrightarrow> p = NilP) \<and>
    strip_ptr (strip_policies stripList stripMeta) q' = strip_ptr (strip_policies stripList stripMeta) p' \<and>
    distinct (addrs_ptr (addrs_policies addrsList addrsMeta) q') \<and>
    set (addrs_ptr (addrs_policies addrsList addrsMeta) q') \<inter>
      set (addrs_ptr (addrs_policies addrsList addrsMeta) p') = {} \<and> (q' = NilP \<longleftrightarrow> p' = NilP)"
proof -
  have "run_state (copyPtr (NodeBudgetList_DeepCopyInto copyList copyMeta) p) n = (q, l)"
    using assms(3) by (simp add: NodeBudgetList_DeepCopyObject_def NodeBudgetList_DeepCopy_def)
  note nodes = pointer_copy_isolated [OF nodebudgets_copier [OF assms(1,2)] this assms(4)]
  have "run_state (copyPtr (NodeBudgetPolicyList_DeepCopyInto copyList copyMeta) p') n' = (q', l')"
    using assms(5) by (simp add: NodeBudgetPolicyList_DeepCopyObject_def NodeBudgetPolicyList_DeepCopy_def)
  note policies = pointer_copy_isolated [OF policies_copier [OF assms(1,2)] this assms(6)]
  show ?thesis using nodes policies by blast
qed

text \<open>A deep copy of a status validates exactly when the original does.\<close>

theorem status_copy_validates:
  assumes "run_state (NodeBudgetStatus_DeepCopyInto s) n = (t, l)"
  shows "NodeBudgetStatus_Validate t = None \<longleftrightarrow> NodeBudgetStatus_Validate s = None"
  by (rule strip_status_Validate) (rule copy_status.copy_value [OF assms])

definition sample_status :: NodeBudgetStatus where
  "sample_status = \<lparr>nbs_Observation = zeroObservation, nbs_Writer = Ptr 1 \<lparr>bw_Shape = WriterOwnNode,
     bw_NodeNameExtra = True\<rparr>, nbs_Conditions = NilP\<rparr>"

theorem status_copy_validates_witness:
  "\<exists>t l. run_state (NodeBudgetStatus_DeepCopyInto sample_status) 5 = (t, l) \<and> NodeBudgetStatus_Validate t = None"
proof -
  obtain t l where r: "run_state (NodeBudgetStatus_DeepCopyInto sample_status) 5 = (t, l)" by (metis prod.exhaust)
  have "NodeBudgetStatus_Validate sample_status = None"
    by (simp add: NodeBudgetStatus_Validate_def NodeBudgetObservation_Validate_def sample_status_def check_simps
        WriterShape_Valid_def)
  with status_copy_validates [OF r] r show ?thesis by simp
qed

definition sample_list :: "(unit, unit) NodeBudgetList ptr" where
  "sample_list = Ptr 1 \<lparr>nbl_TypeMeta = \<lparr>tm_Kind = ''NodeBudgetList'', tm_APIVersion = ''budget.k3sm.io/v1alpha1''\<rparr>,
     nbl_ListMeta = (), nbl_Items = Ptr 2 [\<lparr>nb_TypeMeta = \<lparr>tm_Kind = '''', tm_APIVersion = ''''\<rparr>,
       nb_ObjectMeta = \<lparr>om_Name = ''node-a'', om_rest = ()\<rparr>, nb_Status = sample_status\<rparr>]\<rparr>"

theorem list_copies_isolated_witness:
  "\<exists>q l. run_state (NodeBudgetList_DeepCopyObject State_Monad.return State_Monad.return sample_list) 5 = (q, l) \<and>
     q \<noteq> NilP \<and> set (addrs_ptr (addrs_nodebudgets (\<lambda>_. []) (\<lambda>_. [])) q) \<inter>
       set (addrs_ptr (addrs_nodebudgets (\<lambda>_. []) (\<lambda>_. [])) sample_list) = {}"
proof -
  have u: "deep_copier (State_Monad.return :: 'a \<Rightarrow> (addr, 'a) state) (\<lambda>m. m) (\<lambda>_. [])"
    by unfold_locales (simp add: copies_return)
  obtain q l where r: "run_state (NodeBudgetList_DeepCopyObject State_Monad.return State_Monad.return sample_list) 5 = (q, l)"
    by (metis prod.exhaust)
  obtain q' l' where r': "run_state (NodeBudgetPolicyList_DeepCopyObject
      (State_Monad.return :: unit \<Rightarrow> (addr, unit) state)
      (State_Monad.return :: unit ObjectMeta \<Rightarrow> (addr, unit ObjectMeta) state) NilP) 5 = (q', l')"
    by (metis prod.exhaust)
  have "\<forall>a \<in> set (addrs_ptr (addrs_nodebudgets (\<lambda>_. []) (\<lambda>_. [])) sample_list). a < 5"
    by (simp add: sample_list_def addrs_nodebudgets_def addrs_nodebudget_def addrs_status_def sample_status_def
        addrs_observation_def zeroObservation_def addrs_capacity_def zeroBudgetCapacity_def addrs_recommendation_def)
  from list_copies_isolated [OF u u r this r'] r show ?thesis by (auto simp: sample_list_def)
qed

end
