(* ===== verification/JsonKeys.thy ===== *)
theory JsonKeys
  imports Prelude Bytes
begin

text \<open>
  JSON values and the two key checks of the strict annotation decoder
  (\<open>annotationpayload.go\<close>): \<open>checkDuplicateKeys\<close> over the decoder's tokens and
  \<open>checkExactKeys\<close> over the decoded value and the Go type it was decoded into.

  A JSON value keeps its number literals as written and its object members in document order,
  repetitions included, which is what the token stream of \<open>encoding/json\<close> shows. A Go type is
  what \<open>reflect\<close> tells of it: pointers, slices, the fields of a struct with their tags, and
  \<open>metav1.Time\<close>, which encodes itself.
\<close>

section \<open>JSON\<close>

datatype json =
    JNull
  | JBool bool
  | JNum string
  | JStr string
  | JArr "json list"
  | JObj "(string \<times> json) list"

datatype token = TokDelim char | TokNull | TokBool bool | TokNum string | TokStr string

text \<open>What \<open>Decoder.Token\<close> returns for a value, token by token.\<close>

fun tokens :: "json \<Rightarrow> token list" where
  "tokens JNull = [TokNull]"
| "tokens (JBool b) = [TokBool b]"
| "tokens (JNum n) = [TokNum n]"
| "tokens (JStr s) = [TokStr s]"
| "tokens (JArr vs) = TokDelim CHR ''['' # concat (map tokens vs) @ [TokDelim CHR '']'']"
| "tokens (JObj kvs) = TokDelim CHR ''{'' # concat (map (\<lambda>(k, v). TokStr k # tokens v) kvs) @ [TokDelim CHR ''}'']"


section \<open>Repeated keys\<close>

record frame =
  fr_obj :: bool
  fr_expectKey :: bool
  fr_keys :: "string list"

datatype dup_err = KeyRepeated string | EmptyStackPanic

text \<open>The stack with its top first. Popping an empty stack panics in Go.\<close>

definition valueDone :: "frame list \<Rightarrow> frame list" where
  "valueDone stack =
     (case stack of
        f # rest \<Rightarrow> if fr_obj f then f\<lparr>fr_expectKey := True\<rparr> # rest else stack
      | [] \<Rightarrow> [])"

definition at_key :: "frame list \<Rightarrow> bool" where
  "at_key stack = (case stack of f # _ \<Rightarrow> fr_obj f \<and> fr_expectKey f | [] \<Rightarrow> False)"

definition token_key :: "token \<Rightarrow> string" where
  "token_key tok = (case tok of TokStr s \<Rightarrow> s | _ \<Rightarrow> '''')"

text \<open>The part of the loop body after the key position: the stack it leaves.\<close>

definition value_token :: "token \<Rightarrow> frame list \<Rightarrow> dup_err + frame list" where
  "value_token tok stack =
     (case tok of
        TokDelim d \<Rightarrow>
          if d = CHR ''{'' then Inr (\<lparr>fr_obj = True, fr_expectKey = True, fr_keys = []\<rparr> # stack)
          else if d = CHR ''['' then Inr (\<lparr>fr_obj = False, fr_expectKey = False, fr_keys = []\<rparr> # stack)
          else (case stack of [] \<Rightarrow> Inl EmptyStackPanic | _ # rest \<Rightarrow> Inr (valueDone rest))
      | _ \<Rightarrow> Inr (valueDone stack))"

fun dup_loop :: "frame list \<Rightarrow> token list \<Rightarrow> dup_err option" where
  "dup_loop stack [] = None"
| "dup_loop stack (tok # toks) =
     (if at_key stack then
        (if tok = TokDelim CHR ''}'' then dup_loop (valueDone (tl stack)) toks
         else let f = hd stack; k = token_key tok
           in if k \<in> set (fr_keys f) then Some (KeyRepeated k)
              else dup_loop (f\<lparr>fr_keys := k # fr_keys f, fr_expectKey := False\<rparr> # tl stack) toks)
      else case value_token tok stack of
          Inl e \<Rightarrow> Some e
        | Inr [] \<Rightarrow> None
        | Inr (f # rest) \<Rightarrow> dup_loop (f # rest) toks)"

definition checkDuplicateKeys :: "token list \<Rightarrow> dup_err option" where
  "checkDuplicateKeys toks = dup_loop [] toks"

text \<open>The first key, in document order, that its object names twice.\<close>

fun first_dup :: "json \<Rightarrow> string option" and members_dup :: "string list \<Rightarrow> (string \<times> json) list \<Rightarrow> string option"
  and elements_dup :: "json list \<Rightarrow> string option"
where
  "first_dup (JObj kvs) = members_dup [] kvs"
| "first_dup (JArr vs) = elements_dup vs"
| "first_dup v = None"
| "members_dup seen [] = None"
| "members_dup seen ((k, v) # kvs) =
     (if k \<in> set seen then Some k
      else case first_dup v of Some d \<Rightarrow> Some d | None \<Rightarrow> members_dup (k # seen) kvs)"
| "elements_dup [] = None"
| "elements_dup (v # vs) = (case first_dup v of Some d \<Rightarrow> Some d | None \<Rightarrow> elements_dup vs)"

text \<open>No object of the value, at any depth, names a key twice.\<close>

fun unique_keys :: "json \<Rightarrow> bool" where
  "unique_keys (JObj kvs) = (distinct (map fst kvs) \<and> (\<forall>kv \<in> set kvs. unique_keys (snd kv)))"
| "unique_keys (JArr vs) = (\<forall>v \<in> set vs. unique_keys v)"
| "unique_keys v = True"

text \<open>A value in value position on a stack: the loop reports the first repeated key or goes on.\<close>

definition loop_on :: "frame list \<Rightarrow> token list \<Rightarrow> dup_err option" where
  "loop_on stack toks = (case valueDone stack of [] \<Rightarrow> None | f # rest \<Rightarrow> dup_loop (f # rest) toks)"

definition or_on :: "string option \<Rightarrow> dup_err option \<Rightarrow> dup_err option" where
  "or_on d r = (case d of Some k \<Rightarrow> Some (KeyRepeated k) | None \<Rightarrow> r)"

lemma dup_loop_value:
  "\<not> at_key stack \<Longrightarrow> stack = [] \<longrightarrow> toks = [] \<Longrightarrow> dup_loop stack (tokens v @ toks) = or_on (first_dup v) (loop_on stack toks)"
  "stack = [] \<longrightarrow> toks = [] \<Longrightarrow> dup_loop (\<lparr>fr_obj = True, fr_expectKey = True, fr_keys = seen\<rparr> # stack)
     (concat (map (\<lambda>(k, v). TokStr k # tokens v) kvs) @ TokDelim CHR ''}'' # toks) =
   or_on (members_dup seen kvs) (loop_on stack toks)"
  "stack = [] \<longrightarrow> toks = [] \<Longrightarrow> dup_loop (\<lparr>fr_obj = False, fr_expectKey = False, fr_keys = []\<rparr> # stack)
     (concat (map tokens vs) @ TokDelim CHR '']'' # toks) = or_on (elements_dup vs) (loop_on stack toks)"
proof (induction v and seen kvs and vs arbitrary: stack toks and stack toks and stack toks
    rule: first_dup_members_dup_elements_dup.induct)
qed (auto simp: at_key_def value_token_def loop_on_def valueDone_def or_on_def token_key_def Let_def
    split: list.splits option.splits)

lemma first_dup_None:
  "first_dup v = None \<longleftrightarrow> unique_keys v"
  "members_dup seen kvs = None \<longleftrightarrow>
     distinct (map fst kvs) \<and> set (map fst kvs) \<inter> set seen = {} \<and> (\<forall>kv \<in> set kvs. unique_keys (snd kv))"
  "elements_dup vs = None \<longleftrightarrow> (\<forall>v \<in> set vs. unique_keys v)"
proof (induction v and seen kvs and vs rule: first_dup_members_dup_elements_dup.induct)
qed (auto split: option.splits)

lemma checkDuplicateKeys_eq: "checkDuplicateKeys (tokens v) = map_option KeyRepeated (first_dup v)"
proof -
  have "dup_loop [] (tokens v @ []) = or_on (first_dup v) (loop_on [] [])"
    by (rule dup_loop_value) (simp_all add: at_key_def)
  then show ?thesis by (simp add: checkDuplicateKeys_def or_on_def loop_on_def valueDone_def split: option.split)
qed

section \<open>Keys that are not field names\<close>

datatype gotype =
    GTime
  | GPtr gotype
  | GSlice gotype
  | GStruct "gofield list"
  | GOther
and gofield = GField (gf_name: string) (gf_exported: bool) (gf_anonymous: bool) (gf_tag: string) (gf_type: gotype)

fun pointee :: "gotype \<Rightarrow> gotype" where
  "pointee (GPtr t) = pointee t"
| "pointee t = t"

definition kind_struct :: "gotype \<Rightarrow> bool" where
  "kind_struct t = (case t of GStruct _ \<Rightarrow> True | GTime \<Rightarrow> True | _ \<Rightarrow> False)"

text \<open>The fields of \<open>metav1.Time\<close> are the embedded \<open>time.Time\<close>, which exports none.\<close>

fun struct_fields :: "gotype \<Rightarrow> gofield list" where
  "struct_fields (GStruct fs) = fs"
| "struct_fields t = []"

definition json_name :: "string \<Rightarrow> string" where
  "json_name tag = takeWhile (\<lambda>c. c \<noteq> CHR '','') tag"

lemma struct_fields_bound: "size_list size (struct_fields t) < Suc (Suc (size t + n))"
  by (cases t) simp_all

text \<open>The map that \<open>collectJSONFields\<close> fills, its latest entry for a name first.\<close>

function (sequential) collectJSONFields ::
  "gofield list \<Rightarrow> (string \<times> gotype) list \<Rightarrow> (string \<times> gotype) list"
where
  "collectJSONFields [] out = out"
| "collectJSONFields (GField name exported anonymous tag t # fs) out =
     (if \<not> exported then collectJSONFields fs out
      else if json_name tag = ''-'' then collectJSONFields fs out
      else if anonymous \<and> json_name tag = '''' \<and> kind_struct t
      then collectJSONFields fs (collectJSONFields (struct_fields t) out)
      else collectJSONFields fs ((if json_name tag = '''' then name else json_name tag, t) # out))"
  by pat_completeness auto
termination
  by (relation "measure (\<lambda>(fs, _). size_list size fs)") (auto intro: struct_fields_bound)

datatype key_err = UnknownKey string string

definition trim_dot :: "string \<Rightarrow> string" where
  "trim_dot path = (if HasPrefix path ''.'' then tl path else path)"

text \<open>The members of an object stand for the entries of the decoded map in the order it is ranged
  over. The check runs after \<open>checkDuplicateKeys\<close>, so there is one entry for each member.\<close>

fun checkExactKeys :: "json \<Rightarrow> gotype \<Rightarrow> string \<Rightarrow> key_err option"
  and exact_members :: "(string \<times> json) list \<Rightarrow> (string \<times> gotype) list \<Rightarrow> string \<Rightarrow> key_err option"
  and exact_elements :: "nat \<Rightarrow> json list \<Rightarrow> gotype \<Rightarrow> string \<Rightarrow> key_err option"
where
  "checkExactKeys v t path =
     (if v = JNull \<or> pointee t = GTime then None
      else case pointee t of
          GStruct fs \<Rightarrow>
            (case v of JObj kvs \<Rightarrow> exact_members kvs (collectJSONFields fs []) path | _ \<Rightarrow> None)
        | GSlice e \<Rightarrow> (case v of JArr vs \<Rightarrow> exact_elements 0 vs e path | _ \<Rightarrow> None)
        | _ \<Rightarrow> None)"
| "exact_members [] fts path = None"
| "exact_members ((k, child) # kvs) fts path =
     (case map_of fts k of
        None \<Rightarrow> Some (UnknownKey (trim_dot path) k)
      | Some ft \<Rightarrow>
          (case checkExactKeys child ft (path @ ''.'' @ k) of
             Some e \<Rightarrow> Some e
           | None \<Rightarrow> exact_members kvs fts path))"
| "exact_elements i [] t path = None"
| "exact_elements i (e # es) t path =
     (case checkExactKeys e t (path @ ''['' @ nat_dec i @ '']'') of
        Some err \<Rightarrow> Some err
      | None \<Rightarrow> exact_elements (i + 1) es t path)"

text \<open>Every key, at any depth the type has, is byte for byte a field's name.\<close>

fun exact_keys :: "json \<Rightarrow> gotype \<Rightarrow> bool" where
  "exact_keys (JObj kvs) t =
     (case pointee t of
        GStruct fs \<Rightarrow> \<forall>kv \<in> set kvs.
          (case map_of (collectJSONFields fs []) (fst kv) of None \<Rightarrow> False | Some ft \<Rightarrow> exact_keys (snd kv) ft)
      | _ \<Rightarrow> True)"
| "exact_keys (JArr vs) t = (case pointee t of GSlice e \<Rightarrow> \<forall>v \<in> set vs. exact_keys v e | _ \<Rightarrow> True)"
| "exact_keys v t = True"

lemma checkExactKeys_None:
  "checkExactKeys v t path = None \<longleftrightarrow> exact_keys v t"
  "exact_members kvs fts path = None \<longleftrightarrow>
     (\<forall>kv \<in> set kvs. case map_of fts (fst kv) of None \<Rightarrow> False | Some ft \<Rightarrow> exact_keys (snd kv) ft)"
  "exact_elements i vs e path = None \<longleftrightarrow> (\<forall>v \<in> set vs. exact_keys v e)"
proof (induction v t path and kvs fts path and i vs e path rule: checkExactKeys_exact_members_exact_elements.induct)
  case (1 v t path)
  then show ?case
    unfolding checkExactKeys.simps [of v t path] by (cases "pointee t"; cases v) simp_all
next
  case (3 k child kvs fts path)
  then show ?case
    by (cases "map_of fts k"; cases "checkExactKeys child (the (map_of fts k)) (path @ ''.'' @ k)")
      (simp_all del: checkExactKeys.simps)
qed (auto simp del: checkExactKeys.simps split: option.splits)

section \<open>The fields of a struct, as a relation\<close>

text \<open>What a field name is, stated without the walk: the name of a tag is the part before its first
  comma; an exported field whose tag is not \<open>-\<close> is known by that name, or by its Go name when the
  tag has none; an embedded struct without a name lends its own fields instead.\<close>

definition tag_names :: "string \<Rightarrow> string \<Rightarrow> bool" where
  "tag_names tag n \<longleftrightarrow> CHR '','' \<notin> set n \<and> (tag = n \<or> (\<exists>opts. tag = n @ CHR '','' # opts))"

inductive field_of :: "gofield list \<Rightarrow> string \<Rightarrow> gotype \<Rightarrow> bool" where
  tagged: "GField name True anonymous tag t \<in> set fs \<Longrightarrow> tag_names tag n \<Longrightarrow> n \<noteq> '''' \<Longrightarrow> n \<noteq> ''-'' \<Longrightarrow>
    field_of fs n t"
| untagged: "GField name True anonymous tag t \<in> set fs \<Longrightarrow> tag_names tag '''' \<Longrightarrow>
    \<not> (anonymous \<and> (t = GTime \<or> (\<exists>gs. t = GStruct gs))) \<Longrightarrow> field_of fs name t"
| lent: "GField name True True tag (GStruct gs) \<in> set fs \<Longrightarrow> tag_names tag '''' \<Longrightarrow> field_of gs n t \<Longrightarrow>
    field_of fs n t"

lemma gf_type_size [termination_simp]: "f \<in> set fs \<Longrightarrow> size (gf_type f) < Suc (size_list size fs)"
proof (induction fs)
  case (Cons g fs)
  then show ?case by (cases g) auto
qed simp

text \<open>A name never stands for two types, at any depth of the type.\<close>

fun unambiguous :: "gotype \<Rightarrow> bool" where
  "unambiguous (GPtr t) = unambiguous t"
| "unambiguous (GSlice t) = unambiguous t"
| "unambiguous (GStruct fs) = ((\<forall>n t u. field_of fs n t \<longrightarrow> field_of fs n u \<longrightarrow> t = u) \<and>
     (\<forall>f \<in> set fs. unambiguous (gf_type f)))"
| "unambiguous t = True"

text \<open>Every key of an object that a struct describes, behind any number of pointers, is a field of
  that struct, and the same holds inside; so it does for the elements of a slice.\<close>

fun keys_named :: "json \<Rightarrow> gotype \<Rightarrow> bool" where
  "keys_named (JObj kvs) t = (\<forall>fs i. t = (GPtr ^^ i) (GStruct fs) \<longrightarrow>
     (\<forall>kv \<in> set kvs. \<exists>u. field_of fs (fst kv) u \<and> keys_named (snd kv) u))"
| "keys_named (JArr vs) t = (\<forall>e i. t = (GPtr ^^ i) (GSlice e) \<longrightarrow> (\<forall>v \<in> set vs. keys_named v e))"
| "keys_named v t = True"

lemma tag_names_iff: "tag_names tag n \<longleftrightarrow> json_name tag = n"
proof
  assume "tag_names tag n"
  then have comma: "\<And>c. c \<in> set n \<Longrightarrow> c \<noteq> CHR '',''" and tag: "tag = n \<or> (\<exists>opts. tag = n @ CHR '','' # opts)"
    unfolding tag_names_def by metis+
  from tag show "json_name tag = n"
  proof
    assume "\<exists>opts. tag = n @ CHR '','' # opts"
    then obtain opts where "tag = n @ CHR '','' # opts" ..
    then show ?thesis using comma by (simp add: json_name_def takeWhile_append2)
  qed (use comma in \<open>simp add: json_name_def takeWhile_eq_all_conv\<close>)
next
  let ?P = "\<lambda>c. c \<noteq> CHR '',''"
  assume n: "json_name tag = n"
  have split: "takeWhile ?P tag @ dropWhile ?P tag = tag" by (rule takeWhile_dropWhile_id)
  have "CHR '','' \<notin> set n" using set_takeWhileD [of _ ?P tag] n unfolding json_name_def by metis
  moreover have "tag = n \<or> (\<exists>opts. tag = n @ CHR '','' # opts)"
  proof (cases "dropWhile ?P tag")
    case Nil
    with split n have "tag = n" unfolding json_name_def by (metis append_Nil2)
    then show ?thesis ..
  next
    case (Cons c opts)
    then have "c = CHR '',''" using hd_dropWhile [of ?P tag] by simp
    with Cons split n have "tag = n @ CHR '','' # opts" by (simp add: json_name_def)
    then show ?thesis by blast
  qed
  ultimately show "tag_names tag n" by (simp add: tag_names_def)
qed

lemma field_of_mono: "field_of fs n t \<Longrightarrow> set fs \<subseteq> set gs \<Longrightarrow> field_of gs n t"
proof (induction rule: field_of.cases)
  case (tagged name anonymous tag t fs n)
  then show ?case by (metis field_of.tagged subsetD)
next
  case (untagged name anonymous tag t fs)
  then show ?case by (metis field_of.untagged subsetD)
next
  case (lent name tag hs fs n t)
  then show ?case by (metis field_of.lent subsetD)
qed

lemma field_of_single:
  assumes "field_of fs n t"
  obtains g where "g \<in> set fs" "field_of [g] n t"
  using assms
proof (cases rule: field_of.cases)
  case (tagged name anonymous tag)
  then show ?thesis using field_of.tagged [of name anonymous tag t "[GField name True anonymous tag t]" n] that by simp
next
  case (untagged anonymous tag)
  then show ?thesis using field_of.untagged [of n anonymous tag t "[GField n True anonymous tag t]"] that by simp
next
  case (lent name tag gs)
  then show ?thesis
    using field_of.lent [of name tag gs "[GField name True True tag (GStruct gs)]" n t] that by simp
qed

lemma field_of_Nil: "\<not> field_of [] n t"
  by (subst field_of.simps) simp

lemma field_of_Cons: "field_of (f # fs) n t \<longleftrightarrow> field_of [f] n t \<or> field_of fs n t"
proof
  assume "field_of (f # fs) n t"
  then obtain g where "g \<in> set (f # fs)" "field_of [g] n t"
    by (rule field_of_single)
  then show "field_of [f] n t \<or> field_of fs n t" using field_of_mono [of "[g]" n t fs] by auto
qed (auto elim: field_of_mono)

text \<open>One field: the three cases of the loop body of \<open>collectJSONFields\<close>.\<close>

lemma field_of_one:
  "field_of [GField name exported anonymous tag t] n u \<longleftrightarrow> exported \<and> json_name tag \<noteq> ''-'' \<and>
     (if anonymous \<and> json_name tag = '''' \<and> kind_struct t then field_of (struct_fields t) n u
      else n = (if json_name tag = '''' then name else json_name tag) \<and> u = t)"
  unfolding field_of.simps [of "[GField name exported anonymous tag t]"]
  by (cases exported; cases anonymous; cases t) (auto simp: tag_names_iff kind_struct_def field_of_Nil)

lemma collectJSONFields_set:
  "(n, t) \<in> set (collectJSONFields fs out) \<longleftrightarrow> field_of fs n t \<or> (n, t) \<in> set out"
proof (induction fs out rule: collectJSONFields.induct)
  case (2 name exported anonymous tag ft fs out)
  then show ?case unfolding field_of_Cons [of _ fs] field_of_one by auto
qed (simp add: field_of_Nil)

lemma unambiguous_fields:
  "distinct (map fst (collectJSONFields fs [])) \<Longrightarrow> field_of fs n t \<Longrightarrow> field_of fs n u \<Longrightarrow> t = u"
  using collectJSONFields_set [of n t fs "[]"] collectJSONFields_set [of n u fs "[]"]
  by (auto dest: eq_key_imp_eq_value)

lemma unambiguous_struct:
  assumes "distinct (map fst (collectJSONFields fs []))" "list_all (\<lambda>f. unambiguous (gf_type f)) fs"
  shows "unambiguous (GStruct fs)"
  unfolding unambiguous.simps using unambiguous_fields [OF assms(1)] assms(2) by (simp add: list_all_iff)

lemma unambiguous_field: "field_of fs n t \<Longrightarrow> unambiguous (GStruct fs) \<Longrightarrow> unambiguous t"
proof (induction rule: field_of.induct)
  case (tagged name anonymous tag t fs n)
  then have "unambiguous (gf_type (GField name True anonymous tag t))" unfolding unambiguous.simps by blast
  then show ?case by simp
next
  case (untagged name anonymous tag t fs)
  then have "unambiguous (gf_type (GField name True anonymous tag t))" unfolding unambiguous.simps by blast
  then show ?case by simp
next
  case (lent name tag gs fs n t)
  then have "unambiguous (gf_type (GField name True True tag (GStruct gs)))"
    unfolding unambiguous.simps(3) by blast
  with lent.IH show ?case by simp
qed

lemma map_of_collect:
  assumes "unambiguous (GStruct fs)"
  shows "map_of (collectJSONFields fs []) n = Some t \<longleftrightarrow> field_of fs n t"
proof
  assume "map_of (collectJSONFields fs []) n = Some t"
  then show "field_of fs n t" using collectJSONFields_set [of n t fs "[]"] by (auto dest: map_of_SomeD)
next
  assume t: "field_of fs n t"
  then obtain u where u: "map_of (collectJSONFields fs []) n = Some u"
    using collectJSONFields_set [of n t fs "[]"] weak_map_of_SomeI [of n t] by auto
  then have "field_of fs n u" using collectJSONFields_set [of n u fs "[]"] by (auto dest: map_of_SomeD)
  with t assms have "u = t" by simp
  with u show "map_of (collectJSONFields fs []) n = Some t" by simp
qed

lemma pointee_form: "\<exists>i. t = (GPtr ^^ i) (pointee t)"
proof (induction t rule: pointee.induct)
  case (1 t)
  then obtain i where "t = (GPtr ^^ i) (pointee t)" ..
  then have "GPtr t = (GPtr ^^ Suc i) (pointee (GPtr t))" by simp
  then show ?case ..
qed (rule exI [of _ 0], simp)+

lemma pointee_pow: "pointee ((GPtr ^^ i) t) = pointee t"
  by (induction i) simp_all

lemma pointee_iff: "pointee u = u \<Longrightarrow> pointee t = u \<longleftrightarrow> (\<exists>i. t = (GPtr ^^ i) u)"
  using pointee_form [of t] by (auto simp: pointee_pow)

lemma unambiguous_pointee: "unambiguous (pointee t) = unambiguous t"
  by (induction t rule: pointee.induct) simp_all

lemma exact_keys_named: "unambiguous t \<Longrightarrow> exact_keys v t \<longleftrightarrow> keys_named v t"
proof (induction v arbitrary: t)
  case (JObj kvs)
  have "exact_keys (JObj kvs) t \<longleftrightarrow> (\<forall>fs. pointee t = GStruct fs \<longrightarrow>
      (\<forall>kv \<in> set kvs. \<exists>u. field_of fs (fst kv) u \<and> exact_keys (snd kv) u))"
  proof (cases "pointee t")
    case (GStruct fs)
    then have fs: "unambiguous (GStruct fs)" using JObj.prems unambiguous_pointee [of t] by simp
    have "(case map_of (collectJSONFields fs []) k of None \<Rightarrow> False | Some ft \<Rightarrow> exact_keys w ft) \<longleftrightarrow>
        (\<exists>u. field_of fs k u \<and> exact_keys w u)" for k w
      unfolding map_of_collect [OF fs, symmetric] by (simp split: option.split)
    with GStruct show ?thesis by simp
  qed simp_all
  also have "\<dots> \<longleftrightarrow> (\<forall>fs. pointee t = GStruct fs \<longrightarrow>
      (\<forall>kv \<in> set kvs. \<exists>u. field_of fs (fst kv) u \<and> keys_named (snd kv) u))"
  proof -
    have "exact_keys (snd kv) u \<longleftrightarrow> keys_named (snd kv) u"
      if "pointee t = GStruct fs" "kv \<in> set kvs" "field_of fs (fst kv) u" for fs kv u
    proof (rule JObj.IH [OF that(2)])
      show "snd kv \<in> Basic_BNFs.snds kv" by (cases kv) simp
      have "unambiguous (GStruct fs)" using JObj.prems that(1) unambiguous_pointee [of t] by simp
      then show "unambiguous u" by (rule unambiguous_field [OF that(3)])
    qed
    then show ?thesis by blast
  qed
  finally show ?case by (auto simp: pointee_iff)
next
  case (JArr vs)
  have "exact_keys (JArr vs) t \<longleftrightarrow> (\<forall>e. pointee t = GSlice e \<longrightarrow> (\<forall>v \<in> set vs. exact_keys v e))"
    by (cases "pointee t") simp_all
  also have "\<dots> \<longleftrightarrow> (\<forall>e. pointee t = GSlice e \<longrightarrow> (\<forall>v \<in> set vs. keys_named v e))"
  proof -
    have "exact_keys v e \<longleftrightarrow> keys_named v e" if "pointee t = GSlice e" "v \<in> set vs" for v e
      using JArr.prems that(1) unambiguous_pointee [of t] by (intro JArr.IH [OF that(2)]) simp
    then show ?thesis by blast
  qed
  finally show ?case by (auto simp: pointee_iff)
qed simp_all

lemma checkExactKeys_order:
  "set kvs = set kvs' \<Longrightarrow>
     checkExactKeys (JObj kvs) t path = None \<longleftrightarrow> checkExactKeys (JObj kvs') t path = None"
  unfolding checkExactKeys_None by (simp split: gotype.split)

section \<open>Properties\<close>

text \<open>(C35) \<open>checkDuplicateKeys\<close> finds repeated keys: over the tokens of a JSON value it returns nil
  exactly when no object of the value, at any depth, names a key twice, it otherwise names the
  first one in document order, and it never pops an empty stack.\<close>

theorem checkDuplicateKeys_decides:
  "(checkDuplicateKeys (tokens v) = None \<longleftrightarrow> unique_keys v) \<and>
   checkDuplicateKeys (tokens v) = map_option KeyRepeated (first_dup v)"
  by (simp add: checkDuplicateKeys_eq first_dup_None)

end
