(* ===== verification/Annotation.thy ===== *)
theory Annotation
  imports JsonKeys Policy Observation
begin

text \<open>
  The annotation payloads (\<open>annotationpayload.go\<close>): the report a node writes on its Node and the
  policy the relay writes there, with the strict decoder.

  What \<open>encoding/json\<close> does is an argument of the definitions that use it: \<open>scan\<close> gives the value
  a text holds and whether other data follows it, \<open>decode\<close> fills a Go struct from a value with
  unknown fields disallowed, \<open>marshal\<close> writes a struct. Everything the file itself decides is
  modelled: the size bound, the schema probe, the two key checks, the merging of windows and
  the order of all of them. The Go types of the payloads are written out with their tags.
\<close>

section \<open>The types of the payloads\<close>

definition BudgetCapacity_type :: gotype where
  "BudgetCapacity_type = GStruct [
     GField ''CPUCapacityMilli'' True False ''cpuCapacityMilli,omitempty'' (GPtr GOther),
     GField ''CPUSystemReserveMilli'' True False ''cpuSystemReserveMilli,omitempty'' (GPtr GOther),
     GField ''MemCapacityBytes'' True False ''memCapacityBytes,omitempty'' (GPtr GOther),
     GField ''MemSystemReserveBytes'' True False ''memSystemReserveBytes,omitempty'' (GPtr GOther),
     GField ''MemEvictionReserveBytes'' True False ''memEvictionReserveBytes,omitempty'' (GPtr GOther),
     GField ''MemAllocatableBytes'' True False ''memAllocatableBytes,omitempty'' (GPtr GOther),
     GField ''SwapTotalBytes'' True False ''swapTotalBytes,omitempty'' (GPtr GOther),
     GField ''SwapUsedBytes'' True False ''swapUsedBytes,omitempty'' (GPtr GOther),
     GField ''CPUPerformanceCores'' True False ''cpuPerformanceCores,omitempty'' (GPtr GOther),
     GField ''CPUEfficiencyCores'' True False ''cpuEfficiencyCores,omitempty'' (GPtr GOther),
     GField ''GPUPresent'' True False ''gpuPresent,omitempty'' (GPtr GOther),
     GField ''GPUCount'' True False ''gpuCount,omitempty'' (GPtr GOther)]"

definition BudgetSignal_type :: gotype where
  "BudgetSignal_type = GStruct [
     GField ''ID'' True False ''id'' GOther,
     GField ''Unit'' True False ''unit'' GOther,
     GField ''Value'' True False ''value,omitempty'' (GPtr GOther),
     GField ''WarnThreshold'' True False ''warnThreshold,omitempty'' (GPtr GOther),
     GField ''AdmitStopThreshold'' True False ''admitStopThreshold,omitempty'' (GPtr GOther),
     GField ''CriticalThreshold'' True False ''criticalThreshold,omitempty'' (GPtr GOther),
     GField ''EvictSoftThreshold'' True False ''evictSoftThreshold,omitempty'' (GPtr GOther),
     GField ''EvictHardThreshold'' True False ''evictHardThreshold,omitempty'' (GPtr GOther),
     GField ''WarnRelease'' True False ''warnRelease,omitempty'' (GPtr GOther),
     GField ''AdmitStopRelease'' True False ''admitStopRelease,omitempty'' (GPtr GOther),
     GField ''CriticalRelease'' True False ''criticalRelease,omitempty'' (GPtr GOther),
     GField ''EvictSoftRelease'' True False ''evictSoftRelease,omitempty'' (GPtr GOther),
     GField ''EvictHardRelease'' True False ''evictHardRelease,omitempty'' (GPtr GOther),
     GField ''GraceSeconds'' True False ''graceSeconds,omitempty'' (GPtr GOther),
     GField ''MinReclaimBytes'' True False ''minReclaimBytes,omitempty'' (GPtr GOther),
     GField ''WindowSeconds'' True False ''windowSeconds,omitempty'' (GPtr GOther),
     GField ''EtaToNextRungSeconds'' True False ''etaToNextRungSeconds,omitempty'' (GPtr GOther),
     GField ''Trend'' True False ''trend,omitempty'' GOther,
     GField ''LimitingResource'' True False ''limitingResource,omitempty'' GOther,
     GField ''SharedWith'' True False ''sharedWith,omitempty'' GOther]"

definition BudgetRecommendation_type :: gotype where
  "BudgetRecommendation_type = GStruct [
     GField ''SafeAdditionalBytes'' True False ''safeAdditionalBytes,omitempty'' (GPtr GOther),
     GField ''Basis'' True False ''basis,omitempty'' GOther]"

definition KillMode_type :: gotype where
  "KillMode_type = GStruct [
     GField ''Mode'' True False ''mode,omitempty'' GOther,
     GField ''Armed'' True False ''armed,omitempty'' GOther,
     GField ''ArmingEpisodes'' True False ''armingEpisodes,omitempty'' GOther,
     GField ''Reason'' True False ''reason,omitempty'' GOther]"

definition WouldKill_type :: gotype where
  "WouldKill_type = GStruct [
     GField ''Band'' True False ''band'' GOther,
     GField ''Reason'' True False ''reason'' GOther,
     GField ''At'' True False ''at'' GTime]"

definition WindowCount_type :: gotype where
  "WindowCount_type = GStruct [
     GField ''Window'' True False ''window'' GOther,
     GField ''Reason'' True False ''reason'' GOther,
     GField ''Count'' True False ''count'' GOther]"

definition BandCounters_type :: gotype where
  "BandCounters_type = GStruct [
     GField ''Band'' True False ''band'' GOther,
     GField ''EvictionsTotal'' True False ''evictionsTotal'' GOther,
     GField ''OOMKillsTotal'' True False ''oomKillsTotal'' GOther,
     GField ''KernelKillsTotal'' True False ''kernelKillsTotal'' GOther,
     GField ''RestartsTotal'' True False ''restartsTotal'' GOther,
     GField ''MemHighEventsTotal'' True False ''memHighEventsTotal'' GOther,
     GField ''Tier1RefusedTotal'' True False ''tier1RefusedTotal'' GOther,
     GField ''Windows'' True False ''windows,omitempty'' (GSlice WindowCount_type)]"

definition PolicyRef_type :: gotype where
  "PolicyRef_type = GStruct [
     GField ''Name'' True False ''name'' GOther,
     GField ''ResourceVersion'' True False ''resourceVersion,omitempty'' GOther]"

definition AppliedPolicy_type :: gotype where
  "AppliedPolicy_type = GStruct [
     GField ''PolicyRef'' True True '',inline'' PolicyRef_type,
     GField ''Outcome'' True False ''outcome'' GOther,
     GField ''ClampedFields'' True False ''clampedFields,omitempty'' (GSlice GOther)]"

definition DarwinCompressor_type :: gotype where
  "DarwinCompressor_type = GStruct [
     GField ''BytesUsed'' True False ''bytesUsed,omitempty'' (GPtr GOther),
     GField ''BytesStored'' True False ''bytesStored,omitempty'' (GPtr GOther),
     GField ''SegmentLimitBytes'' True False ''segmentLimitBytes,omitempty'' (GPtr GOther)]"

definition DarwinSignals_type :: gotype where
  "DarwinSignals_type = GStruct [
     GField ''VMPressureLevel'' True False ''vmPressureLevel,omitempty'' (GPtr GOther),
     GField ''MemorystatusLevelPermille'' True False ''memorystatusLevelPermille,omitempty'' (GPtr GOther),
     GField ''Compressor'' True False ''compressor,omitempty'' (GPtr DarwinCompressor_type),
     GField ''SwapinsTotal'' True False ''swapinsTotal,omitempty'' (GPtr GOther),
     GField ''SwapoutsTotal'' True False ''swapoutsTotal,omitempty'' (GPtr GOther)]"

definition PSILine_type :: gotype where
  "PSILine_type = GStruct [
     GField ''Avg10Permille'' True False ''avg10Permille,omitempty'' (GPtr GOther),
     GField ''Avg60Permille'' True False ''avg60Permille,omitempty'' (GPtr GOther),
     GField ''TotalUs'' True False ''totalUs,omitempty'' (GPtr GOther)]"

definition PSIResource_type :: gotype where
  "PSIResource_type = GStruct [
     GField ''Some'' True False ''some,omitempty'' (GPtr PSILine_type),
     GField ''Full'' True False ''full,omitempty'' (GPtr PSILine_type)]"

definition LinuxPSI_type :: gotype where
  "LinuxPSI_type = GStruct [
     GField ''CPU'' True False ''cpu,omitempty'' (GPtr PSIResource_type),
     GField ''Memory'' True False ''memory,omitempty'' (GPtr PSIResource_type),
     GField ''IO'' True False ''io,omitempty'' (GPtr PSIResource_type)]"

definition LinuxMemoryEvents_type :: gotype where
  "LinuxMemoryEvents_type = GStruct [
     GField ''High'' True False ''high,omitempty'' (GPtr GOther),
     GField ''Max'' True False ''max,omitempty'' (GPtr GOther),
     GField ''OOM'' True False ''oom,omitempty'' (GPtr GOther),
     GField ''OOMKill'' True False ''oomKill,omitempty'' (GPtr GOther)]"

definition LinuxSignals_type :: gotype where
  "LinuxSignals_type = GStruct [
     GField ''PSI'' True False ''psi,omitempty'' (GPtr LinuxPSI_type),
     GField ''MemoryEvents'' True False ''memoryEvents,omitempty'' (GPtr LinuxMemoryEvents_type)]"

definition NodeBudgetObservation_type :: gotype where
  "NodeBudgetObservation_type = GStruct [
     GField ''ObservedAt'' True False ''observedAt,omitzero'' GTime,
     GField ''ProducerGeneration'' True False ''producerGeneration,omitempty'' GOther,
     GField ''Platform'' True False ''platform,omitempty'' GOther,
     GField ''Level'' True False ''level,omitempty'' GOther,
     GField ''Admit'' True False ''admit,omitempty'' GOther,
     GField ''AdmitReasonSignal'' True False ''admitReasonSignal,omitempty'' GOther,
     GField ''EvictDeadline'' True False ''evictDeadline,omitempty'' (GPtr GTime),
     GField ''Capacity'' True False ''capacity,omitzero'' BudgetCapacity_type,
     GField ''Signals'' True False ''signals,omitempty'' (GSlice BudgetSignal_type),
     GField ''Recommendation'' True False ''recommendation,omitzero'' BudgetRecommendation_type,
     GField ''KillMode'' True False ''killMode,omitzero'' KillMode_type,
     GField ''WouldKill'' True False ''wouldKill,omitempty'' (GPtr WouldKill_type),
     GField ''Counters'' True False ''counters,omitempty'' (GSlice BandCounters_type),
     GField ''Policy'' True False ''policy,omitempty'' (GPtr AppliedPolicy_type),
     GField ''InForce'' True False ''inForce,omitempty'' (GPtr PolicyRef_type),
     GField ''Darwin'' True False ''darwin,omitempty'' (GPtr DarwinSignals_type),
     GField ''Linux'' True False ''linux,omitempty'' (GPtr LinuxSignals_type)]"

definition NodeBudgetReport_type :: gotype where
  "NodeBudgetReport_type = GStruct [
     GField ''Schema'' True False ''schema'' GOther,
     GField ''NodeBudgetObservation'' True True '',inline'' NodeBudgetObservation_type]"

definition SignalThresholds_type :: gotype where
  "SignalThresholds_type = GStruct [
     GField ''Signal'' True False ''signal'' GOther,
     GField ''WarnThreshold'' True False ''warnThreshold,omitempty'' (GPtr GOther),
     GField ''AdmitStopThreshold'' True False ''admitStopThreshold,omitempty'' (GPtr GOther),
     GField ''CriticalThreshold'' True False ''criticalThreshold,omitempty'' (GPtr GOther),
     GField ''EvictSoftThreshold'' True False ''evictSoftThreshold,omitempty'' (GPtr GOther),
     GField ''EvictHardThreshold'' True False ''evictHardThreshold,omitempty'' (GPtr GOther),
     GField ''WarnRelease'' True False ''warnRelease,omitempty'' (GPtr GOther),
     GField ''AdmitStopRelease'' True False ''admitStopRelease,omitempty'' (GPtr GOther),
     GField ''CriticalRelease'' True False ''criticalRelease,omitempty'' (GPtr GOther),
     GField ''EvictSoftRelease'' True False ''evictSoftRelease,omitempty'' (GPtr GOther),
     GField ''EvictHardRelease'' True False ''evictHardRelease,omitempty'' (GPtr GOther),
     GField ''GraceSeconds'' True False ''graceSeconds,omitempty'' (GPtr GOther),
     GField ''MinReclaimBytes'' True False ''minReclaimBytes,omitempty'' (GPtr GOther),
     GField ''DwellSeconds'' True False ''dwellSeconds,omitempty'' (GPtr GOther),
     GField ''WindowSeconds'' True False ''windowSeconds,omitempty'' (GPtr GOther)]"

definition BudgetReserves_type :: gotype where
  "BudgetReserves_type = GStruct [
     GField ''CPUSystemReserveMilli'' True False ''cpuSystemReserveMilli,omitempty'' (GPtr GOther),
     GField ''MemSystemReserveBytes'' True False ''memSystemReserveBytes,omitempty'' (GPtr GOther),
     GField ''MemEvictionReserveBytes'' True False ''memEvictionReserveBytes,omitempty'' (GPtr GOther)]"

definition BudgetHistory_type :: gotype where
  "BudgetHistory_type = GStruct [
     GField ''MemoryHalfLifeSeconds'' True False ''memoryHalfLifeSeconds,omitempty'' (GPtr GOther),
     GField ''CPUHalfLifeSeconds'' True False ''cpuHalfLifeSeconds,omitempty'' (GPtr GOther),
     GField ''MarginPermille'' True False ''marginPermille,omitempty'' (GPtr GOther)]"

definition NodeBudgetPolicySpec_type :: gotype where
  "NodeBudgetPolicySpec_type = GStruct [
     GField ''NodeSelector'' True False ''nodeSelector,omitempty'' GOther,
     GField ''Priority'' True False ''priority,omitempty'' GOther,
     GField ''Thresholds'' True False ''thresholds,omitempty'' (GSlice SignalThresholds_type),
     GField ''Reserves'' True False ''reserves,omitempty'' (GPtr BudgetReserves_type),
     GField ''History'' True False ''history,omitempty'' (GPtr BudgetHistory_type),
     GField ''Mode'' True False ''mode,omitempty'' GOther,
     GField ''Tier1GraceSeconds'' True False ''tier1GraceSeconds,omitempty'' (GPtr GOther),
     GField ''Tier1HeldSeconds'' True False ''tier1HeldSeconds,omitempty'' (GPtr GOther),
     GField ''Tier1MaxDeliveriesPerHour'' True False ''tier1MaxDeliveriesPerHour,omitempty'' (GPtr GOther),
     GField ''Tier1CooloffSeconds'' True False ''tier1CooloffSeconds,omitempty'' (GPtr GOther),
     GField ''PSIHeldPermille'' True False ''psiHeldPermille,omitempty'' (GPtr GOther)]"

definition NodeBudgetDesiredPolicy_type :: gotype where
  "NodeBudgetDesiredPolicy_type = GStruct [
     GField ''Schema'' True False ''schema'' GOther,
     GField ''Name'' True False ''name'' GOther,
     GField ''ResourceVersion'' True False ''resourceVersion'' GOther,
     GField ''Spec'' True False ''spec'' NodeBudgetPolicySpec_type]"

text \<open>No name of a payload stands for two types. The fields of an embedded struct count as the
  embedding struct's own.\<close>

lemma leaf_types_unambiguous:
  "unambiguous BudgetRecommendation_type" "unambiguous KillMode_type" "unambiguous WouldKill_type"
  "unambiguous WindowCount_type" "unambiguous PolicyRef_type" "unambiguous DarwinCompressor_type"
  "unambiguous PSILine_type" "unambiguous LinuxMemoryEvents_type" "unambiguous BudgetReserves_type"
  "unambiguous BudgetHistory_type" "unambiguous BudgetCapacity_type" "unambiguous BudgetSignal_type"
  "unambiguous SignalThresholds_type"
  unfolding BudgetRecommendation_type_def KillMode_type_def WouldKill_type_def WindowCount_type_def PolicyRef_type_def
    DarwinCompressor_type_def PSILine_type_def LinuxMemoryEvents_type_def BudgetReserves_type_def
    BudgetHistory_type_def BudgetCapacity_type_def BudgetSignal_type_def SignalThresholds_type_def
  by (rule unambiguous_struct; simp add: json_name_def)+

lemma AppliedPolicy_type_unambiguous: "unambiguous AppliedPolicy_type"
  unfolding AppliedPolicy_type_def
proof (rule unambiguous_struct)
qed (simp add: json_name_def kind_struct_def PolicyRef_type_def, simp add: leaf_types_unambiguous)

lemma inner_types_unambiguous:
  "unambiguous BandCounters_type" "unambiguous DarwinSignals_type" "unambiguous PSIResource_type"
  unfolding BandCounters_type_def DarwinSignals_type_def PSIResource_type_def
  by (rule unambiguous_struct; simp add: json_name_def leaf_types_unambiguous)+

lemma linux_types_unambiguous: "unambiguous LinuxPSI_type" "unambiguous LinuxSignals_type"
proof -
  show psi: "unambiguous LinuxPSI_type"
    unfolding LinuxPSI_type_def by (rule unambiguous_struct; simp add: json_name_def inner_types_unambiguous)
  show "unambiguous LinuxSignals_type"
    unfolding LinuxSignals_type_def by (rule unambiguous_struct; simp add: json_name_def psi leaf_types_unambiguous)
qed

lemma payload_types_unambiguous:
  "unambiguous NodeBudgetReport_type" "unambiguous NodeBudgetDesiredPolicy_type"
proof -
  note inner = leaf_types_unambiguous AppliedPolicy_type_unambiguous inner_types_unambiguous linux_types_unambiguous
  have ob: "unambiguous NodeBudgetObservation_type"
    unfolding NodeBudgetObservation_type_def by (rule unambiguous_struct; simp add: json_name_def inner)
  show "unambiguous NodeBudgetReport_type"
    unfolding NodeBudgetReport_type_def
  proof (rule unambiguous_struct)
  qed (simp add: json_name_def kind_struct_def NodeBudgetObservation_type_def, simp add: ob)
  have "unambiguous NodeBudgetPolicySpec_type"
    unfolding NodeBudgetPolicySpec_type_def by (rule unambiguous_struct; simp add: json_name_def inner)
  then show "unambiguous NodeBudgetDesiredPolicy_type"
    unfolding NodeBudgetDesiredPolicy_type_def by - (rule unambiguous_struct; simp add: json_name_def)
qed

section \<open>Windowed counts of unknown reasons\<close>

definition MaxInt64 :: int64 where [const_defs]: "MaxInt64 = 0x7FFFFFFFFFFFFFFF"

text \<open>One round of the loop: the entries kept so far and where the entry of a window is.\<close>

definition merge_window ::
  "WindowCount list \<times> (CounterWindow \<rightharpoonup> nat) \<Rightarrow> WindowCount \<Rightarrow> WindowCount list \<times> (CounterWindow \<rightharpoonup> nat)"
where
  "merge_window st w =
     (let (out, at) = st in
      if wc_Reason w \<noteq> CounterUnknown then (out @ [w], at)
      else case at (wc_Window w) of
          None \<Rightarrow> (out @ [w], at(wc_Window w \<mapsto> length out))
        | Some i \<Rightarrow>
            (out[i := (out ! i)\<lparr>wc_Count :=
               (if 0 < sint (wc_Count w) \<and> sint (wc_Count (out ! i)) > sint (MaxInt64 - wc_Count w)
                then MaxInt64 else wc_Count (out ! i) + wc_Count w)\<rparr>], at))"

definition mergeUnknownWindows :: "WindowCount list \<Rightarrow> WindowCount list" where
  "mergeUnknownWindows ws = fst (foldl merge_window ([], Map.empty) ws)"

abbreviation unknown_in :: "CounterWindow \<Rightarrow> WindowCount \<Rightarrow> bool" where
  "unknown_in x w \<equiv> wc_Reason w = CounterUnknown \<and> wc_Window w = x"

text \<open>The counts of a window's unknown reasons, summed without bound.\<close>

definition unknown_sum :: "CounterWindow \<Rightarrow> WindowCount list \<Rightarrow> int" where
  "unknown_sum x ws = (\<Sum>w \<leftarrow> filter (unknown_in x) ws. sint (wc_Count w))"

definition merge_inv :: "WindowCount list \<Rightarrow> WindowCount list \<times> (CounterWindow \<rightharpoonup> nat) \<Rightarrow> bool" where
  "merge_inv ws st \<longleftrightarrow> (case st of (out, at) \<Rightarrow>
     filter (\<lambda>w. wc_Reason w \<noteq> CounterUnknown) out = filter (\<lambda>w. wc_Reason w \<noteq> CounterUnknown) ws \<and>
     (\<forall>x i. at x = Some i \<longrightarrow> i < length out \<and> unknown_in x (out ! i) \<and>
        sint (wc_Count (out ! i)) = min (2 ^ 63 - 1) (unknown_sum x ws)) \<and>
     (\<forall>i < length out. wc_Reason (out ! i) = CounterUnknown \<longrightarrow> at (wc_Window (out ! i)) = Some i) \<and>
     (\<forall>x. at x = None \<longleftrightarrow> filter (unknown_in x) ws = []))"

lemma saturating_add:
  fixes a b :: int64
  assumes "0 \<le> sint a" "0 \<le> sint b" "sint a = min (2 ^ 63 - 1) s" "0 \<le> s"
  shows "sint (if 0 < sint b \<and> sint a > sint (MaxInt64 - b) then MaxInt64 else a + b) =
    min (2 ^ 63 - 1) (s + sint b)"
proof -
  have max: "sint MaxInt64 = 2 ^ 63 - 1" by (simp add: MaxInt64_def)
  have bound: "sint x < 2 ^ 63" "- (2 ^ 63) \<le> sint x" for x :: int64
    using sint_less [of x] sint_ge [of x] by simp_all
  have sub: "sint (MaxInt64 - b) = 2 ^ 63 - 1 - sint b"
    using assms(2) bound [of b] by (simp add: sint_word_ariths max signed_take_bit_int_eq_self)
  show ?thesis
  proof (cases "0 < sint b \<and> sint a > 2 ^ 63 - 1 - sint b")
    case True
    with assms(3) show ?thesis by (simp add: sub max)
  next
    case False
    then have "sint a + sint b < 2 ^ 63" using assms(2) bound [of a] by auto
    then have "sint (a + b) = sint a + sint b"
      using assms(1,2) by (simp add: sint_word_ariths signed_take_bit_int_eq_self)
    with False assms show ?thesis by (auto simp: sub)
  qed
qed

lemma unknown_sum_snoc:
  "unknown_sum x (ws @ [w]) = unknown_sum x ws + (if unknown_in x w then sint (wc_Count w) else 0)"
  by (simp add: unknown_sum_def)

lemma unknown_sum_nonneg: "\<forall>w \<in> set ws. 0 \<le> sint (wc_Count w) \<Longrightarrow> 0 \<le> unknown_sum x ws"
  unfolding unknown_sum_def by (rule sum_list_nonneg) auto

lemma sint_max: "min (2 ^ 63 - 1) (sint (v :: int64)) = sint v"
  using sint_less [of v] by simp

lemma filter_single:
  assumes "i < length xs" "P (xs ! i)" "\<And>j. j < length xs \<Longrightarrow> P (xs ! j) \<Longrightarrow> j = i"
  shows "filter P xs = [xs ! i]"
  using assms
proof (induction xs arbitrary: i)
  case (Cons x xs)
  show ?case
  proof (cases i)
    case 0
    have "\<not> P (xs ! j)" if "j < length xs" for j using Cons.prems(3) [of "Suc j"] that 0 by auto
    then have "filter P xs = []" by (simp add: filter_empty_conv all_set_conv_all_nth)
    with 0 Cons.prems(2) show ?thesis by simp
  next
    case (Suc k)
    have "\<not> P x" using Cons.prems(3) [of 0] Suc by auto
    moreover have jk: "j = k" if "j < length xs" "P (xs ! j)" for j
      using Cons.prems(3) [of "Suc j"] that Suc by simp
    have "filter P xs = [xs ! k]"
      by (rule Cons.IH [OF _ _ jk]) (use Cons.prems(1,2) Suc in simp_all)
    ultimately show ?thesis using Suc by simp
  qed
qed simp

lemma filter_update_same:
  "\<not> P (xs ! i) \<Longrightarrow> \<not> P y \<Longrightarrow> i < length xs \<Longrightarrow> filter P (xs[i := y]) = filter P xs"
  by (induction xs arbitrary: i) (auto split: nat.split)

lemma merge_window_inv:
  assumes inv: "merge_inv ws st" and pos: "\<forall>x \<in> set (ws @ [w]). 0 \<le> sint (wc_Count x)"
  shows "merge_inv (ws @ [w]) (merge_window st w)"
proof -
  obtain out ix where st: "st = (out, ix)" by (cases st)
  from inv st have keep: "filter (\<lambda>w. wc_Reason w \<noteq> CounterUnknown) out = filter (\<lambda>w. wc_Reason w \<noteq> CounterUnknown) ws"
    and here: "\<And>x i. ix x = Some i \<Longrightarrow> i < length out \<and> unknown_in x (out ! i) \<and>
        sint (wc_Count (out ! i)) = min (2 ^ 63 - 1) (unknown_sum x ws)"
    and found: "\<And>i. i < length out \<Longrightarrow> wc_Reason (out ! i) = CounterUnknown \<Longrightarrow> ix (wc_Window (out ! i)) = Some i"
    and none: "\<And>x. ix x = None \<longleftrightarrow> filter (unknown_in x) ws = []"
    by (auto simp: merge_inv_def)
  show ?thesis
  proof (cases "wc_Reason w = CounterUnknown")
    case False
    then have "merge_window st w = (out @ [w], ix)" by (simp add: merge_window_def st)
    with False show ?thesis
      using keep here found none by (auto simp: merge_inv_def unknown_sum_snoc nth_append less_Suc_eq)
  next
    case True
    show ?thesis
    proof (cases "ix (wc_Window w)")
      case None
      then have m: "merge_window st w = (out @ [w], ix(wc_Window w \<mapsto> length out))"
        using True by (simp add: merge_window_def st)
      have z: "unknown_sum (wc_Window w) ws = 0" using none None by (simp add: unknown_sum_def)
      have other: "wc_Window (out ! i) \<noteq> wc_Window w" if "i < length out" "wc_Reason (out ! i) = CounterUnknown" for i
        using found [OF that] None by auto
      show ?thesis unfolding m merge_inv_def
        using keep here found none True z other sint_max
        by (auto simp: unknown_sum_snoc nth_append less_Suc_eq)
    next
      case (Some i)
      define c where "c = (if 0 < sint (wc_Count w) \<and> sint (wc_Count (out ! i)) > sint (MaxInt64 - wc_Count w)
        then MaxInt64 else wc_Count (out ! i) + wc_Count w)"
      define out' where "out' = out[i := (out ! i)\<lparr>wc_Count := c\<rparr>]"
      have m: "merge_window st w = (out', ix)"
        using True Some by (simp add: merge_window_def st c_def out'_def)
      note i = here [OF Some]
      have "0 \<le> unknown_sum (wc_Window w) ws" using pos by (intro unknown_sum_nonneg) auto
      then have c: "sint c = min (2 ^ 63 - 1) (unknown_sum (wc_Window w) ws + sint (wc_Count w))"
        unfolding c_def by (intro saturating_add) (use i pos in auto)
      have nth: "out' ! j = (if j = i then (out ! i)\<lparr>wc_Count := c\<rparr> else out ! j)" if "j < length out" for j
        using that by (simp add: out'_def)
      have keep': "filter (\<lambda>w. wc_Reason w \<noteq> CounterUnknown) out' = filter (\<lambda>w. wc_Reason w \<noteq> CounterUnknown) out"
        unfolding out'_def by (rule filter_update_same) (use i in auto)
      have inj: "x = wc_Window w" if "ix x = Some i" for x using here [OF that] i by auto
      have len: "length out' = length out" by (simp add: out'_def)
      have "i' < length out' \<and> unknown_in x (out' ! i') \<and>
          sint (wc_Count (out' ! i')) = min (2 ^ 63 - 1) (unknown_sum x (ws @ [w]))" if "ix x = Some i'" for x i'
        using here [OF that] inj [of x] that Some i c True by (auto simp: len nth unknown_sum_snoc)
      moreover have "ix (wc_Window (out' ! j)) = Some j"
        if "j < length out'" "wc_Reason (out' ! j) = CounterUnknown" for j
        using that found [of j] i by (auto simp: len nth split: if_splits)
      moreover have "ix x = None \<longleftrightarrow> filter (unknown_in x) (ws @ [w]) = []" for x
        using none [of x] Some by auto
      ultimately show ?thesis unfolding m merge_inv_def using keep keep' True by simp
    qed
  qed
qed

lemma mergeUnknownWindows_inv:
  assumes "\<forall>x \<in> set ws. 0 \<le> sint (wc_Count x)"
  shows "merge_inv ws (foldl merge_window ([], Map.empty) ws)"
  using assms
proof (induction ws rule: rev_induct)
  case Nil
  show ?case by (simp add: merge_inv_def)
next
  case (snoc w ws)
  then show ?case by (simp add: merge_window_inv)
qed


section \<open>The payloads\<close>

definition BudgetAnnotationSchema :: int64 where [const_defs]: "BudgetAnnotationSchema = 1"
definition MaxBudgetAnnotationBytes :: nat where [const_defs]: "MaxBudgetAnnotationBytes = 16384"

record NodeBudgetReport =
  rp_Schema :: int64
  rp_Observation :: NodeBudgetObservation

record NodeBudgetDesiredPolicy =
  dp_Schema :: int64
  dp_Name :: string
  dp_ResourceVersion :: string
  dp_Spec :: NodeBudgetPolicySpec

text \<open>The errors of \<open>encoding/json\<close>: those of the scanner and the decoder, a text with data after the
  value, and a value that is no object where the schema is looked up.\<close>

datatype 'j json_err = JsonErr 'j | AfterTopLevel string | ProbeType

datatype 'j annotation_cause =
    TooLarge nat
  | Malformed "'j json_err"
  | TrailingData
  | DuplicateKey dup_err
  | InexactKey key_err
  | BadObservation nodebudget_err
  | BadPolicyName string
  | BadResourceVersion
  | BadSpec policy_wrapped_err

datatype 'j annotation_err =
    ErrUnknownBudgetSchema
  | ErrInvalidBudgetAnnotation "'j annotation_cause"

definition NodeBudgetReport_Validate :: "NodeBudgetReport \<Rightarrow> 'j annotation_err option" where
  "NodeBudgetReport_Validate r = first_err
     [fail_if (rp_Schema r \<noteq> BudgetAnnotationSchema) ErrUnknownBudgetSchema,
      map_option (\<lambda>e. ErrInvalidBudgetAnnotation (BadObservation e))
        (NodeBudgetObservation_Validate (rp_Observation r))]"

definition NodeBudgetDesiredPolicy_Validate :: "NodeBudgetDesiredPolicy \<Rightarrow> 'j annotation_err option" where
  "NodeBudgetDesiredPolicy_Validate d = first_err
     [fail_if (dp_Schema d \<noteq> BudgetAnnotationSchema) ErrUnknownBudgetSchema,
      fail_if (\<not> isObjectName (dp_Name d)) (ErrInvalidBudgetAnnotation (BadPolicyName (dp_Name d))),
      fail_if (\<not> isPrintableASCII (dp_ResourceVersion d) MaxPolicyResourceVersionBytes)
        (ErrInvalidBudgetAnnotation BadResourceVersion),
      map_option (\<lambda>e. ErrInvalidBudgetAnnotation (BadSpec e)) (NodeBudgetPolicySpec_Validate (dp_Spec d))]"

text \<open>\<open>json.Unmarshal\<close> of the whole text, and what it stores in the schema of the probe: the last
  member whose name is \<open>schema\<close> up to case, which \<open>foldName\<close> decides.\<close>

definition unmarshal :: "(string \<Rightarrow> 'j + json \<times> string) \<Rightarrow> string \<Rightarrow> 'j json_err + json" where
  "unmarshal scan value =
     (case scan value of
        Inl e \<Rightarrow> Inl (JsonErr e)
      | Inr (v, rest) \<Rightarrow> if rest \<noteq> '''' then Inl (AfterTopLevel rest) else Inr v)"

definition probe_schema :: "(string \<Rightarrow> string) \<Rightarrow> json \<Rightarrow> 'j json_err + json option" where
  "probe_schema foldName v =
     (case v of
        JNull \<Rightarrow> Inr None
      | JObj kvs \<Rightarrow> Inr (map_option snd (find (\<lambda>kv. foldName (fst kv) = foldName ''schema'') (rev kvs)))
      | _ \<Rightarrow> Inl ProbeType)"

definition encodeBudgetAnnotation :: "('v \<Rightarrow> 'j + string) \<Rightarrow> 'v \<Rightarrow> 'j annotation_err + string" where
  "encodeBudgetAnnotation marshal v =
     (case marshal v of
        Inl e \<Rightarrow> Inl (ErrInvalidBudgetAnnotation (Malformed (JsonErr e)))
      | Inr b \<Rightarrow>
          if length b > MaxBudgetAnnotationBytes then Inl (ErrInvalidBudgetAnnotation (TooLarge (length b)))
          else Inr b)"

definition decodeBudgetAnnotation ::
  "(string \<Rightarrow> 'j + json \<times> string) \<Rightarrow> (string \<Rightarrow> string) \<Rightarrow> (json \<Rightarrow> 'j + 'v) \<Rightarrow> gotype \<Rightarrow> string \<Rightarrow>
   'j annotation_err + 'v"
where
  "decodeBudgetAnnotation scan foldName decode t value =
     (if length value > MaxBudgetAnnotationBytes
      then Inl (ErrInvalidBudgetAnnotation (TooLarge (length value)))
      else case unmarshal scan value of
        Inl e \<Rightarrow> Inl (ErrInvalidBudgetAnnotation (Malformed e))
      | Inr probed \<Rightarrow> (case probe_schema foldName probed of
        Inl e \<Rightarrow> Inl (ErrInvalidBudgetAnnotation (Malformed e))
      | Inr schema \<Rightarrow>
          if schema = None \<or> schema = Some JNull then Inl ErrUnknownBudgetSchema
          else if schema \<noteq> Some (JNum ''1'') then Inl ErrUnknownBudgetSchema
          else (case scan value of
        Inl e \<Rightarrow> Inl (ErrInvalidBudgetAnnotation (Malformed (JsonErr e)))
      | Inr (v, rest) \<Rightarrow> (case decode v of
        Inl e \<Rightarrow> Inl (ErrInvalidBudgetAnnotation (Malformed (JsonErr e)))
      | Inr out \<Rightarrow>
          if rest \<noteq> '''' then Inl (ErrInvalidBudgetAnnotation TrailingData)
          else (case checkDuplicateKeys (tokens v) of
        Some e \<Rightarrow> Inl (ErrInvalidBudgetAnnotation (DuplicateKey e))
      | None \<Rightarrow> (case unmarshal scan value of
        Inl e \<Rightarrow> Inl (ErrInvalidBudgetAnnotation (Malformed e))
      | Inr generic \<Rightarrow> (case checkExactKeys generic t '''' of
        Some e \<Rightarrow> Inl (ErrInvalidBudgetAnnotation (InexactKey e))
      | None \<Rightarrow> Inr out)))))))"

text \<open>The merged windows are a new slice, nil when there are none; the model gives it address 0.\<close>

definition merge_counters :: "BandCounters \<Rightarrow> BandCounters" where
  "merge_counters c = c\<lparr>bc_Windows := (case mergeUnknownWindows (els (bc_Windows c)) of
     [] \<Rightarrow> NilP | w # ws \<Rightarrow> Ptr 0 (w # ws))\<rparr>"

definition merge_report :: "NodeBudgetReport \<Rightarrow> NodeBudgetReport" where
  "merge_report r = r\<lparr>rp_Observation := (rp_Observation r)\<lparr>obs_Counters :=
     (case obs_Counters (rp_Observation r) of NilP \<Rightarrow> NilP | Ptr a cs \<Rightarrow> Ptr a (map merge_counters cs))\<rparr>\<rparr>"

definition ParseNodeBudgetReport ::
  "(string \<Rightarrow> 'j + json \<times> string) \<Rightarrow> (string \<Rightarrow> string) \<Rightarrow> (json \<Rightarrow> 'j + NodeBudgetReport) \<Rightarrow> string \<Rightarrow>
   'j annotation_err + NodeBudgetReport"
where
  "ParseNodeBudgetReport scan foldName decode value =
     (case decodeBudgetAnnotation scan foldName decode NodeBudgetReport_type value of
        Inl e \<Rightarrow> Inl e
      | Inr r \<Rightarrow>
          (case NodeBudgetReport_Validate (merge_report r) of
             Some e \<Rightarrow> Inl e
           | None \<Rightarrow> Inr (merge_report r)))"

definition NodeBudgetReport_Encode ::
  "(NodeBudgetReport \<Rightarrow> 'j + string) \<Rightarrow> (string \<Rightarrow> 'j + json \<times> string) \<Rightarrow> (string \<Rightarrow> string) \<Rightarrow>
   (json \<Rightarrow> 'j + NodeBudgetReport) \<Rightarrow> NodeBudgetReport \<Rightarrow> 'j annotation_err + string"
where
  "NodeBudgetReport_Encode marshal scan foldName decode r =
     (case NodeBudgetReport_Validate r of
        Some e \<Rightarrow> Inl e
      | None \<Rightarrow>
          (case encodeBudgetAnnotation marshal r of
             Inl e \<Rightarrow> Inl e
           | Inr s \<Rightarrow>
               (case ParseNodeBudgetReport scan foldName decode s of Inl e \<Rightarrow> Inl e | Inr _ \<Rightarrow> Inr s)))"

definition ParseNodeBudgetDesiredPolicy ::
  "(string \<Rightarrow> 'j + json \<times> string) \<Rightarrow> (string \<Rightarrow> string) \<Rightarrow> (json \<Rightarrow> 'j + NodeBudgetDesiredPolicy) \<Rightarrow> string \<Rightarrow>
   'j annotation_err + NodeBudgetDesiredPolicy"
where
  "ParseNodeBudgetDesiredPolicy scan foldName decode value =
     (case decodeBudgetAnnotation scan foldName decode NodeBudgetDesiredPolicy_type value of
        Inl e \<Rightarrow> Inl e
      | Inr d \<Rightarrow> (case NodeBudgetDesiredPolicy_Validate d of Some e \<Rightarrow> Inl e | None \<Rightarrow> Inr d))"

definition NodeBudgetDesiredPolicy_Encode ::
  "(NodeBudgetDesiredPolicy \<Rightarrow> 'j + string) \<Rightarrow> (string \<Rightarrow> 'j + json \<times> string) \<Rightarrow> (string \<Rightarrow> string) \<Rightarrow>
   (json \<Rightarrow> 'j + NodeBudgetDesiredPolicy) \<Rightarrow> NodeBudgetDesiredPolicy \<Rightarrow> 'j annotation_err + string"
where
  "NodeBudgetDesiredPolicy_Encode marshal scan foldName decode d =
     (case NodeBudgetDesiredPolicy_Validate d of
        Some e \<Rightarrow> Inl e
      | None \<Rightarrow>
          (case encodeBudgetAnnotation marshal d of
             Inl e \<Rightarrow> Inl e
           | Inr s \<Rightarrow>
               (case ParseNodeBudgetDesiredPolicy scan foldName decode s of Inl e \<Rightarrow> Inl e | Inr _ \<Rightarrow> Inr s)))"

section \<open>What the parsers accept\<close>

text \<open>The schema the decoder finds is the literal 1.\<close>

definition schema_is_one :: "(string \<Rightarrow> string) \<Rightarrow> json \<Rightarrow> bool" where
  "schema_is_one foldName v \<longleftrightarrow> (\<exists>kvs. v = JObj kvs \<and>
     map_option snd (find (\<lambda>kv. foldName (fst kv) = foldName ''schema'') (rev kvs)) = Some (JNum ''1''))"

lemma schema_is_one_probe: "schema_is_one foldName v \<longleftrightarrow> probe_schema foldName v = Inr (Some (JNum ''1''))"
  by (cases v) (simp_all add: schema_is_one_def probe_schema_def)

lemma decodeBudgetAnnotation_Inr:
  "decodeBudgetAnnotation scan foldName decode t value = Inr out \<longleftrightarrow>
     length value \<le> MaxBudgetAnnotationBytes \<and>
     (\<exists>v. scan value = Inr (v, '''') \<and> schema_is_one foldName v \<and> decode v = Inr out \<and>
        unique_keys v \<and> exact_keys v t)"
proof (cases "scan value")
  case (Inr vr)
  obtain v rest where vr: "vr = (v, rest)" by (cases vr)
  have rhs: "(\<exists>v'. scan value = Inr (v', '''') \<and> schema_is_one foldName v' \<and> decode v' = Inr out \<and>
        unique_keys v' \<and> exact_keys v' t) \<longleftrightarrow>
      rest = '''' \<and> probe_schema foldName v = (Inr (Some (JNum ''1'')) :: 'a json_err + _) \<and> decode v = Inr out \<and>
        first_dup v = None \<and> checkExactKeys v t '''' = None"
    unfolding Inr vr by (auto simp: first_dup_None checkExactKeys_None schema_is_one_probe [where ?'a = 'a]
        simp del: checkExactKeys.simps)
  show ?thesis
    unfolding rhs unfolding decodeBudgetAnnotation_def unmarshal_def Inr vr checkDuplicateKeys_eq
    by (auto simp del: checkExactKeys.simps split: sum.split option.split)
qed (simp add: decodeBudgetAnnotation_def unmarshal_def)

lemma unknown_schema:
  assumes "length value \<le> MaxBudgetAnnotationBytes" "scan value = Inr (v, '''')"
    and "v = JNull \<or> (\<exists>kvs. v = JObj kvs)" "\<not> schema_is_one foldName v"
  shows "decodeBudgetAnnotation scan foldName decode t value = Inl ErrUnknownBudgetSchema"
  using assms by (auto simp: decodeBudgetAnnotation_def unmarshal_def probe_schema_def schema_is_one_def)

lemma ParseNodeBudgetReport_Inr:
  "ParseNodeBudgetReport scan foldName decode value = Inr r \<longleftrightarrow>
     (\<exists>r0. decodeBudgetAnnotation scan foldName decode NodeBudgetReport_type value = Inr r0 \<and>
        r = merge_report r0 \<and> NodeBudgetReport_Validate r = (None :: 'j annotation_err option))"
  for scan :: "string \<Rightarrow> 'j + json \<times> string"
  by (auto simp: ParseNodeBudgetReport_def split: sum.split option.split)

section \<open>Properties\<close>

text \<open>(C33) The strict decoder: a report is accepted exactly when the text is at most
  \<open>MaxBudgetAnnotationBytes\<close>, is one JSON value with nothing after it, has the schema literal 1,
  fits the Go type, repeats no key in any object, spells every key as the field's name, and the
  decoded report, its windows merged, is valid. A document with another schema or none is
  \<open>ErrUnknownBudgetSchema\<close> whatever else is in it.\<close>

theorem report_accepted_iff:
  "(ParseNodeBudgetReport scan foldName decode value = Inr r \<longleftrightarrow>
      length value \<le> MaxBudgetAnnotationBytes \<and>
      (\<exists>v r0. scan value = Inr (v, '''') \<and> schema_is_one foldName v \<and> decode v = Inr r0 \<and>
         unique_keys v \<and> exact_keys v NodeBudgetReport_type \<and> r = merge_report r0 \<and>
         rp_Schema r = BudgetAnnotationSchema \<and> observation_wf (rp_Observation r))) \<and>
   (length value \<le> MaxBudgetAnnotationBytes \<and> scan value = Inr (JObj kvs, '''') \<and>
      \<not> schema_is_one foldName (JObj kvs) \<longrightarrow>
      ParseNodeBudgetReport scan foldName decode value = Inl ErrUnknownBudgetSchema)"
proof -
  have "NodeBudgetReport_Validate r = (None :: 'a annotation_err option) \<longleftrightarrow>
      rp_Schema r = BudgetAnnotationSchema \<and> observation_wf (rp_Observation r)" for r
    by (auto simp: NodeBudgetReport_Validate_def check_simps NodeBudgetObservation_Validate_def
        NodeBudgetObservation_validate_iff)
  moreover have "ParseNodeBudgetReport scan foldName decode value = Inl ErrUnknownBudgetSchema"
    if "length value \<le> MaxBudgetAnnotationBytes" "scan value = Inr (JObj kvs, '''')"
      "\<not> schema_is_one foldName (JObj kvs)"
    using unknown_schema [of "value" scan "JObj kvs" foldName decode NodeBudgetReport_type] that
    by (simp add: ParseNodeBudgetReport_def)
  ultimately show ?thesis
    unfolding ParseNodeBudgetReport_Inr decodeBudgetAnnotation_Inr by blast
qed

text \<open>(C34) A writer never produces a value its reader rejects: what \<open>Encode\<close> of either payload
  returns is within the size bound, comes from a valid payload, and parses to a valid payload.\<close>

theorem encoded_payload_parses:
  assumes "NodeBudgetReport_Encode marshal scan foldName decode r = Inr s"
    and "NodeBudgetDesiredPolicy_Encode marshal' scan foldName decode' d = Inr s'"
  shows "length s \<le> MaxBudgetAnnotationBytes \<and> observation_wf (rp_Observation r) \<and>
    (\<exists>q. ParseNodeBudgetReport scan foldName decode s = Inr q \<and> observation_wf (rp_Observation q)) \<and>
    length s' \<le> MaxBudgetAnnotationBytes \<and> spec_wf (dp_Spec d) \<and>
    (\<exists>q. ParseNodeBudgetDesiredPolicy scan foldName decode' s' = Inr q \<and> isObjectName (dp_Name q) \<and>
       spec_wf (dp_Spec q))"
proof -
  have rv: "NodeBudgetReport_Validate x = (None :: 'a annotation_err option) \<Longrightarrow> observation_wf (rp_Observation x)" for x
    by (simp add: NodeBudgetReport_Validate_def check_simps NodeBudgetObservation_Validate_def
        NodeBudgetObservation_validate_iff)
  have dv: "NodeBudgetDesiredPolicy_Validate x = (None :: 'a annotation_err option) \<Longrightarrow>
      isObjectName (dp_Name x) \<and> spec_wf (dp_Spec x)" for x
    by (simp add: NodeBudgetDesiredPolicy_Validate_def check_simps NodeBudgetPolicySpec_Validate_def
        NodeBudgetPolicySpec_validate_iff)
  have "length s \<le> MaxBudgetAnnotationBytes" "length s' \<le> MaxBudgetAnnotationBytes"
    "NodeBudgetReport_Validate r = (None :: 'a annotation_err option)"
    "NodeBudgetDesiredPolicy_Validate d = (None :: 'a annotation_err option)"
    using assms by (auto simp: NodeBudgetReport_Encode_def NodeBudgetDesiredPolicy_Encode_def
        encodeBudgetAnnotation_def split: option.splits sum.splits if_splits)
  moreover obtain q q' where "ParseNodeBudgetReport scan foldName decode s = Inr q"
    "ParseNodeBudgetDesiredPolicy scan foldName decode' s' = Inr q'"
    using assms by (auto simp: NodeBudgetReport_Encode_def NodeBudgetDesiredPolicy_Encode_def
        split: option.splits sum.splits)
  moreover from this have "NodeBudgetReport_Validate q = (None :: 'a annotation_err option)"
    "NodeBudgetDesiredPolicy_Validate q' = (None :: 'a annotation_err option)"
    by (auto simp: ParseNodeBudgetReport_Inr ParseNodeBudgetDesiredPolicy_def split: option.splits sum.splits)
  ultimately show ?thesis using rv dv by blast
qed

text \<open>Merging keeps the counts: with counts that are not negative, \<open>mergeUnknownWindows\<close> keeps
  every entry of a known reason in order, leaves one entry for each window that had unknown
  reasons, and its count is their sum, saturated at the largest int64.\<close>

theorem mergeUnknownWindows_sums:
  assumes "\<forall>w \<in> set ws. 0 \<le> sint (wc_Count w)"
  shows "filter (\<lambda>w. wc_Reason w \<noteq> CounterUnknown) (mergeUnknownWindows ws) =
      filter (\<lambda>w. wc_Reason w \<noteq> CounterUnknown) ws \<and>
    (\<forall>x. map (\<lambda>w. sint (wc_Count w)) (filter (unknown_in x) (mergeUnknownWindows ws)) =
      (if filter (unknown_in x) ws = [] then [] else [min (2 ^ 63 - 1) (unknown_sum x ws)]))"
proof -
  obtain out ix where run: "foldl merge_window ([], Map.empty) ws = (out, ix)"
    by (cases "foldl merge_window ([], Map.empty) ws")
  have merged: "mergeUnknownWindows ws = out" by (simp add: mergeUnknownWindows_def run)
  have inv: "merge_inv ws (out, ix)" using mergeUnknownWindows_inv [OF assms] by (simp only: run)
  then have keep: "filter (\<lambda>w. wc_Reason w \<noteq> CounterUnknown) out = filter (\<lambda>w. wc_Reason w \<noteq> CounterUnknown) ws"
    and here: "\<And>x i. ix x = Some i \<Longrightarrow> i < length out \<and> unknown_in x (out ! i) \<and>
        sint (wc_Count (out ! i)) = min (2 ^ 63 - 1) (unknown_sum x ws)"
    and found: "\<And>i. i < length out \<Longrightarrow> wc_Reason (out ! i) = CounterUnknown \<Longrightarrow> ix (wc_Window (out ! i)) = Some i"
    and none: "\<And>x. ix x = None \<longleftrightarrow> filter (unknown_in x) ws = []"
    by (auto simp: merge_inv_def)
  have "map (\<lambda>w. sint (wc_Count w)) (filter (unknown_in x) out) =
      (if filter (unknown_in x) ws = [] then [] else [min (2 ^ 63 - 1) (unknown_sum x ws)])" for x
  proof (cases "ix x")
    case None
    have "\<not> unknown_in x (out ! j)" if "j < length out" for j using found [OF that] None by auto
    then have "\<forall>w \<in> set out. \<not> unknown_in x w" by (auto simp: all_set_conv_all_nth)
    then have "filter (unknown_in x) out = []" by simp
    then show ?thesis using none None by simp
  next
    case (Some i)
    have ji: "j = i" if "j < length out" "unknown_in x (out ! j)" for j
      using found [OF that(1)] that(2) Some by simp
    have "filter (unknown_in x) out = [out ! i]" by (rule filter_single [OF _ _ ji]) (use here [OF Some] in simp_all)
    then show ?thesis using here [OF Some] none [of x] Some by simp
  qed
  then show ?thesis unfolding merged by (intro conjI allI) (rule keep, assumption)
qed

theorem mergeUnknownWindows_sums_witness:
  "map (\<lambda>w. sint (wc_Count w)) (filter (unknown_in ''1h'') (mergeUnknownWindows
     [\<lparr>wc_Window = ''1h'', wc_Reason = CounterUnknown, wc_Count = MaxInt64\<rparr>,
      \<lparr>wc_Window = ''1h'', wc_Reason = CounterUnknown, wc_Count = 5\<rparr>])) = [2 ^ 63 - 1]"
  using mergeUnknownWindows_sums [of "[\<lparr>wc_Window = ''1h'', wc_Reason = CounterUnknown, wc_Count = MaxInt64\<rparr>,
      \<lparr>wc_Window = ''1h'', wc_Reason = CounterUnknown, wc_Count = 5\<rparr>]"]
  by (simp add: unknown_sum_def MaxInt64_def)

text \<open>Negative counts of unknown reasons are summed before they are checked, so two that cancel
  leave an entry \<open>Validate\<close> accepts, and two of the smallest int64 wrap to 0.\<close>

lemma negative_counts_cancel:
  "mergeUnknownWindows
     [\<lparr>wc_Window = x, wc_Reason = CounterUnknown, wc_Count = - 5\<rparr>,
      \<lparr>wc_Window = x, wc_Reason = CounterUnknown, wc_Count = 10\<rparr>] =
   [\<lparr>wc_Window = x, wc_Reason = CounterUnknown, wc_Count = 5\<rparr>] \<and>
   mergeUnknownWindows
     [\<lparr>wc_Window = x, wc_Reason = CounterUnknown, wc_Count = 0x8000000000000000\<rparr>,
      \<lparr>wc_Window = x, wc_Reason = CounterUnknown, wc_Count = 0x8000000000000000\<rparr>] =
   [\<lparr>wc_Window = x, wc_Reason = CounterUnknown, wc_Count = 0\<rparr>]"
  by (simp add: mergeUnknownWindows_def merge_window_def MaxInt64_def)

definition sample_report :: NodeBudgetReport where
  "sample_report = \<lparr>rp_Schema = 1, rp_Observation = sample_observation\<rparr>"

definition sample_document :: json where
  "sample_document = JObj [(''schema'', JNum ''1''), (''level'', JStr ''ok'')]"

lemma sample_document_keys: "exact_keys sample_document NodeBudgetReport_type"
  by (simp add: sample_document_def NodeBudgetReport_type_def NodeBudgetObservation_type_def json_name_def kind_struct_def)

lemma sample_report_merged: "merge_report sample_report = sample_report"
  by (simp add: merge_report_def sample_report_def sample_observation_def zeroObservation_def)

theorem report_accepted_iff_witness:
  "ParseNodeBudgetReport (\<lambda>_. Inr (sample_document, '''')) (\<lambda>k. k) (\<lambda>_. Inr sample_report) ''...'' =
     (Inr sample_report :: unit annotation_err + _) \<and>
   ParseNodeBudgetReport (\<lambda>_. Inr (JObj [(''schema'', JNum ''2'')], '''')) (\<lambda>k. k) (\<lambda>_. Inl ()) ''...'' =
     Inl ErrUnknownBudgetSchema"
proof
  have one: "schema_is_one (\<lambda>k. k) sample_document" "unique_keys sample_document"
    by (simp_all add: schema_is_one_def sample_document_def)
  show "ParseNodeBudgetReport (\<lambda>_. Inr (sample_document, '''')) (\<lambda>k. k) (\<lambda>_. Inr sample_report) ''...'' =
     (Inr sample_report :: unit annotation_err + _)"
    by (rule report_accepted_iff [THEN conjunct1, THEN iffD2])
      (use one sample_document_keys sample_report_merged sample_observation_wf
        in \<open>auto simp: sample_report_def const_defs\<close>)
  show "ParseNodeBudgetReport (\<lambda>_. Inr (JObj [(''schema'', JNum ''2'')], '''')) (\<lambda>k. k) (\<lambda>_. Inl ()) ''...'' =
     Inl ErrUnknownBudgetSchema"
    by (rule report_accepted_iff [where kvs = "[(''schema'', JNum ''2'')]", THEN conjunct2, THEN mp])
      (simp add: schema_is_one_def const_defs)
qed

definition sample_desired :: NodeBudgetDesiredPolicy where
  "sample_desired = \<lparr>dp_Schema = 1, dp_Name = ''p'', dp_ResourceVersion = ''7'',
     dp_Spec = \<lparr>sp_NodeSelector = NilP, sp_Priority = 7, sp_Thresholds = NilP, sp_Reserves = NilP,
       sp_History = NilP, sp_Mode = KillModeAuto, sp_Tier1GraceSeconds = Ptr 1 30, sp_Tier1HeldSeconds = NilP,
       sp_Tier1MaxDeliveriesPerHour = NilP, sp_Tier1CooloffSeconds = NilP, sp_PSIHeldPermille = NilP\<rparr>\<rparr>"

lemma sample_desired_valid: "NodeBudgetDesiredPolicy_Validate sample_desired = None"
proof -
  have "isObjectName ''p''" "isPrintableASCII ''7'' MaxPolicyResourceVersionBytes"
    by (simp_all add: isObjectName_iff subdomain_ok_def label_ok_def split_on_def isPrintableASCII_def byte_of_def
        lower_alnum_def label_byte_def is_lower_def is_digit_def
        const_defs MaxPolicyResourceVersionBytes_def)
  then show ?thesis
    by (simp add: NodeBudgetDesiredPolicy_Validate_def check_simps NodeBudgetPolicySpec_Validate_def
        NodeBudgetPolicySpec_validate_iff sample_desired_def spec_wf_def const_defs map_len_def entries_def KillModeName_Valid_def)
qed

lemma one_schema_decodes:
  assumes "exact_keys (JObj [(''schema'', JNum ''1'')]) t"
  shows "decodeBudgetAnnotation (\<lambda>_. Inr (JObj [(''schema'', JNum ''1'')], '''')) (\<lambda>k. k) (\<lambda>_. Inr x) t ''...'' = Inr x"
  using assms by (simp add: decodeBudgetAnnotation_Inr schema_is_one_def const_defs del: exact_keys.simps)

theorem encoded_payload_parses_witness:
  "\<exists>s s' q. NodeBudgetReport_Encode (\<lambda>_. Inr ''...'') (\<lambda>_. Inr (JObj [(''schema'', JNum ''1'')], '''')) (\<lambda>k. k)
       (\<lambda>_. Inr sample_report) sample_report = (Inr s :: unit annotation_err + _) \<and>
     NodeBudgetDesiredPolicy_Encode (\<lambda>_. Inr ''...'') (\<lambda>_. Inr (JObj [(''schema'', JNum ''1'')], '''')) (\<lambda>k. k)
       (\<lambda>_. Inr sample_desired) sample_desired = (Inr s' :: unit annotation_err + _) \<and>
     ParseNodeBudgetReport (\<lambda>_. Inr (JObj [(''schema'', JNum ''1'')], '''')) (\<lambda>k. k)
       (\<lambda>_. Inr sample_report) s = (Inr q :: unit annotation_err + _) \<and> observation_wf (rp_Observation q)"
proof -
  let ?scan = "\<lambda>_. Inr (JObj [(''schema'', JNum ''1'')], '''') :: unit + json \<times> string"
  have keys: "exact_keys (JObj [(''schema'', JNum ''1'')]) NodeBudgetReport_type"
    "exact_keys (JObj [(''schema'', JNum ''1'')]) NodeBudgetDesiredPolicy_type"
    by (simp_all add: NodeBudgetReport_type_def NodeBudgetObservation_type_def NodeBudgetDesiredPolicy_type_def
        json_name_def kind_struct_def)
  note dec = one_schema_decodes [OF keys(1)] one_schema_decodes [OF keys(2)]
  have rv: "NodeBudgetReport_Validate sample_report = (None :: unit annotation_err option)"
    by (simp add: NodeBudgetReport_Validate_def check_simps sample_report_def const_defs
        NodeBudgetObservation_Validate_def NodeBudgetObservation_validate_iff sample_observation_wf)
  have "NodeBudgetReport_Encode (\<lambda>_. Inr ''...'') ?scan (\<lambda>k. k) (\<lambda>_. Inr sample_report) sample_report = Inr ''...''"
    by (simp add: NodeBudgetReport_Encode_def rv encodeBudgetAnnotation_def ParseNodeBudgetReport_def dec
        sample_report_merged const_defs)
  moreover have "NodeBudgetDesiredPolicy_Encode (\<lambda>_. Inr ''...'') ?scan (\<lambda>k. k) (\<lambda>_. Inr sample_desired) sample_desired =
      Inr ''...''"
    by (simp add: NodeBudgetDesiredPolicy_Encode_def sample_desired_valid encodeBudgetAnnotation_def
        ParseNodeBudgetDesiredPolicy_def dec const_defs)
  ultimately show ?thesis using encoded_payload_parses by blast
qed

text \<open>(C36) \<open>checkExactKeys\<close> accepts a payload exactly when every object key, at each depth the type has,
  is byte for byte the name of a field there: the tag up to its first comma, or the Go name when
  the tag names none, of an exported field not tagged \<open>-\<close>, the fields of an embedded struct
  included. This holds for every type in which no name stands for two types, and both payload
  types are such. The order in which a map is ranged over does not matter to the answer.\<close>

theorem checkExactKeys_decides:
  "unambiguous NodeBudgetReport_type \<and> unambiguous NodeBudgetDesiredPolicy_type \<and>
   (unambiguous t \<longrightarrow> (checkExactKeys v t path = None \<longleftrightarrow> keys_named v t)) \<and>
   (set kvs = set kvs' \<longrightarrow>
      (checkExactKeys (JObj kvs) t path = None \<longleftrightarrow> checkExactKeys (JObj kvs') t path = None))"
  using payload_types_unambiguous checkExactKeys_order [of kvs kvs' t path] exact_keys_named [of t v]
  unfolding checkExactKeys_None(1) by blast

theorem checkExactKeys_decides_witness:
  "keys_named (JObj [(''schema'', JNum ''1''), (''level'', JStr ''ok'')]) NodeBudgetReport_type \<and>
   \<not> keys_named (JObj [(''schema'', JNum ''1''), (''Level'', JStr ''ok'')]) NodeBudgetReport_type \<and>
   checkExactKeys (JObj [(''Level'', JStr ''ok''), (''schema'', JNum ''1'')]) NodeBudgetReport_type '''' \<noteq> None"
proof -
  let ?a = "[(''schema'', JNum ''1''), (''level'', JStr ''ok'')]"
  let ?b = "[(''schema'', JNum ''1''), (''Level'', JStr ''ok'')]"
  let ?c = "[(''Level'', JStr ''ok''), (''schema'', JNum ''1'')]"
  have a: "checkExactKeys (JObj ?a) NodeBudgetReport_type '''' = None"
    unfolding checkExactKeys_None(1) using sample_document_keys unfolding sample_document_def .
  have b: "checkExactKeys (JObj ?b) NodeBudgetReport_type '''' = Some (UnknownKey '''' ''Level'')"
    by (simp add: NodeBudgetReport_type_def NodeBudgetObservation_type_def json_name_def kind_struct_def
        trim_dot_def HasPrefix_def)
  have bc: "set ?b = set ?c" by auto
  note d = checkExactKeys_decides [of NodeBudgetReport_type _ "''''" ?b ?c]
  have t: "unambiguous NodeBudgetReport_type" by (rule checkExactKeys_decides [THEN conjunct1])
  have "keys_named (JObj ?a) NodeBudgetReport_type"
    using d [of "JObj ?a", THEN conjunct2, THEN conjunct2, THEN conjunct1, THEN mp, OF t] a by (rule iffD1)
  moreover have "\<not> keys_named (JObj ?b) NodeBudgetReport_type"
    using d [of "JObj ?b", THEN conjunct2, THEN conjunct2, THEN conjunct1, THEN mp, OF t] unfolding b by simp
  moreover have "checkExactKeys (JObj ?c) NodeBudgetReport_type '''' \<noteq> None"
    using d [of "JObj ?b", THEN conjunct2, THEN conjunct2, THEN conjunct2, THEN mp, OF bc] unfolding b by simp
  ultimately show ?thesis by blast
qed

end
