(* ===== verification/Service.thy ===== *)
theory Service
  imports Cloning
begin

text \<open>
  The Service proxy types of \<open>net/v1/service.go\<close>: \<open>Protocol\<close>, \<open>ServicePort\<close>, \<open>ServiceVIP\<close> and
  \<open>Endpoint\<close> with their \<open>Valid\<close>, \<open>Validate\<close> and \<open>WithDefaults\<close> methods. Ports are \<open>int32\<close>, read
  with their sign.
\<close>

section \<open>Types\<close>

type_synonym Protocol = string

definition ProtocolTCP :: Protocol where [const_defs]: "ProtocolTCP = ''TCP''"
definition ProtocolUDP :: Protocol where [const_defs]: "ProtocolUDP = ''UDP''"

record ServicePort =
  sp_Name :: string
  sp_Port :: int32
  sp_TargetPort :: int32
  sp_Protocol :: Protocol
  sp_NodePort :: int32

record ServiceVIP =
  svc_Namespace :: string
  svc_Name :: string
  svc_ClusterIP :: string
  svc_Ports :: "ServicePort slice"

record Endpoint =
  ep_IP :: string
  ep_Port :: int32
  ep_Ready :: bool

text \<open>The errors of the package, each wrapping \<open>ErrInvalid\<close>, with the values their texts print.\<close>

datatype svc_err =
    BadProtocol string Protocol
  | BadPort string int32
  | BadTargetPort string int32
  | BadNodePort string int32
  | NoServiceName
  | NoClusterIP string string
  | NoPorts string string
  | InService string string svc_err
  | NoEndpointIP
  | BadEndpointPort string int32


section \<open>Operations\<close>

definition Protocol_Valid :: "Protocol \<Rightarrow> bool" where
  "Protocol_Valid p = (p = ProtocolTCP \<or> p = ProtocolUDP)"

definition validPort :: "int32 \<Rightarrow> bool" where
  "validPort p = (1 \<le> sint p \<and> sint p \<le> 65535)"

definition ServicePort_Validate :: "ServicePort \<Rightarrow> svc_err option" where
  "ServicePort_Validate sp =
     (let proto = (if sp_Protocol sp = '''' then ProtocolTCP else sp_Protocol sp)
      in first_err
        [fail_if (\<not> Protocol_Valid proto) (BadProtocol (sp_Name sp) (sp_Protocol sp)),
         fail_if (\<not> validPort (sp_Port sp)) (BadPort (sp_Name sp) (sp_Port sp)),
         fail_if (\<not> validPort (sp_TargetPort sp)) (BadTargetPort (sp_Name sp) (sp_TargetPort sp)),
         fail_if (sp_NodePort sp \<noteq> 0 \<and> \<not> validPort (sp_NodePort sp)) (BadNodePort (sp_Name sp) (sp_NodePort sp))])"

text \<open>The copy of the ports is a new slice whose empty protocols become TCP.\<close>

definition defaultProtocol :: "ServicePort \<Rightarrow> ServicePort" where
  "defaultProtocol p = (if sp_Protocol p = '''' then p\<lparr>sp_Protocol := ProtocolTCP\<rparr> else p)"

definition ServiceVIP_WithDefaults :: "ServiceVIP \<Rightarrow> (addr, ServiceVIP) state" where
  "ServiceVIP_WithDefaults s =
     (case svc_Ports s of
        NilP \<Rightarrow> State_Monad.return s
      | Ptr _ ports \<Rightarrow> do {
          a \<leftarrow> fresh;
          State_Monad.return (s\<lparr>svc_Ports := Ptr a (map defaultProtocol ports)\<rparr>) })"

definition ServiceVIP_Validate :: "ServiceVIP \<Rightarrow> svc_err option" where
  "ServiceVIP_Validate s = first_err
     [fail_if (svc_Namespace s = '''' \<or> svc_Name s = '''') NoServiceName,
      fail_if (svc_ClusterIP s = '''') (NoClusterIP (svc_Namespace s) (svc_Name s)),
      fail_if (els (svc_Ports s) = []) (NoPorts (svc_Namespace s) (svc_Name s)),
      range_err (\<lambda>_ p. map_option (InService (svc_Namespace s) (svc_Name s)) (ServicePort_Validate p)) 0 (els (svc_Ports s))]"

definition Endpoint_Validate :: "Endpoint \<Rightarrow> svc_err option" where
  "Endpoint_Validate e = first_err
     [fail_if (ep_IP e = '''') NoEndpointIP,
      fail_if (\<not> validPort (ep_Port e)) (BadEndpointPort (ep_IP e) (ep_Port e))]"


section \<open>Lemmas\<close>

lemma ServicePort_Validate_iff:
  "ServicePort_Validate p = None \<longleftrightarrow>
     (sp_Protocol p = '''' \<or> Protocol_Valid (sp_Protocol p)) \<and> validPort (sp_Port p) \<and>
     validPort (sp_TargetPort p) \<and> (sp_NodePort p = 0 \<or> validPort (sp_NodePort p))"
  by (auto simp: ServicePort_Validate_def Let_def check_simps Protocol_Valid_def)

lemma ServiceVIP_Validate_iff:
  "ServiceVIP_Validate s = None \<longleftrightarrow>
     svc_Namespace s \<noteq> '''' \<and> svc_Name s \<noteq> '''' \<and> svc_ClusterIP s \<noteq> '''' \<and> els (svc_Ports s) \<noteq> [] \<and>
     (\<forall>p \<in> set (els (svc_Ports s)). ServicePort_Validate p = None)"
proof -
  have "range_err (\<lambda>_ p. map_option (InService (svc_Namespace s) (svc_Name s)) (ServicePort_Validate p)) 0 (els (svc_Ports s)) = None
      \<longleftrightarrow> (\<forall>p \<in> set (els (svc_Ports s)). ServicePort_Validate p = None)"
    by (rule range_err_None_all) simp
  then show ?thesis by (auto simp: ServiceVIP_Validate_def check_simps)
qed

lemma defaultProtocol_simps [simp]:
  "ServicePort_Validate (defaultProtocol p) = None \<longleftrightarrow> ServicePort_Validate p = None"
  "defaultProtocol (defaultProtocol p) = defaultProtocol p"
  "sp_Protocol (defaultProtocol p) \<noteq> ''''"
  by (auto simp: defaultProtocol_def ServicePort_Validate_iff Protocol_Valid_def const_defs)

lemma WithDefaults_run:
  "run_state (ServiceVIP_WithDefaults s) n =
     (case svc_Ports s of NilP \<Rightarrow> (s, n)
      | Ptr a ports \<Rightarrow> (s\<lparr>svc_Ports := Ptr n (map defaultProtocol ports)\<rparr>, Suc n))"
  by (simp add: ServiceVIP_WithDefaults_def fresh_def split: ptr.split)


section \<open>Properties\<close>

text \<open>Defaulting a Service is neutral to validity and makes every accepted Service servable: the
  result validates exactly when the receiver does, and then each of its ports names TCP or UDP
  outright and has both port numbers in 1 to 65535; the ports live in a new slice (nil stays nil),
  and defaulting the result again changes no port.\<close>

theorem service_defaults:
  assumes "run_state (ServiceVIP_WithDefaults s) n = (t, l)"
  shows "(ServiceVIP_Validate t = None \<longleftrightarrow> ServiceVIP_Validate s = None) \<and>
    (ServiceVIP_Validate s = None \<longrightarrow> (\<forall>p \<in> set (els (svc_Ports t)).
       sp_Protocol p \<in> {''TCP'', ''UDP''} \<and> sint (sp_Port p) \<in> {1..65535} \<and> sint (sp_TargetPort p) \<in> {1..65535})) \<and>
    set (addrs_leaf (svc_Ports t)) \<subseteq> {n..<l} \<and> (svc_Ports t = NilP \<longleftrightarrow> svc_Ports s = NilP) \<and>
    els (svc_Ports (fst (run_state (ServiceVIP_WithDefaults t) l))) = els (svc_Ports t)"
proof (cases "svc_Ports s")
  case NilP
  then have "t = s \<and> l = n" using assms by (simp add: WithDefaults_run)
  then show ?thesis using NilP by (simp add: ServiceVIP_Validate_iff WithDefaults_run)
next
  case (Ptr a ports)
  then have t: "t = s\<lparr>svc_Ports := Ptr n (map defaultProtocol ports)\<rparr>" "l = Suc n"
    using assms by (simp_all add: WithDefaults_run)
  have "ServicePort_Validate p = None \<Longrightarrow> sp_Protocol p \<noteq> '''' \<Longrightarrow>
      sp_Protocol p \<in> {''TCP'', ''UDP''} \<and> sint (sp_Port p) \<in> {1..65535} \<and> sint (sp_TargetPort p) \<in> {1..65535}" for p
    by (auto simp: ServicePort_Validate_iff Protocol_Valid_def validPort_def const_defs)
  then show ?thesis
    using Ptr by (auto simp: t ServiceVIP_Validate_iff WithDefaults_run)
qed

definition sample_service :: ServiceVIP where
  "sample_service = \<lparr>svc_Namespace = ''default'', svc_Name = ''web'', svc_ClusterIP = ''10.43.0.10'',
     svc_Ports = Ptr 1 [\<lparr>sp_Name = '''', sp_Port = 80, sp_TargetPort = 8080, sp_Protocol = '''', sp_NodePort = 0\<rparr>]\<rparr>"

theorem service_defaults_witness:
  "ServiceVIP_Validate sample_service = None \<and>
   ServiceVIP_Validate (fst (run_state (ServiceVIP_WithDefaults sample_service) 2)) = None"
proof -
  have "run_state (ServiceVIP_WithDefaults sample_service) 2 =
      (fst (run_state (ServiceVIP_WithDefaults sample_service) 2), snd (run_state (ServiceVIP_WithDefaults sample_service) 2))"
    by simp
  from service_defaults [OF this]
  have "ServiceVIP_Validate (fst (run_state (ServiceVIP_WithDefaults sample_service) 2)) = None
      \<longleftrightarrow> ServiceVIP_Validate sample_service = None" by blast
  moreover have "ServiceVIP_Validate sample_service = None"
    by (simp add: ServiceVIP_Validate_iff ServicePort_Validate_iff sample_service_def validPort_def)
  ultimately show ?thesis by simp
qed

end
