(* ===== verification/NetText.thy ===== *)
theory NetText
  imports Regex Bytes
begin

text \<open>
  What the network packages use of Go's standard library on text: decimal numbers
  (\<open>strconv.ParseUint\<close>), \<open>net.SplitHostPort\<close>, addresses (\<open>netip.ParseAddr\<close> and the methods of
  \<open>netip.Addr\<close>), and the runes of a string (\<open>for range\<close>, \<open>unicode.IsSpace\<close>, \<open>unicode.IsControl\<close>,
  \<open>strings.EqualFold\<close>).
\<close>

section \<open>Decimal numbers\<close>

definition dec_val :: "string \<Rightarrow> nat" where
  "dec_val s = foldl (\<lambda>n c. 10 * n + (byte_of c - 48)) 0 s"

definition ParseUint16 :: "string \<Rightarrow> nat option" where
  "ParseUint16 s = (if s \<noteq> '''' \<and> list_all is_digit s \<and> dec_val s \<le> 65535 then Some (dec_val s) else None)"

lemma digit_char_digit [simp]: "n < 10 \<Longrightarrow> is_digit (digit_char n) \<and> byte_of (digit_char n) = 48 + n"
  by (simp add: digit_char_def is_digit_def byte_of_def)

lemma nat_dec_digits: "nat_dec n \<noteq> [] \<and> list_all is_digit (nat_dec n) \<and> dec_val (nat_dec n) = n"
proof (induction n rule: nat_dec.induct)
  case (1 n)
  show ?case
  proof (cases "n < 10")
    case True
    then show ?thesis by (simp add: nat_dec.simps [of n] dec_val_def)
  next
    case False
    with 1 have "dec_val (nat_dec (n div 10)) = n div 10" "list_all is_digit (nat_dec (n div 10))" by simp_all
    with False show ?thesis
      by (simp add: nat_dec.simps [of n] dec_val_def)
  qed
qed

lemma ParseUint16_nat_dec: "n \<le> 65535 \<Longrightarrow> ParseUint16 (nat_dec n) = Some n"
  using nat_dec_digits [of n] by (simp add: ParseUint16_def)


section \<open>Host and port\<close>

definition last_colon :: "string \<Rightarrow> (string \<times> string) option" where
  "last_colon s = (if CHR '':'' \<in> set s
     then Some (rev (tl (dropWhile (\<lambda>c. c \<noteq> CHR '':'') (rev s))), rev (takeWhile (\<lambda>c. c \<noteq> CHR '':'') (rev s)))
     else None)"

text \<open>The host and the port, or an error. With a leading bracket the first closing bracket must come
  right before the last colon; otherwise the host has no colon; no other brackets.\<close>

definition SplitHostPort :: "string \<Rightarrow> (string \<times> string) option" where
  "SplitHostPort hostport =
     (case last_colon hostport of
        None \<Rightarrow> None
      | Some (before, port) \<Rightarrow>
          if hd hostport = CHR ''['' then
            (if CHR '']'' \<notin> set hostport then None
             else let host = takeWhile (\<lambda>c. c \<noteq> CHR '']'') (tl hostport)
               in if before \<noteq> CHR ''['' # host @ '']'' then None
                  else if CHR ''['' \<in> set (tl hostport) then None
                  else if CHR '']'' \<in> set port then None
                  else Some (host, port))
          else if CHR '':'' \<in> set before then None
          else if CHR ''['' \<in> set hostport \<or> CHR '']'' \<in> set hostport then None
          else Some (before, port))"

lemma last_colon_append: "CHR '':'' \<notin> set p \<Longrightarrow> last_colon (h @ CHR '':'' # p) = Some (h, p)"
proof -
  assume p: "CHR '':'' \<notin> set p"
  have "takeWhile (\<lambda>c. c \<noteq> CHR '':'') (rev p @ CHR '':'' # rev h) = rev p"
    "dropWhile (\<lambda>c. c \<noteq> CHR '':'') (rev p @ CHR '':'' # rev h) = CHR '':'' # rev h"
    using p by (subst takeWhile_append2 dropWhile_append2; auto)+
  then show ?thesis by (simp add: last_colon_def)
qed

lemma last_colon_SomeD: "last_colon s = Some (h, p) \<Longrightarrow> s = h @ CHR '':'' # p \<and> CHR '':'' \<notin> set p"
proof -
  assume s: "last_colon s = Some (h, p)"
  then have mem: "CHR '':'' \<in> set s" by (auto simp: last_colon_def split: if_splits)
  then obtain u v where uv: "s = u @ CHR '':'' # v" "CHR '':'' \<notin> set v" by (metis split_list_last)
  with last_colon_append s show ?thesis by auto
qed

lemma SplitHostPort_plain:
  assumes "CHR '':'' \<notin> set h" "CHR ''['' \<notin> set h" "CHR '']'' \<notin> set h"
    and "CHR '':'' \<notin> set p" "CHR ''['' \<notin> set p" "CHR '']'' \<notin> set p"
  shows "SplitHostPort (h @ CHR '':'' # p) = Some (h, p)"
proof -
  have "hd (h @ CHR '':'' # p) \<noteq> CHR ''[''" using assms by (cases h) auto
  then show ?thesis using assms by (simp add: SplitHostPort_def last_colon_append)
qed


section \<open>Addresses\<close>

datatype netip_Addr = ZeroAddr | Addr4 byte byte byte byte | Addr16 "byte list" string

definition octet :: "string \<Rightarrow> byte option" where
  "octet s = (if s \<noteq> '''' \<and> list_all is_digit s \<and> (length s = 1 \<or> hd s \<noteq> CHR ''0'') \<and> dec_val s \<le> 255
     then Some (word_of_nat (dec_val s)) else None)"

definition parseIPv4 :: "string \<Rightarrow> (byte \<times> byte \<times> byte \<times> byte) option" where
  "parseIPv4 s =
     (case map octet (split_on CHR ''.'' s) of
        [Some a, Some b, Some c, Some d] \<Rightarrow> Some (a, b, c, d)
      | _ \<Rightarrow> None)"

definition hex_val :: "char \<Rightarrow> nat option" where
  "hex_val c = (let b = byte_of c in
     if 48 \<le> b \<and> b \<le> 57 then Some (b - 48)
     else if 97 \<le> b \<and> b \<le> 102 then Some (b - 87)
     else if 65 \<le> b \<and> b \<le> 70 then Some (b - 55)
     else None)"

definition hex_group :: "string \<Rightarrow> nat" where
  "hex_group s = foldl (\<lambda>n c. 16 * n + (case hex_val c of None \<Rightarrow> 0 | Some d \<Rightarrow> d)) 0 s"

text \<open>The loop of the IPv6 parser: the bytes so far, where the double colon stood, the rest. A group
  is one to four hexadecimal digits; a group that turns out to start an IPv4 address ends the loop.\<close>

function parse6 :: "byte list \<Rightarrow> nat option \<Rightarrow> string \<Rightarrow> (byte list \<times> nat option \<times> string) option" where
  "parse6 ip ell s =
     (if 16 \<le> length ip then Some (ip, ell, s)
      else let grp = takeWhile (\<lambda>c. hex_val c \<noteq> None) s;
               rest = drop (length grp) s;
               ip' = ip @ [word_of_nat (hex_group grp div 256), word_of_nat (hex_group grp mod 256)]
        in if 4 < length grp \<or> grp = '''' then None
           else case rest of
             [] \<Rightarrow> Some (ip', ell, '''')
           | c # w1 \<Rightarrow>
               if c = CHR ''.'' then
                 (if ell = None \<and> length ip \<noteq> 12 then None
                  else if 16 < length ip + 4 then None
                  else case parseIPv4 s of
                    None \<Rightarrow> None
                  | Some (b0, b1, b2, b3) \<Rightarrow> Some (ip @ [b0, b1, b2, b3], ell, ''''))
               else if c \<noteq> CHR '':'' then None
               else case w1 of
                 [] \<Rightarrow> None
               | c2 # w2 \<Rightarrow>
                   if c2 = CHR '':'' then
                     (if ell \<noteq> None then None
                      else if w2 = '''' then Some (ip', Some (length ip'), '''')
                      else parse6 ip' (Some (length ip')) w2)
                   else parse6 ip' ell w1)"
  by pat_completeness auto

lemma drop_shorter: "drop n s = c # w1 \<Longrightarrow> length w1 < length s"
  using length_drop [of n s] by (metis Suc_le_lessD diff_le_self length_Cons)

termination parse6
  by (relation "measure (\<lambda>(ip, ell, s). length s)") (auto dest!: drop_shorter [OF sym])

declare parse6.simps [simp del]

definition finish6 :: "string \<Rightarrow> byte list \<times> nat option \<times> string \<Rightarrow> netip_Addr option" where
  "finish6 zone = (\<lambda>(ip, ell, s).
     if s \<noteq> '''' then None
     else if length ip < 16 then
       (case ell of
          None \<Rightarrow> None
        | Some e \<Rightarrow> Some (Addr16 (take e ip @ replicate (16 - length ip) 0 @ drop e ip) zone))
     else if ell \<noteq> None then None
     else Some (Addr16 ip zone))"

definition parseIPv6 :: "string \<Rightarrow> netip_Addr option" where
  "parseIPv6 str =
     (let s = takeWhile (\<lambda>c. c \<noteq> CHR ''%'') str;
          zone = drop (Suc (length s)) str
      in if CHR ''%'' \<in> set str \<and> zone = '''' then None
         else if take 2 s = ''::'' then
           (if s = ''::'' then Some (Addr16 (replicate 16 0) zone)
            else Option.bind (parse6 [] (Some 0) (drop 2 s)) (finish6 zone))
         else Option.bind (parse6 [] None s) (finish6 zone))"

text \<open>\<open>netip.ParseAddr\<close>: the first dot, colon or percent sign decides how the text is read.\<close>

definition ParseAddr :: "string \<Rightarrow> netip_Addr option" where
  "ParseAddr s =
     (case find (\<lambda>c. c = CHR ''.'' \<or> c = CHR '':'' \<or> c = CHR ''%'') s of
        None \<Rightarrow> None
      | Some c \<Rightarrow>
          if c = CHR ''.'' then map_option (\<lambda>(a, b, c, d). Addr4 a b c d) (parseIPv4 s)
          else if c = CHR '':'' then parseIPv6 s
          else None)"

fun Unmap :: "netip_Addr \<Rightarrow> netip_Addr" where
  "Unmap (Addr16 bs z) =
     (if take 12 bs = replicate 10 0 @ [255, 255] then Addr4 (bs ! 12) (bs ! 13) (bs ! 14) (bs ! 15)
      else Addr16 bs z)"
| "Unmap a = a"

fun Is4 :: "netip_Addr \<Rightarrow> bool" where
  "Is4 (Addr4 a b c d) = True"
| "Is4 a = False"

fun Is6 :: "netip_Addr \<Rightarrow> bool" where
  "Is6 (Addr16 bs z) = True"
| "Is6 a = False"

fun Zone :: "netip_Addr \<Rightarrow> string" where
  "Zone (Addr16 bs z) = z"
| "Zone a = ''''"

text \<open>\<open>IsLinkLocalUnicast\<close>: 169.254/16, or fe80::/10 (an IPv4-mapped address is judged unmapped).\<close>

definition IsLinkLocalUnicast :: "netip_Addr \<Rightarrow> bool" where
  "IsLinkLocalUnicast a =
     (case Unmap a of
        Addr4 b0 b1 _ _ \<Rightarrow> b0 = 169 \<and> b1 = 254
      | Addr16 bs _ \<Rightarrow> take 1 bs = [254] \<and> 2 \<le> length bs \<and> unat (bs ! 1) div 64 = 2
      | ZeroAddr \<Rightarrow> False)"

definition addr4_string :: "byte \<Rightarrow> byte \<Rightarrow> byte \<Rightarrow> byte \<Rightarrow> string" where
  "addr4_string a b c d = join_with CHR ''.'' (map (\<lambda>x. nat_dec (unat x)) [a, b, c, d])"

lemma digit_not_dot: "is_digit c \<Longrightarrow> c \<noteq> CHR ''.'' \<and> c \<noteq> CHR '':'' \<and> c \<noteq> CHR ''%'' \<and> c \<noteq> CHR ''['' \<and> c \<noteq> CHR '']''"
  by (auto simp: is_digit_def byte_of_def)

lemma nat_dec_lead: "n < 10 \<or> hd (nat_dec n) \<noteq> CHR ''0''"
proof (induction n rule: nat_dec.induct)
  case (1 n)
  show ?case
  proof (cases "n < 10")
    case False
    with 1 have ih: "n div 10 < 10 \<or> hd (nat_dec (n div 10)) \<noteq> CHR ''0''" by simp
    have d: "CHR ''0'' = digit_char 0" by code_simp
    have "n div 10 < 10 \<Longrightarrow> digit_char (n div 10) \<noteq> CHR ''0''"
      using False digit_char_digit [of "n div 10"] digit_char_digit [of 0] unfolding d by fastforce
    moreover have "hd (nat_dec n) = hd (nat_dec (n div 10))"
      using False nat_dec_digits by (simp add: nat_dec.simps [of n] hd_append)
    ultimately show ?thesis using ih by (metis list.sel(1) nat_dec.simps)
  qed simp
qed

lemma octet_nat_dec: "octet (nat_dec (unat (b :: byte))) = Some b"
proof -
  have "unat b \<le> 255" using unsigned_less [where ?'a = nat, of b] by simp
  moreover have "unat b < 10 \<Longrightarrow> length (nat_dec (unat b)) = 1" by (simp add: nat_dec.simps)
  ultimately show ?thesis
    using nat_dec_digits [of "unat b"] nat_dec_lead [of "unat b"] by (auto simp: octet_def)
qed

lemma nat_dec_clean: "c \<in> set (nat_dec n) \<Longrightarrow> is_digit c"
  using nat_dec_digits [of n] by (auto simp: list_all_iff)

lemma parseIPv4_string: "parseIPv4 (addr4_string a b c d) = Some (a, b, c, d)"
proof -
  have "split_on CHR ''.'' (addr4_string a b c d) = map (\<lambda>x. nat_dec (unat x)) [a, b, c, d]"
    unfolding addr4_string_def
    by (rule split_join) (auto dest: nat_dec_clean digit_not_dot)
  then show ?thesis by (simp add: parseIPv4_def octet_nat_dec)
qed

lemma find_append: "find P (xs @ ys) = (case find P xs of None \<Rightarrow> find P ys | Some x \<Rightarrow> Some x)"
  by (induction xs) auto

lemma ParseAddr_string: "ParseAddr (addr4_string a b c d) = Some (Addr4 a b c d)"
proof -
  have "find (\<lambda>c. c = CHR ''.'' \<or> c = CHR '':'' \<or> c = CHR ''%'') (nat_dec (unat a)) = None"
    by (auto simp: find_None_iff dest: nat_dec_clean digit_not_dot)
  then have "find (\<lambda>c. c = CHR ''.'' \<or> c = CHR '':'' \<or> c = CHR ''%'') (addr4_string a b c d) = Some CHR ''.''"
    by (simp add: addr4_string_def find_append)
  then show ?thesis by (simp add: ParseAddr_def parseIPv4_string)
qed

section \<open>Runes\<close>

text \<open>How many bytes a lead byte announces and the range of the second byte; \<^term>\<open>None\<close> for a byte
  that starts no multi-byte rune.\<close>

definition lead_byte :: "nat \<Rightarrow> (nat \<times> nat \<times> nat) option" where
  "lead_byte x =
     (if 0xC2 \<le> x \<and> x \<le> 0xDF then Some (2, 0x80, 0xBF)
      else if x = 0xE0 then Some (3, 0xA0, 0xBF)
      else if x = 0xED then Some (3, 0x80, 0x9F)
      else if 0xE1 \<le> x \<and> x \<le> 0xEF then Some (3, 0x80, 0xBF)
      else if x = 0xF0 then Some (4, 0x90, 0xBF)
      else if 0xF1 \<le> x \<and> x \<le> 0xF3 then Some (4, 0x80, 0xBF)
      else if x = 0xF4 then Some (4, 0x80, 0x8F)
      else None)"

definition is_cont :: "nat \<Rightarrow> bool" where
  "is_cont y = (0x80 \<le> y \<and> y \<le> 0xBF)"

text \<open>The first rune of a non-empty byte sequence and its width; a malformed sequence is one
  replacement rune of width one.\<close>

definition DecodeRune :: "nat list \<Rightarrow> nat \<times> nat" where
  "DecodeRune bs =
     (let x = hd bs in
      if x < 0x80 then (x, 1)
      else case lead_byte x of
        None \<Rightarrow> (0xFFFD, 1)
      | Some (n, lo, hi) \<Rightarrow>
          if length bs < n \<or> bs ! 1 < lo \<or> hi < bs ! 1 then (0xFFFD, 1)
          else if n = 2 then ((x mod 32) * 64 + bs ! 1 mod 64, 2)
          else if \<not> is_cont (bs ! 2) then (0xFFFD, 1)
          else if n = 3 then ((x mod 16) * 4096 + (bs ! 1 mod 64) * 64 + bs ! 2 mod 64, 3)
          else if \<not> is_cont (bs ! 3) then (0xFFFD, 1)
          else ((x mod 8) * 262144 + (bs ! 1 mod 64) * 4096 + (bs ! 2 mod 64) * 64 + bs ! 3 mod 64, 4))"

function runes :: "nat list \<Rightarrow> nat list" where
  "runes bs = (if bs = [] then [] else fst (DecodeRune bs) # runes (drop (snd (DecodeRune bs)) bs))"
  by pat_completeness auto

lemma DecodeRune_width: "0 < snd (DecodeRune bs)"
  by (auto simp: DecodeRune_def Let_def split: option.split)

termination runes
  by (relation "measure length") (auto simp: DecodeRune_width)

declare runes.simps [simp del]

definition string_runes :: "string \<Rightarrow> nat list" where
  "string_runes s = runes (map byte_of s)"

definition IsSpace :: "nat \<Rightarrow> bool" where
  "IsSpace r = (r \<in> {9, 10, 11, 12, 13, 32, 0x85, 0xA0, 0x1680, 0x2028, 0x2029, 0x202F, 0x205F, 0x3000}
     \<or> 0x2000 \<le> r \<and> r \<le> 0x200A)"

definition IsControl :: "nat \<Rightarrow> bool" where
  "IsControl r = (r < 32 \<or> 127 \<le> r \<and> r < 160)"

lemma runes_ascii: "list_all (\<lambda>b. b < 128) bs \<Longrightarrow> runes bs = bs"
proof (induction bs)
  case (Cons b bs)
  then have "DecodeRune (b # bs) = (b, 1)" by (simp add: DecodeRune_def)
  with Cons show ?case by (simp add: runes.simps [of "b # bs"])
qed (simp add: runes.simps)

text \<open>An ASCII byte of a string is a rune of it, whatever surrounds it.\<close>

lemma lead_byte_big: "lead_byte x = Some (n, lo, hi) \<Longrightarrow> 128 \<le> x \<and> 128 \<le> lo \<and> n \<in> {2, 3, 4}"
  by (auto simp: lead_byte_def split: if_splits)

lemma DecodeRune_snd:
  assumes "lead_byte (hd bs) = Some (n, lo, hi)" "\<not> hd bs < 128"
  shows "snd (DecodeRune bs) =
    (if length bs < n \<or> bs ! 1 < lo \<or> hi < bs ! 1 then 1 else if n = 2 then 2
     else if \<not> is_cont (bs ! 2) then 1 else if n = 3 then 3 else if \<not> is_cont (bs ! 3) then 1 else 4)"
  by (simp add: DecodeRune_def Let_def assms)

lemma DecodeRune_multi:
  assumes w: "1 < snd (DecodeRune bs)"
  obtains n lo hi where "lead_byte (hd bs) = Some (n, lo, hi)" "n \<le> length bs" "lo \<le> bs ! 1"
    "snd (DecodeRune bs) \<le> n" "2 < snd (DecodeRune bs) \<longrightarrow> is_cont (bs ! 2)"
    "3 < snd (DecodeRune bs) \<longrightarrow> is_cont (bs ! 3)" "snd (DecodeRune bs) \<le> 4"
proof -
  have big: "\<not> hd bs < 128" using w by (auto simp: DecodeRune_def)
  then obtain n lo hi where l: "lead_byte (hd bs) = Some (n, lo, hi)"
    using w by (cases "lead_byte (hd bs)") (auto simp: DecodeRune_def)
  note e = DecodeRune_snd [OF l big]
  have ok: "n \<le> length bs" "lo \<le> bs ! 1" using w unfolding e by (auto split: if_splits)
  have "2 < snd (DecodeRune bs) \<longrightarrow> is_cont (bs ! 2)" "3 < snd (DecodeRune bs) \<longrightarrow> is_cont (bs ! 3)"
    unfolding e by (auto split: if_splits)
  moreover from lead_byte_big [OF l] have "n = 2 \<or> n = 3 \<or> n = 4" by blast
  then have "snd (DecodeRune bs) \<le> n" "snd (DecodeRune bs) \<le> 4"
    unfolding e by (auto split: if_splits)
  ultimately show ?thesis using that l ok by blast
qed

lemma DecodeRune_big:
  assumes i: "i < snd (DecodeRune bs)" and multi: "1 < snd (DecodeRune bs)"
  shows "128 \<le> bs ! i"
  using multi
proof (rule DecodeRune_multi)
  fix n lo hi
  assume h: "lead_byte (hd bs) = Some (n, lo, hi)" "n \<le> length bs" "lo \<le> bs ! 1"
    "snd (DecodeRune bs) \<le> n" "2 < snd (DecodeRune bs) \<longrightarrow> is_cont (bs ! 2)"
    "3 < snd (DecodeRune bs) \<longrightarrow> is_cont (bs ! 3)" "snd (DecodeRune bs) \<le> 4"
  from h(1) have "128 \<le> hd bs" "128 \<le> lo" using lead_byte_big by blast+
  then have "128 \<le> bs ! 0" "128 \<le> bs ! 1" using h(2-4) multi by (cases bs; simp)+
  moreover have "i = 0 \<or> i = 1 \<or> i = 2 \<and> is_cont (bs ! 2) \<or> i = 3 \<and> is_cont (bs ! 3)"
    using i h(5-7) by linarith
  ultimately show ?thesis unfolding is_cont_def by blast
qed

lemma DecodeRune_skips:
  assumes "bs \<noteq> []" "b \<in> set (take (snd (DecodeRune bs)) bs)" "b < 128"
  shows "fst (DecodeRune bs) = b"
proof -
  obtain i where i: "i < snd (DecodeRune bs)" "bs ! i = b"
    using assms(2) by (auto simp: in_set_conv_nth)
  then have "snd (DecodeRune bs) = 1" using DecodeRune_big [of i bs] assms(3) DecodeRune_width [of bs] by linarith
  with i assms show ?thesis by (cases bs) (auto simp: DecodeRune_def)
qed

lemma runes_keep_ascii: "b \<in> set bs \<Longrightarrow> b < 128 \<Longrightarrow> b \<in> set (runes bs)"
proof (induction bs rule: runes.induct)
  case (1 bs)
  then have ne: "bs \<noteq> []" by auto
  have "b \<in> set (take (snd (DecodeRune bs)) bs) \<or> b \<in> set (drop (snd (DecodeRune bs)) bs)"
    using 1(2) by (metis Un_iff append_take_drop_id set_append)
  then show ?case
    using 1 ne DecodeRune_skips [OF ne] by (subst runes.simps) auto
qed

end
