(* ===== verification/Dns.thy ===== *)
theory Dns
  imports NetText Cloning
begin

text \<open>
  The in-pod resolver configuration of \<open>net/v1/dns.go\<close>: \<open>DNSOption\<close>, \<open>DNSConfig\<close> and the methods
  \<open>Servers\<close>, \<open>WithDefaults\<close> and \<open>Validate\<close> with the two helpers it calls.
\<close>

section \<open>Types\<close>

type_synonym DNSPolicy = string

definition DNSPolicyClusterFirst :: DNSPolicy where [const_defs]: "DNSPolicyClusterFirst = ''''"
definition DNSPolicyNone :: DNSPolicy where [const_defs]: "DNSPolicyNone = ''None''"

definition DefaultNDots :: int32 where [const_defs]: "DefaultNDots = 5"
definition MaxNameservers :: nat where [const_defs]: "MaxNameservers = 3"

record DNSOption =
  do_Name :: string
  do_Value :: string

record DNSConfig =
  dc_ClusterDNSIP :: string
  dc_ClusterDomain :: string
  dc_SearchDomains :: "string slice"
  dc_NDots :: int32
  dc_Policy :: DNSPolicy
  dc_Nameservers :: "string slice"
  dc_Options :: "DNSOption slice"

datatype dns_err =
    NoClusterDNSIP
  | NoClusterDomain
  | ClusterFirstNameservers
  | ClusterFirstOptions
  | NoNameserver
  | TooManyNameservers nat
  | NameserverNotIP string
  | NameserverZone string
  | NameserverRepeated string
  | NoneClusterDNSIP
  | UnknownPolicy DNSPolicy
  | NegativeNDots int32
  | InOption nat dns_err
  | OptionNoName
  | OptionNDots string
  | OptionNameSpace string
  | OptionNameSeparator string
  | OptionValueSpace string string


section \<open>Operations\<close>

definition hasSpaceOrControl :: "string \<Rightarrow> bool" where
  "hasSpaceOrControl s = list_ex (\<lambda>r. IsSpace r \<or> IsControl r) (string_runes s)"

text \<open>\<open>strings.EqualFold(s, "ndots")\<close>: rune by rune under simple folding, where the long s (U+017F)
  folds with the letter s and the other letters have no third form.\<close>

definition EqualFold_ndots :: "string \<Rightarrow> bool" where
  "EqualFold_ndots s = list_all2 (\<lambda>r cs. r \<in> set cs) (string_runes s)
     [[110, 78], [100, 68], [111, 79], [116, 84], [115, 83, 0x17F]]"

definition validateDNSOption :: "DNSOption \<Rightarrow> dns_err option" where
  "validateDNSOption o' = first_err
     [fail_if (do_Name o' = '''') OptionNoName,
      fail_if (EqualFold_ndots (do_Name o')) (OptionNDots (do_Name o')),
      fail_if (hasSpaceOrControl (do_Name o')) (OptionNameSpace (do_Name o')),
      fail_if (CHR '':'' \<in> set (do_Name o') \<or> CHR ''='' \<in> set (do_Name o')) (OptionNameSeparator (do_Name o')),
      fail_if (hasSpaceOrControl (do_Value o')) (OptionValueSpace (do_Name o') (do_Value o'))]"

text \<open>The loop over the nameservers with its map of addresses seen so far.\<close>

primrec nameserver_loop :: "netip_Addr list \<Rightarrow> string list \<Rightarrow> dns_err option" where
  "nameserver_loop seen [] = None"
| "nameserver_loop seen (s # ns) =
     (case ParseAddr s of
        None \<Rightarrow> Some (NameserverNotIP s)
      | Some addr \<Rightarrow>
          if Zone addr \<noteq> '''' then Some (NameserverZone s)
          else if addr \<in> set seen then Some (NameserverRepeated s)
          else nameserver_loop (addr # seen) ns)"

definition validateNameservers :: "string list \<Rightarrow> dns_err option" where
  "validateNameservers ns = first_err
     [fail_if (length ns = 0) NoNameserver,
      fail_if (MaxNameservers < length ns) (TooManyNameservers (length ns)),
      nameserver_loop [] ns]"

definition DNSConfig_Servers :: "DNSConfig \<Rightarrow> (addr, string slice) state" where
  "DNSConfig_Servers c =
     (if dc_Policy c = DNSPolicyClusterFirst then
        (if dc_ClusterDNSIP c = '''' then State_Monad.return NilP
         else do { a \<leftarrow> fresh; State_Monad.return (Ptr a [dc_ClusterDNSIP c]) })
      else if dc_Policy c = DNSPolicyNone then
        (if els (dc_Nameservers c) = [] then State_Monad.return NilP
         else do { a \<leftarrow> fresh; State_Monad.return (Ptr a (els (dc_Nameservers c))) })
      else State_Monad.return NilP)"

definition DNSConfig_WithDefaults :: "DNSConfig \<Rightarrow> DNSConfig" where
  "DNSConfig_WithDefaults c = (if dc_NDots c = 0 then c\<lparr>dc_NDots := DefaultNDots\<rparr> else c)"

definition DNSConfig_Validate :: "DNSConfig \<Rightarrow> dns_err option" where
  "DNSConfig_Validate c = first_err
     [if dc_Policy c = DNSPolicyClusterFirst then
        first_err
          [fail_if (dc_ClusterDNSIP c = '''') NoClusterDNSIP,
           fail_if (dc_ClusterDomain c = '''') NoClusterDomain,
           fail_if (length (els (dc_Nameservers c)) \<noteq> 0) ClusterFirstNameservers,
           fail_if (length (els (dc_Options c)) \<noteq> 0) ClusterFirstOptions]
      else if dc_Policy c = DNSPolicyNone then
        first_err
          [validateNameservers (els (dc_Nameservers c)),
           fail_if (dc_ClusterDNSIP c \<noteq> '''') NoneClusterDNSIP]
      else Some (UnknownPolicy (dc_Policy c)),
      fail_if (sint (dc_NDots c) < 0) (NegativeNDots (dc_NDots c)),
      range_err (\<lambda>i o'. map_option (InOption i) (validateDNSOption o')) 0 (els (dc_Options c))]"


section \<open>What validation admits\<close>

text \<open>A byte that would end the token it stands in: ASCII white space or a control character.\<close>

definition breaks_line :: "char \<Rightarrow> bool" where
  "breaks_line c = (byte_of c \<le> 32 \<or> byte_of c = 127)"

lemma no_breaks: "\<not> hasSpaceOrControl s \<Longrightarrow> c \<in> set s \<Longrightarrow> \<not> breaks_line c"
proof
  assume s: "\<not> hasSpaceOrControl s" "c \<in> set s" and b: "breaks_line c"
  then have "byte_of c \<in> set (map byte_of s)" "byte_of c < 128" by (auto simp: breaks_line_def)
  then have "byte_of c \<in> set (string_runes s)" unfolding string_runes_def by (rule runes_keep_ascii)
  moreover have "IsSpace (byte_of c) \<or> IsControl (byte_of c)"
    using b by (auto simp: breaks_line_def IsSpace_def IsControl_def)
  ultimately show False using s by (auto simp: hasSpaceOrControl_def list_ex_iff)
qed

definition ascii_lower :: "char \<Rightarrow> nat" where
  "ascii_lower c = (if is_upper c then byte_of c + 32 else byte_of c)"

lemma ascii_lower_eq: "ascii_lower c = n \<Longrightarrow> byte_of c = n \<or> byte_of c + 32 = n"
  by (auto simp: ascii_lower_def)

lemma EqualFold_lower: "map ascii_lower s = map byte_of ''ndots'' \<Longrightarrow> EqualFold_ndots s"
proof -
  assume "map ascii_lower s = map byte_of ''ndots''"
  then obtain a b c d e where s: "s = [a, b, c, d, e]"
    and l: "ascii_lower a = 110" "ascii_lower b = 100" "ascii_lower c = 111" "ascii_lower d = 116" "ascii_lower e = 115"
    by (auto simp: map_eq_Cons_conv byte_of_def)
  have bs: "byte_of a \<in> {110, 78}" "byte_of b \<in> {100, 68}" "byte_of c \<in> {111, 79}" "byte_of d \<in> {116, 84}" "byte_of e \<in> {115, 83}"
    using l [THEN ascii_lower_eq] by auto
  then have "list_all (\<lambda>x. x < 128) (map byte_of s)" by (auto simp: s)
  then have "string_runes s = map byte_of s" by (simp add: string_runes_def runes_ascii)
  then show ?thesis using bs by (auto simp: EqualFold_ndots_def s)
qed

definition nameserver_ok :: "string \<Rightarrow> bool" where
  "nameserver_ok s = (case ParseAddr s of None \<Rightarrow> False | Some a \<Rightarrow> Zone a = '''')"

lemma nameserver_loop_iff:
  "nameserver_loop seen ns = None \<longleftrightarrow>
     (\<forall>s \<in> set ns. nameserver_ok s \<and> the (ParseAddr s) \<notin> set seen) \<and> distinct (map (\<lambda>s. the (ParseAddr s)) ns)"
  by (induction ns arbitrary: seen) (auto simp: nameserver_ok_def image_iff split: option.splits)

lemma validateNameservers_iff:
  "validateNameservers ns = None \<longleftrightarrow>
     ns \<noteq> [] \<and> length ns \<le> MaxNameservers \<and> (\<forall>s \<in> set ns. nameserver_ok s) \<and>
     distinct (map (\<lambda>s. the (ParseAddr s)) ns)"
  by (auto simp: validateNameservers_def check_simps nameserver_loop_iff)

lemma options_iff:
  "range_err (\<lambda>i o'. map_option (InOption i) (validateDNSOption o')) n opts = None \<longleftrightarrow>
     (\<forall>o' \<in> set opts. validateDNSOption o' = None)"
  by (rule range_err_None_all) simp

lemma DNSConfig_Validate_iff:
  "DNSConfig_Validate c = None \<longleftrightarrow>
     (dc_Policy c = DNSPolicyClusterFirst \<and> dc_ClusterDNSIP c \<noteq> '''' \<and> dc_ClusterDomain c \<noteq> '''' \<and>
        els (dc_Nameservers c) = [] \<and> els (dc_Options c) = [] \<or>
      dc_Policy c = DNSPolicyNone \<and> dc_ClusterDNSIP c = '''' \<and>
        validateNameservers (els (dc_Nameservers c)) = None) \<and>
     0 \<le> sint (dc_NDots c) \<and> (\<forall>o' \<in> set (els (dc_Options c)). validateDNSOption o' = None)"
  by (auto simp: DNSConfig_Validate_def check_simps options_iff const_defs not_less)

lemma Servers_run:
  "run_state (DNSConfig_Servers c) n =
     (if dc_Policy c = DNSPolicyClusterFirst then
        (if dc_ClusterDNSIP c = '''' then (NilP, n) else (Ptr n [dc_ClusterDNSIP c], Suc n))
      else if dc_Policy c = DNSPolicyNone \<and> els (dc_Nameservers c) \<noteq> [] then (Ptr n (els (dc_Nameservers c)), Suc n)
      else (NilP, n))"
  by (simp add: DNSConfig_Servers_def fresh_def)


section \<open>Properties\<close>

text \<open>(C40) A validated resolver configuration selects between one and three servers, in a slice that
  belongs to no one else: under ClusterFirst exactly the cluster resolver, with no option set; under
  None exactly the listed nameservers, each an address without a zone, no two of them the same
  address (however written), and no cluster address. Defaulting keeps validity and gives a positive
  \<open>ndots\<close>.\<close>

theorem valid_dns_servers:
  assumes "DNSConfig_Validate c = None" "run_state (DNSConfig_Servers c) n = (s, l)"
  shows "\<exists>xs. s = Ptr n xs \<and> 1 \<le> length xs \<and> length xs \<le> 3 \<and>
    (if dc_Policy c = DNSPolicyClusterFirst then xs = [dc_ClusterDNSIP c] \<and> els (dc_Options c) = []
     else dc_Policy c = DNSPolicyNone \<and> xs = els (dc_Nameservers c) \<and> dc_ClusterDNSIP c = '''' \<and>
       list_all (\<lambda>x. \<exists>a. ParseAddr x = Some a \<and> Zone a = '''') xs \<and> distinct (map ParseAddr xs)) \<and>
    DNSConfig_Validate (DNSConfig_WithDefaults c) = None \<and> 0 < sint (dc_NDots (DNSConfig_WithDefaults c))"
proof -
  have "dc_NDots c = 0" if "sint (dc_NDots c) = 0" using that by (metis signed_0 signed_word_eqI)
  then have d: "DNSConfig_Validate (DNSConfig_WithDefaults c) = None \<and> 0 < sint (dc_NDots (DNSConfig_WithDefaults c))"
    using assms(1) by (auto simp: DNSConfig_Validate_iff DNSConfig_WithDefaults_def const_defs order_le_less)
  show ?thesis
  proof (cases "dc_Policy c = DNSPolicyClusterFirst")
    case True
    then show ?thesis using assms d by (auto simp: DNSConfig_Validate_iff Servers_run const_defs)
  next
    case False
    then have v: "dc_Policy c = DNSPolicyNone" "dc_ClusterDNSIP c = ''''"
      "validateNameservers (els (dc_Nameservers c)) = None"
      using assms(1) by (auto simp: DNSConfig_Validate_iff)
    let ?ns = "els (dc_Nameservers c)"
    have ns: "?ns \<noteq> []" "length ?ns \<le> 3" "\<forall>s \<in> set ?ns. nameserver_ok s" "distinct (map (\<lambda>s. the (ParseAddr s)) ?ns)"
      using v(3) by (auto simp: validateNameservers_iff const_defs)
    have ok: "list_all (\<lambda>x. \<exists>a. ParseAddr x = Some a \<and> Zone a = '''') ?ns"
      using ns(3) by (auto simp: list_all_iff nameserver_ok_def split: option.splits)
    have "distinct (map the (map ParseAddr ?ns))" using ns(4) by (simp add: o_def)
    then have "distinct (map ParseAddr ?ns)" by (simp only: distinct_map)
    moreover have "s = Ptr n ?ns" using assms(2) v ns(1) False by (simp add: Servers_run)
    ultimately show ?thesis using False v(1,2) ns(1,2) ok d by (auto simp: Suc_le_eq)
  qed
qed

text \<open>No option of an accepted configuration can break out of its line or set a second option:
  the name is one token without a separator and is not \<open>ndots\<close> in any case, and neither the name nor
  the value holds a byte of white space or a control character, even inside text that is not valid
  UTF-8.\<close>

theorem dns_options_single_token:
  assumes "DNSConfig_Validate c = None" "opt \<in> set (els (dc_Options c))"
  shows "dc_Policy c = DNSPolicyNone \<and> do_Name opt \<noteq> '''' \<and> CHR '':'' \<notin> set (do_Name opt) \<and> CHR ''='' \<notin> set (do_Name opt) \<and>
    \<not> list_ex breaks_line (do_Name opt @ do_Value opt) \<and>
    map ascii_lower (do_Name opt) \<noteq> map byte_of ''ndots''"
proof -
  have v: "validateDNSOption opt = None" and p: "dc_Policy c = DNSPolicyNone"
    using assms by (auto simp: DNSConfig_Validate_iff)
  then show ?thesis
    using v p no_breaks EqualFold_lower by (auto simp: validateDNSOption_def check_simps list_ex_iff)
qed

definition sample_dns :: DNSConfig where
  "sample_dns = \<lparr>dc_ClusterDNSIP = '''', dc_ClusterDomain = '''', dc_SearchDomains = NilP, dc_NDots = 0,
     dc_Policy = ''None'', dc_Nameservers = Ptr 1 [''1.1.1.1'', ''2606:4700::1111'', ''::ffff:1.1.1.1''],
     dc_Options = Ptr 2 [\<lparr>do_Name = ''timeout'', do_Value = ''2''\<rparr>]\<rparr>"

lemma sample_dns_addrs:
  "ParseAddr ''1.1.1.1'' = Some (Addr4 1 1 1 1)"
  "ParseAddr ''2606:4700::1111'' = Some (Addr16 [0x26, 0x06, 0x47, 0, 0, 0, 0, 0, 0, 0, 0, 0, 0, 0, 0x11, 0x11] '''')"
  "ParseAddr ''::ffff:1.1.1.1'' = Some (Addr16 [0, 0, 0, 0, 0, 0, 0, 0, 0, 0, 255, 255, 1, 1, 1, 1] '''')"
  by (simp_all add: ParseAddr_def parseIPv4_def octet_def dec_val_def is_digit_def parseIPv6_def parse6.simps hex_val_def
      byte_of_def hex_group_def finish6_def Let_def)
    (simp_all add: numeral_eq_Suc)

lemma sample_dns_valid: "DNSConfig_Validate sample_dns = None"
  by (simp add: DNSConfig_Validate_iff validateNameservers_iff nameserver_ok_def sample_dns_addrs sample_dns_def
      const_defs validateDNSOption_def check_simps EqualFold_ndots_def hasSpaceOrControl_def string_runes_def
      runes_ascii byte_of_def IsSpace_def IsControl_def)

theorem valid_dns_servers_witness:
  "\<exists>xs. fst (run_state (DNSConfig_Servers sample_dns) 3) = Ptr 3 xs \<and> length xs = 3 \<and>
     distinct (map ParseAddr xs)"
proof -
  have r: "run_state (DNSConfig_Servers sample_dns) 3 = (Ptr 3 (els (dc_Nameservers sample_dns)), 4)"
    by (simp add: Servers_run sample_dns_def const_defs)
  from valid_dns_servers [OF sample_dns_valid r] r show ?thesis
    by (auto simp: sample_dns_def const_defs split: if_splits)
qed

theorem dns_options_single_token_witness:
  "\<not> list_ex breaks_line (''timeout'' @ ''2'')"
  using dns_options_single_token [OF sample_dns_valid, of "\<lparr>do_Name = ''timeout'', do_Value = ''2''\<rparr>"]
  by (simp add: sample_dns_def)

end
