(* ===== verification/Mesh.thy ===== *)
theory Mesh
  imports NetText Cloning
begin

text \<open>
  The mesh contract of \<open>net/v1/mesh.go\<close>: the \<open>MeshPeer\<close> types, \<open>WithDefaults\<close> and \<open>Validate\<close> of the
  specification and of the two enrolment payloads, the endpoint checks they share, and the hand-written
  deep copies. A function that copies slices is a computation that allocates (\<open>Cloning\<close>); the copies of
  the object and list metadata are parameters.
\<close>

section \<open>Types\<close>

definition MeshPeerSchemaVersion :: int32 where [const_defs]: "MeshPeerSchemaVersion = 1"
definition DefaultPersistentKeepaliveSeconds :: int32 where [const_defs]: "DefaultPersistentKeepaliveSeconds = 25"
definition DefaultMeshMTU :: int32 where [const_defs]: "DefaultMeshMTU = 1380"
definition MeshEnrollSchemaVersion :: int32 where [const_defs]: "MeshEnrollSchemaVersion = 1"

type_synonym EndpointLink = string

definition EndpointLinkUnderlay :: EndpointLink where [const_defs]: "EndpointLinkUnderlay = ''underlay''"
definition EndpointLinkDirect :: EndpointLink where [const_defs]: "EndpointLinkDirect = ''direct''"

record EndpointCandidate =
  ec_Address :: string
  ec_Link :: EndpointLink

record MeshPeerSpec =
  ms_SchemaVersion :: int32
  ms_NodeName :: string
  ms_PublicKey :: string
  ms_Endpoint :: string
  ms_Endpoints :: "EndpointCandidate slice"
  ms_PodCIDR :: string
  ms_AllowedIPs :: "string slice"
  ms_MeshIP :: string
  ms_PersistentKeepaliveSeconds :: int32

record MeshPeerStatus =
  mst_LastHandshakeTime :: "Time ptr"
  mst_Reachable :: bool
  mst_ObservedSchemaVersion :: int32

record 'm MeshPeer =
  mp_TypeMeta :: TypeMeta
  mp_ObjectMeta :: 'm
  mp_Spec :: MeshPeerSpec
  mp_Status :: MeshPeerStatus

record ('l, 'm) MeshPeerList =
  mpl_TypeMeta :: TypeMeta
  mpl_ListMeta :: 'l
  mpl_Items :: "'m MeshPeer slice"

record MeshEnrollRequest =
  mer_SchemaVersion :: int32
  mer_NodeName :: string
  mer_PublicKey :: string
  mer_Endpoint :: string
  mer_PodCIDR :: string

record MeshEnrollResponse =
  mes_SchemaVersion :: int32
  mes_NodeName :: string
  mes_PodCIDR :: string
  mes_MeshIP :: string
  mes_Peers :: "MeshPeerSpec slice"

text \<open>The errors, with the values their texts print. The three wrappers add the context of the caller.\<close>

datatype mesh_err =
    NotHostPort string
  | EmptyHost string
  | InvalidHost string string
  | InvalidPort string string
  | SelfAssigned string
  | DirectOnOther string
  | UnknownLink EndpointLink
  | MissingAddress
  | PeerNoSchemaVersion string
  | PeerNoNodeName
  | PeerNoPublicKey string
  | PeerNoEndpoint string
  | PeerEndpoint string mesh_err
  | PeerCandidate string nat mesh_err
  | PeerNoPodCIDR string
  | PeerNoAllowedIPs string
  | EnrollNoSchemaVersion
  | EnrollNoNodeName
  | EnrollNoPublicKey
  | EnrollNoEndpoint
  | EnrollEndpoint mesh_err
  | ResponseNoSchemaVersion
  | ResponseNoNodeName
  | ResponseNoPodCIDR


section \<open>Endpoint checks\<close>

text \<open>The loop of \<open>validDNSName\<close>: the length of the current label and the previous byte, which is read
  only when the label is not empty.\<close>

primrec validDNSName_loop :: "nat \<Rightarrow> char \<Rightarrow> string \<Rightarrow> bool" where
  "validDNSName_loop label prev [] = (label \<noteq> 0 \<and> prev \<noteq> CHR ''-'')"
| "validDNSName_loop label prev (c # h) =
     (if c = CHR ''.'' then
        (if label = 0 \<or> prev = CHR ''-'' then False else validDNSName_loop 0 c h)
      else if is_lower c \<or> is_upper c \<or> is_digit c then
        (if 63 < label + 1 then False else validDNSName_loop (label + 1) c h)
      else if c = CHR ''-'' then
        (if label = 0 then False
         else if 63 < label + 1 then False else validDNSName_loop (label + 1) c h)
      else False)"

definition validDNSName :: "string \<Rightarrow> bool" where
  "validDNSName h = (if 253 < length h then False else validDNSName_loop 0 CHR ''.'' h)"

definition validateHostPort :: "string \<Rightarrow> mesh_err option" where
  "validateHostPort endpoint =
     (case SplitHostPort endpoint of
        None \<Rightarrow> Some (NotHostPort endpoint)
      | Some (host, port) \<Rightarrow> first_err
          [fail_if (host = '''') (EmptyHost endpoint),
           fail_if (ParseAddr host = None \<and> \<not> validDNSName host) (InvalidHost endpoint host),
           fail_if (case ParseUint16 port of None \<Rightarrow> True | Some n \<Rightarrow> n = 0) (InvalidPort endpoint port)])"

text \<open>Called on an IPv4 address only, after \<open>Is4\<close>.\<close>

fun inReservedLinkHalf :: "netip_Addr \<Rightarrow> bool" where
  "inReservedLinkHalf (Addr4 b0 b1 b2 b3) = (b0 = 169 \<and> b1 = 254 \<and> (b2 = 0 \<or> b2 = 255))"
| "inReservedLinkHalf (Addr16 bs z) = False"
| "inReservedLinkHalf ZeroAddr = False"

definition validateLinkLocal :: "string \<Rightarrow> bool \<Rightarrow> mesh_err option" where
  "validateLinkLocal endpoint allowReserved =
     (case SplitHostPort endpoint of
        None \<Rightarrow> Some (NotHostPort endpoint)
      | Some (host, _) \<Rightarrow>
          (case ParseAddr host of
             None \<Rightarrow> None
           | Some addr0 \<Rightarrow>
               let addr = Unmap addr0
               in if \<not> Is4 addr \<or> \<not> IsLinkLocalUnicast addr then None
                  else if \<not> inReservedLinkHalf addr then Some (SelfAssigned endpoint)
                  else if \<not> allowReserved then Some (DirectOnOther endpoint)
                  else None))"

definition EndpointCandidate_validate :: "EndpointCandidate \<Rightarrow> mesh_err option" where
  "EndpointCandidate_validate c = first_err
     [fail_if (ec_Link c \<noteq> EndpointLinkUnderlay \<and> ec_Link c \<noteq> EndpointLinkDirect) (UnknownLink (ec_Link c)),
      fail_if (ec_Address c = '''') MissingAddress,
      validateHostPort (ec_Address c),
      validateLinkLocal (ec_Address c) (ec_Link c = EndpointLinkDirect)]"


section \<open>The specification and the enrolment payloads\<close>

definition MeshPeerSpec_WithDefaults :: "MeshPeerSpec \<Rightarrow> (addr, MeshPeerSpec) state" where
  "MeshPeerSpec_WithDefaults s = do {
     ips \<leftarrow> cloneSlice (ms_AllowedIPs s);
     eps \<leftarrow> cloneSlice (ms_Endpoints s);
     State_Monad.return (s\<lparr>
       ms_SchemaVersion := (if ms_SchemaVersion s = 0 then MeshPeerSchemaVersion else ms_SchemaVersion s),
       ms_PersistentKeepaliveSeconds := (if ms_PersistentKeepaliveSeconds s = 0
         then DefaultPersistentKeepaliveSeconds else ms_PersistentKeepaliveSeconds s),
       ms_AllowedIPs := ips, ms_Endpoints := eps\<rparr>) }"

definition MeshPeerSpec_Validate :: "MeshPeerSpec \<Rightarrow> mesh_err option" where
  "MeshPeerSpec_Validate s = first_err
     [fail_if (ms_SchemaVersion s = 0) (PeerNoSchemaVersion (ms_NodeName s)),
      fail_if (ms_NodeName s = '''') PeerNoNodeName,
      fail_if (ms_PublicKey s = '''') (PeerNoPublicKey (ms_NodeName s)),
      fail_if (ms_Endpoint s = '''') (PeerNoEndpoint (ms_NodeName s)),
      map_option (PeerEndpoint (ms_NodeName s)) (validateHostPort (ms_Endpoint s)),
      map_option (PeerEndpoint (ms_NodeName s)) (validateLinkLocal (ms_Endpoint s) True),
      range_err (\<lambda>i c. map_option (PeerCandidate (ms_NodeName s) i) (EndpointCandidate_validate c)) 0 (els (ms_Endpoints s)),
      fail_if (ms_PodCIDR s = '''') (PeerNoPodCIDR (ms_NodeName s)),
      fail_if (length (els (ms_AllowedIPs s)) = 0) (PeerNoAllowedIPs (ms_NodeName s))]"

definition MeshEnrollRequest_WithDefaults :: "MeshEnrollRequest \<Rightarrow> MeshEnrollRequest" where
  "MeshEnrollRequest_WithDefaults r =
     (if mer_SchemaVersion r = 0 then r\<lparr>mer_SchemaVersion := MeshEnrollSchemaVersion\<rparr> else r)"

definition MeshEnrollRequest_Validate :: "MeshEnrollRequest \<Rightarrow> mesh_err option" where
  "MeshEnrollRequest_Validate r = first_err
     [fail_if (mer_SchemaVersion r = 0) EnrollNoSchemaVersion,
      fail_if (mer_NodeName r = '''') EnrollNoNodeName,
      fail_if (mer_PublicKey r = '''') EnrollNoPublicKey,
      fail_if (mer_Endpoint r = '''') EnrollNoEndpoint,
      map_option EnrollEndpoint (validateHostPort (mer_Endpoint r))]"

definition MeshEnrollResponse_Validate :: "MeshEnrollResponse \<Rightarrow> mesh_err option" where
  "MeshEnrollResponse_Validate r = first_err
     [fail_if (mes_SchemaVersion r = 0) ResponseNoSchemaVersion,
      fail_if (mes_NodeName r = '''') ResponseNoNodeName,
      fail_if (mes_PodCIDR r = '''') ResponseNoPodCIDR]"


section \<open>Deep copies\<close>

definition MeshPeerSpec_DeepCopyInto ::
  "MeshPeerSpec \<Rightarrow> (addr, MeshPeerSpec) state"
where
  "MeshPeerSpec_DeepCopyInto x = do {
     v1 \<leftarrow> cloneSlice (ms_AllowedIPs x);
     v2 \<leftarrow> cloneSlice (ms_Endpoints x);
     State_Monad.return (x\<lparr>ms_AllowedIPs := v1, ms_Endpoints := v2\<rparr>) }"

definition strip_mspec ::
  "MeshPeerSpec \<Rightarrow> MeshPeerSpec"
where
  "strip_mspec x = \<lparr>ms_SchemaVersion = ms_SchemaVersion x, ms_NodeName = ms_NodeName x, ms_PublicKey = ms_PublicKey x,
     ms_Endpoint = ms_Endpoint x, ms_Endpoints = strip_leaf (ms_Endpoints x), ms_PodCIDR = ms_PodCIDR x,
     ms_AllowedIPs = strip_leaf (ms_AllowedIPs x), ms_MeshIP = ms_MeshIP x,
     ms_PersistentKeepaliveSeconds = ms_PersistentKeepaliveSeconds x\<rparr>"

definition addrs_mspec ::
  "MeshPeerSpec \<Rightarrow> addr list"
where
  "addrs_mspec x = addrs_leaf (ms_AllowedIPs x) @ addrs_leaf (ms_Endpoints x)"

interpretation copy_mspec: deep_copier MeshPeerSpec_DeepCopyInto strip_mspec addrs_mspec
proof
  fix x
  show "copies [] (MeshPeerSpec_DeepCopyInto x) addrs_mspec (\<lambda>y. strip_mspec y = strip_mspec x)"
    unfolding MeshPeerSpec_DeepCopyInto_def
    apply (rule copies_bind [OF clone_slice.copy_copies])
    apply (rule copies_bind [OF clone_slice.copy_copies])
    apply (rule copies_return; simp add: addrs_mspec_def strip_mspec_def)
    done
qed

definition MeshPeerStatus_DeepCopyInto ::
  "MeshPeerStatus \<Rightarrow> (addr, MeshPeerStatus) state"
where
  "MeshPeerStatus_DeepCopyInto x = do {
     v1 \<leftarrow> clonePtr (mst_LastHandshakeTime x);
     State_Monad.return (x\<lparr>mst_LastHandshakeTime := v1\<rparr>) }"

definition strip_mstatus ::
  "MeshPeerStatus \<Rightarrow> MeshPeerStatus"
where
  "strip_mstatus x = \<lparr>mst_LastHandshakeTime = strip_leaf (mst_LastHandshakeTime x), mst_Reachable = mst_Reachable x,
     mst_ObservedSchemaVersion = mst_ObservedSchemaVersion x\<rparr>"

definition addrs_mstatus ::
  "MeshPeerStatus \<Rightarrow> addr list"
where
  "addrs_mstatus x = addrs_leaf (mst_LastHandshakeTime x)"

interpretation copy_mstatus: deep_copier MeshPeerStatus_DeepCopyInto strip_mstatus addrs_mstatus
proof
  fix x
  show "copies [] (MeshPeerStatus_DeepCopyInto x) addrs_mstatus (\<lambda>y. strip_mstatus y = strip_mstatus x)"
    unfolding MeshPeerStatus_DeepCopyInto_def
    apply (rule copies_bind [OF clone_ptr.copy_copies])
    apply (rule copies_return; simp add: addrs_mstatus_def strip_mstatus_def)
    done
qed

definition MeshPeer_DeepCopyInto ::
  "('m \<Rightarrow> (addr, 'm) state) \<Rightarrow> 'm MeshPeer \<Rightarrow> (addr, 'm MeshPeer) state"
where
  "MeshPeer_DeepCopyInto copyMeta x = do {
     v1 \<leftarrow> copyMeta (mp_ObjectMeta x);
     v2 \<leftarrow> MeshPeerSpec_DeepCopyInto (mp_Spec x);
     v3 \<leftarrow> MeshPeerStatus_DeepCopyInto (mp_Status x);
     State_Monad.return (x\<lparr>mp_ObjectMeta := v1, mp_Spec := v2, mp_Status := v3\<rparr>) }"

definition strip_mpeer ::
  "('m \<Rightarrow> 'm) \<Rightarrow> 'm MeshPeer \<Rightarrow> 'm MeshPeer"
where
  "strip_mpeer stripMeta x = \<lparr>mp_TypeMeta = mp_TypeMeta x, mp_ObjectMeta = stripMeta (mp_ObjectMeta x),
     mp_Spec = strip_mspec (mp_Spec x), mp_Status = strip_mstatus (mp_Status x)\<rparr>"

definition addrs_mpeer ::
  "('m \<Rightarrow> addr list) \<Rightarrow> 'm MeshPeer \<Rightarrow> addr list"
where
  "addrs_mpeer addrsMeta x = addrsMeta (mp_ObjectMeta x) @ addrs_mspec (mp_Spec x) @ addrs_mstatus (mp_Status x)"

lemma mpeer_copier:
  assumes meta: "deep_copier copyMeta stripMeta addrsMeta"
  shows "deep_copier (MeshPeer_DeepCopyInto copyMeta) (strip_mpeer stripMeta) (addrs_mpeer addrsMeta)"
proof
  fix x
  show "copies [] (MeshPeer_DeepCopyInto copyMeta x) (addrs_mpeer addrsMeta) (\<lambda>y. strip_mpeer stripMeta y = strip_mpeer stripMeta x)"
    unfolding MeshPeer_DeepCopyInto_def
    apply (rule copies_bind [OF deep_copier.copy_copies [OF meta]])
    apply (rule copies_bind [OF copy_mspec.copy_copies])
    apply (rule copies_bind [OF copy_mstatus.copy_copies])
    apply (rule copies_return; simp add: addrs_mpeer_def strip_mpeer_def)
    done
qed

definition MeshPeerList_DeepCopyInto ::
  "('l \<Rightarrow> (addr, 'l) state) \<Rightarrow> ('m \<Rightarrow> (addr, 'm) state) \<Rightarrow> ('l, 'm) MeshPeerList \<Rightarrow> (addr, ('l, 'm) MeshPeerList) state"
where
  "MeshPeerList_DeepCopyInto copyList copyMeta x = do {
     v1 \<leftarrow> copyList (mpl_ListMeta x);
     v2 \<leftarrow> copySlice (MeshPeer_DeepCopyInto copyMeta) (mpl_Items x);
     State_Monad.return (x\<lparr>mpl_ListMeta := v1, mpl_Items := v2\<rparr>) }"

definition strip_mpeers ::
  "('l \<Rightarrow> 'l) \<Rightarrow> ('m \<Rightarrow> 'm) \<Rightarrow> ('l, 'm) MeshPeerList \<Rightarrow> ('l, 'm) MeshPeerList"
where
  "strip_mpeers stripList stripMeta x = \<lparr>mpl_TypeMeta = mpl_TypeMeta x, mpl_ListMeta = stripList (mpl_ListMeta x),
     mpl_Items = strip_slice (strip_mpeer stripMeta) (mpl_Items x)\<rparr>"

definition addrs_mpeers ::
  "('l \<Rightarrow> addr list) \<Rightarrow> ('m \<Rightarrow> addr list) \<Rightarrow> ('l, 'm) MeshPeerList \<Rightarrow> addr list"
where
  "addrs_mpeers addrsList addrsMeta x = addrsList (mpl_ListMeta x) @ addrs_slice (addrs_mpeer addrsMeta) (mpl_Items x)"

lemma mpeers_copier:
  assumes list: "deep_copier copyList stripList addrsList" and meta: "deep_copier copyMeta stripMeta addrsMeta"
  shows "deep_copier (MeshPeerList_DeepCopyInto copyList copyMeta) (strip_mpeers stripList stripMeta) (addrs_mpeers addrsList addrsMeta)"
proof
  fix x
  show "copies [] (MeshPeerList_DeepCopyInto copyList copyMeta x) (addrs_mpeers addrsList addrsMeta) (\<lambda>y. strip_mpeers stripList stripMeta y = strip_mpeers stripList stripMeta x)"
    unfolding MeshPeerList_DeepCopyInto_def
    apply (rule copies_bind [OF deep_copier.copy_copies [OF list]])
    apply (rule copies_bind [OF deep_copier.copySlice_copies [OF mpeer_copier [OF meta]]])
    apply (rule copies_return; simp add: addrs_mpeers_def strip_mpeers_def)
    done
qed


definition MeshPeerSpec_DeepCopy :: "MeshPeerSpec ptr \<Rightarrow> (addr, MeshPeerSpec ptr) state" where
  "MeshPeerSpec_DeepCopy p = copyPtr MeshPeerSpec_DeepCopyInto p"

definition MeshPeerStatus_DeepCopy :: "MeshPeerStatus ptr \<Rightarrow> (addr, MeshPeerStatus ptr) state" where
  "MeshPeerStatus_DeepCopy p = copyPtr MeshPeerStatus_DeepCopyInto p"

definition MeshPeer_DeepCopy ::
  "('m \<Rightarrow> (addr, 'm) state) \<Rightarrow> 'm MeshPeer ptr \<Rightarrow> (addr, 'm MeshPeer ptr) state"
where
  "MeshPeer_DeepCopy copyMeta p = copyPtr (MeshPeer_DeepCopyInto copyMeta) p"

definition MeshPeer_DeepCopyObject ::
  "('m \<Rightarrow> (addr, 'm) state) \<Rightarrow> 'm MeshPeer ptr \<Rightarrow> (addr, 'm MeshPeer ptr) state"
where
  "MeshPeer_DeepCopyObject copyMeta p = as_object (MeshPeer_DeepCopy copyMeta p)"

definition MeshPeerList_DeepCopy ::
  "('l \<Rightarrow> (addr, 'l) state) \<Rightarrow> ('m \<Rightarrow> (addr, 'm) state) \<Rightarrow> ('l, 'm) MeshPeerList ptr \<Rightarrow>
   (addr, ('l, 'm) MeshPeerList ptr) state"
where
  "MeshPeerList_DeepCopy copyList copyMeta p = copyPtr (MeshPeerList_DeepCopyInto copyList copyMeta) p"

definition MeshPeerList_DeepCopyObject ::
  "('l \<Rightarrow> (addr, 'l) state) \<Rightarrow> ('m \<Rightarrow> (addr, 'm) state) \<Rightarrow> ('l, 'm) MeshPeerList ptr \<Rightarrow>
   (addr, ('l, 'm) MeshPeerList ptr) state"
where
  "MeshPeerList_DeepCopyObject copyList copyMeta p = as_object (MeshPeerList_DeepCopy copyList copyMeta p)"

definition MeshEnrollResponse_WithDefaults :: "MeshEnrollResponse \<Rightarrow> (addr, MeshEnrollResponse) state" where
  "MeshEnrollResponse_WithDefaults r = do {
     peers \<leftarrow> copySlice MeshPeerSpec_DeepCopyInto (mes_Peers r);
     State_Monad.return (r\<lparr>
       mes_SchemaVersion := (if mes_SchemaVersion r = 0 then MeshEnrollSchemaVersion else mes_SchemaVersion r),
       mes_Peers := peers\<rparr>) }"

section \<open>Domain names\<close>

definition dns_byte :: "char \<Rightarrow> bool" where
  "dns_byte c = (is_lower c \<or> is_upper c \<or> is_digit c \<or> c = CHR ''-'')"

definition dns_label :: "string \<Rightarrow> bool" where
  "dns_label l = (l \<noteq> '''' \<and> length l \<le> 63 \<and> list_all dns_byte l \<and> hd l \<noteq> CHR ''-'' \<and> last l \<noteq> CHR ''-'')"

lemma dot_not_dns [simp]: "\<not> is_lower CHR ''.''" "\<not> is_upper CHR ''.''" "\<not> is_digit CHR ''.''" "\<not> dns_byte CHR ''.''"
  "\<not> is_lower CHR ''-''" "\<not> is_upper CHR ''-''" "\<not> is_digit CHR ''-''"
  by (simp_all add: is_lower_def is_upper_def is_digit_def dns_byte_def byte_of_def)

text \<open>With part of a label read, the loop decides the labels of what was read and what is left.\<close>

lemma split_on_prefix: "c \<notin> set u \<Longrightarrow> split_on c (u @ s) = (u @ hd (split_on c s)) # tl (split_on c s)"
proof (induction u)
  case (Cons x u)
  then show ?case by auto
qed simp

lemma bad_label:
  assumes "CHR ''.'' \<notin> set u" "\<And>t. \<not> dns_label (u @ t)"
  shows "\<not> list_all dns_label (split_on CHR ''.'' (u @ s))"
  using assms by (simp add: split_on_prefix)

lemma validDNSName_loop_iff:
  assumes "list_all dns_byte u" "length u \<le> 63" "u \<noteq> '''' \<Longrightarrow> hd u \<noteq> CHR ''-'' \<and> last u = prev"
  shows "validDNSName_loop (length u) prev s \<longleftrightarrow> list_all dns_label (split_on CHR ''.'' (u @ s))"
  using assms
proof (induction s arbitrary: u prev)
  case Nil
  then have "CHR ''.'' \<notin> set u" by (auto simp: list_all_iff)
  with Nil show ?case by (auto simp: dns_label_def)
next
  case (Cons c s)
  have u: "CHR ''.'' \<notin> set u" using Cons.prems(1) by (auto simp: list_all_iff)
  show ?case
  proof (cases "c = CHR ''.''")
    case True
    have "dns_label u \<longleftrightarrow> u \<noteq> [] \<and> prev \<noteq> CHR ''-''" using Cons.prems by (auto simp: dns_label_def)
    then show ?thesis using True u Cons.IH [of "''''"] by (simp add: split_on_append)
  next
    case False
    have step: "validDNSName_loop (length u) prev (c # s) \<longleftrightarrow>
        dns_byte c \<and> length u < 63 \<and> \<not> (u = [] \<and> c = CHR ''-'') \<and> validDNSName_loop (length (u @ [c])) c s"
      using False by (auto simp: dns_byte_def)
    show ?thesis
    proof (cases "dns_byte c \<and> length u < 63 \<and> \<not> (u = [] \<and> c = CHR ''-'')")
      case True
      have "validDNSName_loop (length (u @ [c])) c s \<longleftrightarrow> list_all dns_label (split_on CHR ''.'' ((u @ [c]) @ s))"
        using True Cons.prems by (intro Cons.IH) (auto simp: hd_append)
      with step True show ?thesis by simp
    next
      case bad: False
      have "\<not> dns_label ((u @ [c]) @ t)" for t using bad by (auto simp: dns_label_def)
      then have "\<not> list_all dns_label (split_on CHR ''.'' ((u @ [c]) @ s))"
        using u False by (intro bad_label) auto
      with step bad show ?thesis by auto
    qed
  qed
qed

lemma validDNSName_iff:
  "validDNSName h \<longleftrightarrow> length h \<le> 253 \<and> list_all dns_label (split_on CHR ''.'' h)"
  using validDNSName_loop_iff [of "''''" "CHR ''.''" h] by (auto simp: validDNSName_def)


section \<open>What the validators admit\<close>

text \<open>A well-formed endpoint: a host that is an address or a domain name, a port in 1 to 65535.\<close>

definition endpoint_syntax :: "string \<Rightarrow> bool" where
  "endpoint_syntax e = (\<exists>host port n. SplitHostPort e = Some (host, port) \<and> host \<noteq> '''' \<and>
     ((\<exists>a. ParseAddr host = Some a) \<or> validDNSName host) \<and> ParseUint16 port = Some n \<and> 0 < n)"

text \<open>The IPv4 link-local address an endpoint names, written as such or mapped into IPv6.\<close>

definition names_link_local :: "string \<Rightarrow> netip_Addr \<Rightarrow> bool" where
  "names_link_local e a = (\<exists>host port a0. SplitHostPort e = Some (host, port) \<and> ParseAddr host = Some a0 \<and>
     a = Unmap a0 \<and> Is4 a \<and> IsLinkLocalUnicast a)"

lemma validateHostPort_iff: "validateHostPort e = None \<longleftrightarrow> endpoint_syntax e"
  by (auto simp: validateHostPort_def endpoint_syntax_def check_simps split: option.splits)

lemma validateLinkLocal_iff:
  "validateLinkLocal e b = None \<longleftrightarrow>
     (\<exists>hp. SplitHostPort e = Some hp) \<and> (\<forall>a. names_link_local e a \<longrightarrow> inReservedLinkHalf a \<and> b)"
  by (auto simp: validateLinkLocal_def names_link_local_def Let_def split: option.splits)

lemma SplitHostPort_empty: "SplitHostPort [] = None"
  by (simp add: SplitHostPort_def last_colon_def)

lemma endpoint_syntax_nonempty: "endpoint_syntax e \<Longrightarrow> e \<noteq> '''' \<and> (\<exists>hp. SplitHostPort e = Some hp)"
  using SplitHostPort_empty by (auto simp: endpoint_syntax_def)

definition candidate_ok :: "EndpointCandidate \<Rightarrow> bool" where
  "candidate_ok c = ((ec_Link c = EndpointLinkUnderlay \<or> ec_Link c = EndpointLinkDirect) \<and> endpoint_syntax (ec_Address c) \<and>
     (\<forall>a. names_link_local (ec_Address c) a \<longrightarrow> inReservedLinkHalf a \<and> ec_Link c = EndpointLinkDirect))"

lemma EndpointCandidate_validate_iff: "EndpointCandidate_validate c = None \<longleftrightarrow> candidate_ok c"
  using endpoint_syntax_nonempty [of "ec_Address c"]
  by (auto simp: EndpointCandidate_validate_def check_simps validateHostPort_iff validateLinkLocal_iff candidate_ok_def)

lemma MeshPeerSpec_Validate_iff:
  "MeshPeerSpec_Validate s = None \<longleftrightarrow>
     ms_SchemaVersion s \<noteq> 0 \<and> ms_NodeName s \<noteq> '''' \<and> ms_PublicKey s \<noteq> '''' \<and> endpoint_syntax (ms_Endpoint s) \<and>
     (\<forall>a. names_link_local (ms_Endpoint s) a \<longrightarrow> inReservedLinkHalf a) \<and>
     (\<forall>c \<in> set (els (ms_Endpoints s)). candidate_ok c) \<and> ms_PodCIDR s \<noteq> '''' \<and> els (ms_AllowedIPs s) \<noteq> []"
proof -
  have "range_err (\<lambda>i c. map_option (PeerCandidate (ms_NodeName s) i) (EndpointCandidate_validate c)) 0 (els (ms_Endpoints s)) = None
      \<longleftrightarrow> (\<forall>c \<in> set (els (ms_Endpoints s)). candidate_ok c)"
    by (rule range_err_None_all) (simp add: EndpointCandidate_validate_iff)
  then show ?thesis
    using endpoint_syntax_nonempty [of "ms_Endpoint s"]
    by (auto simp: MeshPeerSpec_Validate_def check_simps validateHostPort_iff validateLinkLocal_iff)
qed

lemma MeshEnrollRequest_Validate_iff:
  "MeshEnrollRequest_Validate r = None \<longleftrightarrow>
     mer_SchemaVersion r \<noteq> 0 \<and> mer_NodeName r \<noteq> '''' \<and> mer_PublicKey r \<noteq> '''' \<and> endpoint_syntax (mer_Endpoint r)"
  using endpoint_syntax_nonempty [of "mer_Endpoint r"]
  by (auto simp: MeshEnrollRequest_Validate_def check_simps validateHostPort_iff)


section \<open>Defaults\<close>

lemma WithDefaults_copies:
  "copies [] (MeshPeerSpec_WithDefaults s) addrs_mspec (\<lambda>t. strip_mspec t = strip_mspec (s\<lparr>
     ms_SchemaVersion := (if ms_SchemaVersion s = 0 then 1 else ms_SchemaVersion s),
     ms_PersistentKeepaliveSeconds := (if ms_PersistentKeepaliveSeconds s = 0 then 25 else ms_PersistentKeepaliveSeconds s)\<rparr>))"
  unfolding MeshPeerSpec_WithDefaults_def
  apply (rule copies_bind [OF clone_slice.copy_copies])
  apply (rule copies_bind [OF clone_slice.copy_copies])
  apply (rule copies_return; simp add: addrs_mspec_def strip_mspec_def const_defs)
  done

lemma strip_mspec_eqD:
  "strip_mspec t = strip_mspec s \<Longrightarrow>
     ms_SchemaVersion t = ms_SchemaVersion s \<and> ms_NodeName t = ms_NodeName s \<and> ms_PublicKey t = ms_PublicKey s \<and>
     ms_Endpoint t = ms_Endpoint s \<and> els (ms_Endpoints t) = els (ms_Endpoints s) \<and> ms_PodCIDR t = ms_PodCIDR s \<and>
     els (ms_AllowedIPs t) = els (ms_AllowedIPs s)"
  by (auto simp: strip_mspec_def) (metis els_strip_leaf)+

lemma strip_mspec_Validate:
  "strip_mspec t = strip_mspec s \<Longrightarrow> MeshPeerSpec_Validate t = None \<longleftrightarrow> MeshPeerSpec_Validate s = None"
  by (drule strip_mspec_eqD) (simp add: MeshPeerSpec_Validate_iff)

section \<open>Properties\<close>

text \<open>The byte loop of \<open>validDNSName\<close> decides exactly the domain names its comment describes: at most
  253 bytes, and every dot-separated label has 1 to 63 letters, digits and hyphens and neither starts
  nor ends with a hyphen (so no empty label and no trailing dot).\<close>

theorem validDNSName_decides:
  "validDNSName h \<longleftrightarrow> length h \<le> 253 \<and> list_all dns_label (split_on CHR ''.'' h)"
  by (rule validDNSName_iff)

text \<open>What a \<open>MeshPeer\<close> specification must be to validate: stamped, named, with a key, a pod range and
  a route; its endpoint and every candidate well-formed, every candidate of a known link kind; and no
  IPv4 link-local address anywhere but in the two reserved halves, there only in the endpoint itself
  or in a direct candidate. An IPv4 address written as an IPv6-mapped one does not escape the
  rule.\<close>

theorem MeshPeerSpec_Validate_decides:
  "MeshPeerSpec_Validate s = None \<longleftrightarrow>
     ms_SchemaVersion s \<noteq> 0 \<and> ms_NodeName s \<noteq> '''' \<and> ms_PublicKey s \<noteq> '''' \<and> endpoint_syntax (ms_Endpoint s) \<and>
     (\<nexists>a. names_link_local (ms_Endpoint s) a \<and> \<not> inReservedLinkHalf a) \<and>
     list_all (\<lambda>c. ec_Link c \<in> {''underlay'', ''direct''} \<and> endpoint_syntax (ec_Address c) \<and>
       (\<nexists>a. names_link_local (ec_Address c) a \<and> \<not> (inReservedLinkHalf a \<and> ec_Link c = ''direct''))) (els (ms_Endpoints s)) \<and>
     ms_PodCIDR s \<noteq> '''' \<and> els (ms_AllowedIPs s) \<noteq> []"
proof -
  have "candidate_ok c \<longleftrightarrow> ec_Link c \<in> {''underlay'', ''direct''} \<and> endpoint_syntax (ec_Address c) \<and>
       (\<nexists>a. names_link_local (ec_Address c) a \<and> \<not> (inReservedLinkHalf a \<and> ec_Link c = ''direct''))" for c
    by (auto simp: candidate_ok_def const_defs)
  then show ?thesis by (auto simp: MeshPeerSpec_Validate_iff list_all_iff)
qed

text \<open>(C39) The join exchange admits more than the object it leads to. When a node's enrolment request
  validates, the specification built from its fields (with a pod range and a route) validates exactly
  when the endpoint names no self-assigned link-local address; and some accepted request does name
  one, so the two sides of the contract do not reject the same strings.\<close>

theorem enroll_admits_self_assigned:
  "(MeshEnrollRequest_Validate r = None \<and> ms_SchemaVersion s = mer_SchemaVersion r \<and> ms_NodeName s = mer_NodeName r \<and>
    ms_PublicKey s = mer_PublicKey r \<and> ms_Endpoint s = mer_Endpoint r \<and> ms_Endpoints s = NilP \<and> ms_PodCIDR s \<noteq> '''' \<and>
    els (ms_AllowedIPs s) \<noteq> [] \<longrightarrow>
      (MeshPeerSpec_Validate s = None \<longleftrightarrow> (\<nexists>a. names_link_local (mer_Endpoint r) a \<and> \<not> inReservedLinkHalf a))) \<and>
   (\<exists>r'. MeshEnrollRequest_Validate r' = None \<and>
      validateLinkLocal (mer_Endpoint r') True = Some (SelfAssigned ''169.254.7.7:51820''))"
proof -
  let ?e = "''169.254.7.7:51820''"
  let ?r = "\<lparr>mer_SchemaVersion = 1, mer_NodeName = ''a'', mer_PublicKey = ''k'', mer_Endpoint = ?e, mer_PodCIDR = ''''\<rparr>"
  have sp: "SplitHostPort ?e = Some (''169.254.7.7'', ''51820'')"
    using SplitHostPort_plain [of "''169.254.7.7''" "''51820''"] by simp
  have pa: "ParseAddr ''169.254.7.7'' = Some (Addr4 169 254 7 7)"
    by (simp add: ParseAddr_def parseIPv4_def octet_def dec_val_def is_digit_def byte_of_def)
  have "ParseUint16 ''51820'' = Some 51820"
    by (simp add: ParseUint16_def dec_val_def is_digit_def byte_of_def)
  then have "MeshEnrollRequest_Validate ?r = None"
    by (simp add: MeshEnrollRequest_Validate_iff endpoint_syntax_def sp pa)
  moreover have "validateLinkLocal ?e True = Some (SelfAssigned ?e)"
    by (simp add: validateLinkLocal_def sp pa IsLinkLocalUnicast_def)
  ultimately have "\<exists>r'. MeshEnrollRequest_Validate r' = None \<and> validateLinkLocal (mer_Endpoint r') True = Some (SelfAssigned ?e)"
    by (intro exI [of _ ?r]) simp
  then show ?thesis by (auto simp: MeshPeerSpec_Validate_iff MeshEnrollRequest_Validate_iff)
qed

definition sample_request :: MeshEnrollRequest where
  "sample_request = \<lparr>mer_SchemaVersion = 1, mer_NodeName = ''mac-1'', mer_PublicKey = ''key'',
     mer_Endpoint = ''mac-1.lan:51820'', mer_PodCIDR = ''''\<rparr>"

definition sample_mspec :: MeshPeerSpec where
  "sample_mspec = \<lparr>ms_SchemaVersion = 1, ms_NodeName = ''mac-1'', ms_PublicKey = ''key'', ms_Endpoint = ''mac-1.lan:51820'',
     ms_Endpoints = NilP, ms_PodCIDR = ''10.42.1.0/24'', ms_AllowedIPs = Ptr 1 [''10.42.1.0/24''], ms_MeshIP = '''',
     ms_PersistentKeepaliveSeconds = 0\<rparr>"

lemma sample_host: "SplitHostPort ''mac-1.lan:51820'' = Some (''mac-1.lan'', ''51820'')"
  using SplitHostPort_plain [of "''mac-1.lan''" "''51820''"] by simp

lemma sample_endpoint_syntax: "endpoint_syntax ''mac-1.lan:51820''"
proof -
  have "ParseUint16 ''51820'' = Some 51820"
    by (simp add: ParseUint16_def dec_val_def is_digit_def byte_of_def)
  moreover have "validDNSName ''mac-1.lan''"
    by (simp add: validDNSName_def is_lower_def is_upper_def is_digit_def byte_of_def)
  ultimately show ?thesis by (simp add: endpoint_syntax_def sample_host)
qed

theorem enroll_admits_self_assigned_witness:
  "MeshEnrollRequest_Validate sample_request = None \<and> MeshPeerSpec_Validate sample_mspec = None"
proof -
  have "ParseAddr ''mac-1.lan'' = None"
    by (simp add: ParseAddr_def parseIPv4_def octet_def is_digit_def byte_of_def)
  then have "\<nexists>a. names_link_local (mer_Endpoint sample_request) a \<and> \<not> inReservedLinkHalf a"
    by (simp add: names_link_local_def sample_request_def sample_host)
  moreover have "MeshEnrollRequest_Validate sample_request = None"
    by (simp add: MeshEnrollRequest_Validate_iff sample_request_def sample_endpoint_syntax)
  ultimately show ?thesis
    using enroll_admits_self_assigned [of sample_request sample_mspec]
    by (simp add: sample_request_def sample_mspec_def)
qed

text \<open>Defaulting a specification never shares a slice with the receiver, stamps only the current
  schema version and only an unstamped payload, gives a keepalive, and otherwise keeps the value; the
  result validates when the receiver would validate once stamped. Defaulting an enrolment response
  copies every peer, slices included, into memory allocated during the call.\<close>

theorem mesh_defaults:
  assumes "run_state (MeshPeerSpec_WithDefaults s) n = (t, l)"
    and "run_state (MeshEnrollResponse_WithDefaults r) n' = (u, l')"
  shows "addrs_mspec t = [n..<l] \<and> ms_SchemaVersion t = (if ms_SchemaVersion s = 0 then 1 else ms_SchemaVersion s) \<and>
    ms_PersistentKeepaliveSeconds t \<noteq> 0 \<and>
    (MeshPeerSpec_Validate t = None \<longleftrightarrow>
       MeshPeerSpec_Validate (s\<lparr>ms_SchemaVersion := (if ms_SchemaVersion s = 0 then 1 else ms_SchemaVersion s)\<rparr>) = None) \<and>
    mes_SchemaVersion u \<noteq> 0 \<and> addrs_slice addrs_mspec (mes_Peers u) = [n'..<l'] \<and>
    strip_slice strip_mspec (mes_Peers u) = strip_slice strip_mspec (mes_Peers r)"
proof -
  let ?s = "s\<lparr>ms_SchemaVersion := (if ms_SchemaVersion s = 0 then 1 else ms_SchemaVersion s),
     ms_PersistentKeepaliveSeconds := (if ms_PersistentKeepaliveSeconds s = 0 then 25 else ms_PersistentKeepaliveSeconds s)\<rparr>"
  note t = copies_run [OF WithDefaults_copies assms(1)]
  have "MeshPeerSpec_Validate t = None \<longleftrightarrow> MeshPeerSpec_Validate ?s = None" by (rule strip_mspec_Validate [OF t(3)])
  moreover have "ms_SchemaVersion t = ms_SchemaVersion ?s" "ms_PersistentKeepaliveSeconds t = ms_PersistentKeepaliveSeconds ?s"
    using t(3) by (simp_all add: strip_mspec_def)
  moreover have "MeshPeerSpec_Validate ?s = None \<longleftrightarrow>
      MeshPeerSpec_Validate (s\<lparr>ms_SchemaVersion := (if ms_SchemaVersion s = 0 then 1 else ms_SchemaVersion s)\<rparr>) = None"
    by (simp add: MeshPeerSpec_Validate_iff)
  moreover obtain ps l'' where c: "run_state (copySlice MeshPeerSpec_DeepCopyInto (mes_Peers r)) n' = (ps, l'')" by fastforce
  then have "u = r\<lparr>mes_SchemaVersion := (if mes_SchemaVersion r = 0 then 1 else mes_SchemaVersion r), mes_Peers := ps\<rparr>" "l' = l''"
    using assms(2) by (auto simp: MeshEnrollResponse_WithDefaults_def const_defs)
  moreover note copies_run [OF copy_mspec.copySlice_copies c]
  ultimately show ?thesis using t(2) by simp
qed

theorem mesh_defaults_witness:
  "\<exists>t l. run_state (MeshPeerSpec_WithDefaults sample_mspec) 2 = (t, l) \<and> addrs_mspec t = [2..<l] \<and>
     ms_PersistentKeepaliveSeconds t \<noteq> 0"
proof -
  obtain t l where t: "run_state (MeshPeerSpec_WithDefaults sample_mspec) 2 = (t, l)" by fastforce
  obtain u l' where u: "run_state (MeshEnrollResponse_WithDefaults
      \<lparr>mes_SchemaVersion = 0, mes_NodeName = '''', mes_PodCIDR = '''', mes_MeshIP = '''', mes_Peers = Ptr 1 [sample_mspec]\<rparr>) 2 = (u, l')"
    by fastforce
  from mesh_defaults [OF t u] t show ?thesis by blast
qed

end
