(* ===== verification/LinkAddr.thy ===== *)
theory LinkAddr
  imports NetText
begin

text \<open>
  The derived link-local addresses of \<open>net/v1alpha1/linkip.go\<close> and
  \<open>net/v1alpha1/interconnectaddr.go\<close>. The arguments are Go \<open>int\<close>s (64 bits, read with their sign),
  and the host octet is the conversion of a 64-bit sum to a byte.
\<close>

section \<open>Constants and operations\<close>

definition MaxLinkNodeIndex :: int64 where [const_defs]: "MaxLinkNodeIndex = 61"
definition MaxPortOrdinal :: int64 where [const_defs]: "MaxPortOrdinal = 7"
definition lowHalfMaxIndex :: int64 where [const_defs]: "lowHalfMaxIndex = 30"
definition portsPerNode :: int64 where [const_defs]: "portsPerNode = MaxPortOrdinal + 1"

definition MaxInterconnectNodeIndex :: int64 where [const_defs]: "MaxInterconnectNodeIndex = 30"
definition InterconnectSlotNode :: int64 where [const_defs]: "InterconnectSlotNode = 0"
definition InterconnectSlotMLXRank :: int64 where [const_defs]: "InterconnectSlotMLXRank = 1"
definition InterconnectSlotFirstPod :: int64 where [const_defs]: "InterconnectSlotFirstPod = 2"
definition MaxInterconnectSlot :: int64 where [const_defs]: "MaxInterconnectSlot = 7"
definition interconnectSlotsPerNode :: int64 where [const_defs]: "interconnectSlotsPerNode = MaxInterconnectSlot + 1"

datatype link_err =
    NoLinkPort int64
  | NoLinkIndex int64
  | NoInterconnectIndex int64
  | NoInterconnectSlot int64

definition LinkIP :: "int64 \<Rightarrow> int64 \<Rightarrow> link_err + netip_Addr" where
  "LinkIP idx portOrdinal =
     (if portOrdinal <s 0 \<or> MaxPortOrdinal <s portOrdinal then Inl (NoLinkPort portOrdinal)
      else if 0 \<le>s idx \<and> idx \<le>s lowHalfMaxIndex then
        Inr (Addr4 169 254 0 (ucast (portsPerNode * idx + portOrdinal + 1)))
      else if lowHalfMaxIndex <s idx \<and> idx \<le>s MaxLinkNodeIndex then
        Inr (Addr4 169 254 255 (ucast (portsPerNode * (idx - lowHalfMaxIndex - 1) + portOrdinal + 1)))
      else Inl (NoLinkIndex idx))"

definition IsLinkAddress :: "netip_Addr \<Rightarrow> bool" where
  "IsLinkAddress a =
     (case Unmap a of
        Addr4 b0 b1 b2 b3 \<Rightarrow> b0 = 169 \<and> b1 = 254 \<and> (b2 = 0 \<or> b2 = 255)
      | _ \<Rightarrow> False)"

definition InterconnectSlotAddress :: "int64 \<Rightarrow> int64 \<Rightarrow> link_err + netip_Addr" where
  "InterconnectSlotAddress idx slot =
     (if idx <s 0 \<or> MaxInterconnectNodeIndex <s idx then Inl (NoInterconnectIndex idx)
      else if slot <s 0 \<or> MaxInterconnectSlot <s slot then Inl (NoInterconnectSlot slot)
      else Inr (Addr4 169 254 0 (ucast (interconnectSlotsPerNode * idx + slot + 1))))"


section \<open>Arithmetic\<close>

lemma ucast_of_int: "(ucast (word_of_int k :: int64) :: byte) = word_of_int k"
  by (rule bit_word_eqI) (simp add: bit_simps)

lemma host_octet: "(ucast (8 * i + p + 1 :: int64) :: byte) = word_of_int (8 * sint i + sint p + 1)"
proof -
  have "8 * i + p + 1 = (word_of_int (8 * sint i + sint p + 1) :: int64)"
    by simp
  then show ?thesis by (simp only: ucast_of_int)
qed

lemma len8_256: "2 ^ LENGTH(8) = (256 :: int)"
  by simp

lemma byte_inj: "0 \<le> a \<Longrightarrow> a < 256 \<Longrightarrow> 0 \<le> b \<Longrightarrow> b < 256 \<Longrightarrow> word_of_int a = (word_of_int b :: byte) \<longleftrightarrow> a = b"
  by (metis take_bit_int_eq_self uint_word_of_int_eq len8_256)

lemma sint_less_eq: "sint (x :: int64) = sint y \<longleftrightarrow> x = y"
  by (auto intro: signed_word_eqI)

lemma LinkIP_ok_iff:
  "(\<exists>a. LinkIP idx p = Inr a) \<longleftrightarrow> 0 \<le> sint p \<and> sint p \<le> 7 \<and> 0 \<le> sint idx \<and> sint idx \<le> 61"
  by (auto simp: LinkIP_def const_defs word_sless_alt word_sle_eq)

definition link_octets :: "int \<Rightarrow> int \<Rightarrow> int \<times> int" where
  "link_octets i p = (if i \<le> 30 then (0, 8 * i + p + 1) else (255, 8 * (i - 31) + p + 1))"

lemma LinkIP_octets:
  assumes "0 \<le> sint p" "sint p \<le> 7" "0 \<le> sint idx" "sint idx \<le> 61"
  shows "LinkIP idx p = Inr (Addr4 169 254 (word_of_int (fst (link_octets (sint idx) (sint p))))
    (word_of_int (snd (link_octets (sint idx) (sint p)))))"
proof (cases "sint idx \<le> 30")
  case True
  then show ?thesis using assms
    by (simp add: LinkIP_def const_defs word_sless_alt word_sle_eq link_octets_def host_octet)
next
  case False
  have "sint (idx - 30 - 1) = sint idx - 31"
    using False assms by (simp add: sint_word_ariths signed_take_bit_int_eq_self)
  then have h: "(ucast (8 * (idx - 30 - 1) + p + 1) :: byte) = word_of_int (8 * (sint idx - 31) + sint p + 1)"
    by (simp only: host_octet)
  have eight: "portsPerNode = 8" by (simp add: const_defs)
  from False assms show ?thesis
    unfolding LinkIP_def eight lowHalfMaxIndex_def h
    by (simp add: const_defs word_sless_alt word_sle_eq link_octets_def)
qed

lemma link_octets_bounds:
  assumes "0 \<le> i" "i \<le> 61" "0 \<le> p" "p \<le> 7"
  shows "(fst (link_octets i p) = 0 \<or> fst (link_octets i p) = 255) \<and>
    1 \<le> snd (link_octets i p) \<and> snd (link_octets i p) \<le> 248"
  using assms by (auto simp: link_octets_def)

lemma link_octets_inj:
  assumes "0 \<le> i" "0 \<le> p" "p \<le> 7" "0 \<le> j" "0 \<le> q" "q \<le> 7" "link_octets i p = link_octets j q"
  shows "i = j \<and> p = q"
  using assms by (simp add: link_octets_def split: if_splits; presburger)

lemma LinkIP_SomeD:
  assumes "LinkIP idx p = Inr a"
  shows "0 \<le> sint p \<and> sint p \<le> 7 \<and> 0 \<le> sint idx \<and> sint idx \<le> 61 \<and>
    a = Addr4 169 254 (word_of_int (fst (link_octets (sint idx) (sint p)))) (word_of_int (snd (link_octets (sint idx) (sint p))))"
proof -
  have b: "0 \<le> sint p" "sint p \<le> 7" "0 \<le> sint idx" "sint idx \<le> 61" using assms LinkIP_ok_iff by blast+
  with LinkIP_octets [OF b] assms show ?thesis by simp
qed

lemma LinkIP_inj:
  assumes "LinkIP i p = Inr a" "LinkIP j q = Inr a"
  shows "i = j \<and> p = q"
proof -
  note a = LinkIP_SomeD [OF assms(1)] LinkIP_SomeD [OF assms(2)]
  let ?x = "link_octets (sint i) (sint p)" and ?y = "link_octets (sint j) (sint q)"
  have bx: "(fst ?x = 0 \<or> fst ?x = 255) \<and> 1 \<le> snd ?x \<and> snd ?x \<le> 248"
    by (rule link_octets_bounds) (use a in auto)
  have b_y: "(fst ?y = 0 \<or> fst ?y = 255) \<and> 1 \<le> snd ?y \<and> snd ?y \<le> 248"
    by (rule link_octets_bounds) (use a in auto)
  have "(word_of_int (fst ?x) :: byte) = word_of_int (fst ?y)" "(word_of_int (snd ?x) :: byte) = word_of_int (snd ?y)"
    using a by auto
  then have "fst ?x = fst ?y" "snd ?x = snd ?y" using bx b_y by (subst (asm) byte_inj; fastforce)+
  then have "link_octets (sint i) (sint p) = link_octets (sint j) (sint q)" by (simp add: prod_eq_iff)
  with a link_octets_inj have "sint i = sint j \<and> sint p = sint q" by blast
  then show ?thesis by (simp add: sint_less_eq)
qed

lemma LinkIP_shape:
  assumes "LinkIP idx p = Inr a"
  shows "\<exists>h d. a = Addr4 169 254 h d \<and> (h = 0 \<or> h = 255) \<and> 1 \<le> uint d \<and> uint d \<le> 248"
proof -
  note a = LinkIP_SomeD [OF assms]
  let ?x = "link_octets (sint idx) (sint p)"
  have b: "(fst ?x = 0 \<or> fst ?x = 255) \<and> 1 \<le> snd ?x \<and> snd ?x \<le> 248"
    by (rule link_octets_bounds) (use a in auto)
  then have "uint (word_of_int (snd ?x) :: byte) = snd ?x" by (simp add: uint_word_of_int_eq take_bit_int_eq_self)
  with a b show ?thesis by auto
qed

text \<open>The addresses derived are exactly the hosts 1 to 248 of the two reserved halves.\<close>

lemma LinkIP_range:
  "(\<exists>idx p. LinkIP idx p = Inr (Addr4 169 254 c d)) \<longleftrightarrow> (c = 0 \<or> c = 255) \<and> 1 \<le> uint d \<and> uint d \<le> 248"
proof
  assume "\<exists>idx p. LinkIP idx p = Inr (Addr4 169 254 c d)"
  then show "(c = 0 \<or> c = 255) \<and> 1 \<le> uint d \<and> uint d \<le> 248" using LinkIP_shape by fastforce
next
  assume a: "(c = 0 \<or> c = 255) \<and> 1 \<le> uint d \<and> uint d \<le> 248"
  define i where "i = (uint d - 1) div 8 + (if c = 0 then 0 else 31)"
  define q where "q = (uint d - 1) mod 8"
  have b: "0 \<le> i" "i \<le> 61" "0 \<le> q" "q \<le> 7" using a by (auto simp: i_def q_def)
  have s: "sint (word_of_int k :: int64) = k" if "0 \<le> k" "k \<le> 61" for k
    using that by (simp add: sint_sbintrunc' signed_take_bit_int_eq_self)
  have h: "8 * ((uint d - 1) div 8) + q + 1 = uint d" unfolding q_def by presburger
  have o: "(if c = 0 then (0, uint d) else (255, uint d)) = link_octets i q"
  proof (cases "c = 0")
    case True
    then have "i = (uint d - 1) div 8" "i \<le> 30" using a by (auto simp: i_def)
    with True h show ?thesis by (simp add: link_octets_def)
  next
    case False
    then have "i - 31 = (uint d - 1) div 8" "\<not> i \<le> 30" using a by (auto simp: i_def)
    with False h show ?thesis by (simp add: link_octets_def)
  qed
  have si: "sint (word_of_int i :: int64) = i" "sint (word_of_int q :: int64) = q" using s [of i] s [of q] b by simp_all
  have "LinkIP (word_of_int i) (word_of_int q) =
      Inr (Addr4 169 254 (word_of_int (fst (link_octets i q))) (word_of_int (snd (link_octets i q))))"
    using LinkIP_octets [of "word_of_int q" "word_of_int i"] b unfolding si by simp
  also have "\<dots> = Inr (Addr4 169 254 c d)" using a by (auto simp: o [symmetric])
  finally show "\<exists>idx p. LinkIP idx p = Inr (Addr4 169 254 c d)" by blast
qed

lemma InterconnectSlotAddress_LinkIP:
  "InterconnectSlotAddress idx slot = Inr a \<longleftrightarrow> LinkIP idx slot = Inr a \<and> sint idx \<le> 30"
  by (auto simp: InterconnectSlotAddress_def LinkIP_def const_defs word_sless_alt word_sle_eq)


section \<open>Properties\<close>

text \<open>(C38) The derived addresses. A node index and port have an address exactly when the index is in
  0 to 61 and the port in 0 to 7 (as signed 64-bit numbers, so no argument wraps into range); every
  derived address lies in one of the two reserved /24 halves and its host octet is between 1 and 248,
  so it is neither the network nor the broadcast address; distinct pairs get distinct addresses; and
  the interconnect derives the same address as the link for indexes up to 30 and none above.\<close>

theorem derived_addresses:
  "((\<exists>a. LinkIP i p = Inr a) \<longleftrightarrow> sint i \<in> {0..61} \<and> sint p \<in> {0..7}) \<and>
   (LinkIP i p = Inr a \<longrightarrow> IsLinkAddress a \<and>
      (\<exists>h d. a = Addr4 169 254 h d \<and> (h = 0 \<or> h = 255) \<and> 1 \<le> uint d \<and> uint d \<le> 248)) \<and>
   (LinkIP i p = Inr a \<and> LinkIP j q = Inr a \<longrightarrow> i = j \<and> p = q) \<and>
   (InterconnectSlotAddress i p = Inr a \<longleftrightarrow> LinkIP i p = Inr a \<and> sint i \<le> 30)"
proof -
  have "IsLinkAddress a" if "LinkIP i p = Inr a"
    using LinkIP_shape [OF that] by (auto simp: IsLinkAddress_def)
  moreover have "(\<exists>a. LinkIP i p = Inr a) \<longleftrightarrow> sint i \<in> {0..61} \<and> sint p \<in> {0..7}"
    unfolding LinkIP_ok_iff atLeastAtMost_iff by blast
  ultimately show ?thesis
    using LinkIP_shape LinkIP_inj InterconnectSlotAddress_LinkIP by blast
qed

theorem derived_addresses_witness:
  "LinkIP 61 7 = Inr (Addr4 169 254 255 248) \<and> IsLinkAddress (Addr4 169 254 255 248) \<and>
   \<not> (\<exists>a. LinkIP 62 0 = Inr a)"
proof -
  have "LinkIP 61 7 = Inr (Addr4 169 254 255 248)"
    by (simp add: LinkIP_def const_defs word_sless_alt word_sle_eq)
  moreover have "IsLinkAddress (Addr4 169 254 255 248)"
    using derived_addresses [of 61 7 "Addr4 169 254 255 248" 0 0] calculation by blast
  moreover have "\<not> (\<exists>a. LinkIP 62 0 = Inr a)"
    using derived_addresses [of 62 0 ZeroAddr 0 0] by simp
  ultimately show ?thesis by blast
qed

end
