(* ===== verification/TextLib.thy ===== *)
theory TextLib
  imports NetText
begin

text \<open>
  More of Go's \<open>strings\<close> package, as the path, storage and test-result code uses it: lower-casing,
  searching for a substring, trimming and replacing, with the lemmas on splitting at a separator that
  those components share.
\<close>

section \<open>Lower case\<close>

text \<open>\<open>strings.ToLower\<close> on ASCII text.\<close>

definition lower_byte :: "char \<Rightarrow> char" where
  "lower_byte c = (if is_upper c then char_of (byte_of c + 32) else c)"

definition ToLower :: "string \<Rightarrow> string" where
  "ToLower s = map lower_byte s"

lemma byte_of_lower: "byte_of (lower_byte c) = (if is_upper c then byte_of c + 32 else byte_of c)"
  by (auto simp: lower_byte_def byte_of_def is_upper_def)

lemma lower_byte_idem [simp]: "lower_byte (lower_byte c) = lower_byte c"
  by (simp add: byte_of_inj [symmetric] byte_of_lower is_upper_def del: byte_of_inj)

lemma ToLower_simps [simp]: "ToLower [] = []" "ToLower (c # s) = lower_byte c # ToLower s"
  "ToLower (s @ t) = ToLower s @ ToLower t" "length (ToLower s) = length s" "ToLower (ToLower s) = ToLower s"
  "ToLower s = [] \<longleftrightarrow> s = []"
  by (simp_all add: ToLower_def)

lemma lower_byte_eq_iff: "\<not> is_upper d \<Longrightarrow> \<not> is_lower d \<Longrightarrow> lower_byte c = d \<longleftrightarrow> c = d"
  unfolding byte_of_inj [symmetric] byte_of_lower by (auto simp: is_upper_def is_lower_def)

lemma lower_slash [simp]: "lower_byte c = CHR ''/'' \<longleftrightarrow> c = CHR ''/''"
  by (rule lower_byte_eq_iff) (simp_all add: is_upper_def is_lower_def byte_of_def)

lemma split_on_map:
  assumes "\<And>x. f x = c \<longleftrightarrow> x = c"
  shows "split_on c (map f s) = map (map f) (split_on c s)"
proof (induction s)
  case (Cons x s)
  then show ?case using assms by (cases "split_on c s") auto
qed simp

lemma split_ToLower: "split_on CHR ''/'' (ToLower p) = map ToLower (split_on CHR ''/'' p)"
  using split_on_map [of lower_byte "CHR ''/''" p] by (simp add: ToLower_def [abs_def])


section \<open>Splitting at a separator\<close>

lemma split_on_at: "split_on c (u @ c # v) = split_on c u @ split_on c v"
proof (induction u)
  case (Cons x u)
  then show ?case by (cases "split_on c u") auto
qed simp

lemma split_on_inj [simp]: "split_on c s = split_on c t \<longleftrightarrow> s = t"
  by (metis join_split)

lemma join_append: "xs \<noteq> [] \<Longrightarrow> ys \<noteq> [] \<Longrightarrow> join_with c (xs @ ys) = join_with c xs @ c # join_with c ys"
  by (induction xs) auto

lemma split_on_subset: "w \<in> set (split_on c s) \<Longrightarrow> set w \<subseteq> set s"
proof (induction s arbitrary: w)
  case (Cons x s)
  then show ?case by (cases "split_on c s") (fastforce split: if_splits)+
qed simp

lemma set_join: "x \<in> set (join_with c ws) \<Longrightarrow> x = c \<or> (\<exists>w \<in> set ws. x \<in> set w)"
  by (induction ws) (auto split: if_splits)

lemma length_join: "ws \<noteq> [] \<Longrightarrow> \<forall>w \<in> set ws. length w \<le> n \<Longrightarrow> length (join_with c ws) < length ws * (n + 1)"
proof (induction ws)
  case (Cons w ws)
  then show ?case by (cases "ws = []") (auto simp: algebra_simps)
qed simp

lemma split_prefix_iff:
  "(\<exists>i < length s. s ! i = c \<and> take i s = t) \<longleftrightarrow> (\<exists>ws. ws \<noteq> [] \<and> split_on c s = split_on c t @ ws)"
proof
  assume "\<exists>i < length s. s ! i = c \<and> take i s = t"
  then obtain i where "i < length s" "s ! i = c" "take i s = t" by blast
  then have "s = t @ c # drop (Suc i) s" by (metis id_take_nth_drop)
  then show "\<exists>ws. ws \<noteq> [] \<and> split_on c s = split_on c t @ ws" by (metis split_on_at split_on_not_Nil)
next
  assume "\<exists>ws. ws \<noteq> [] \<and> split_on c s = split_on c t @ ws"
  then obtain ws where ws: "ws \<noteq> []" "split_on c s = split_on c t @ ws" by blast
  then have "s = t @ c # join_with c ws" by (metis join_append join_split split_on_not_Nil)
  then show "\<exists>i < length s. s ! i = c \<and> take i s = t" by (intro exI [of _ "length t"]) simp
qed


section \<open>Substrings\<close>

text \<open>\<open>strings.Contains\<close>, on bytes or on runes.\<close>

primrec contains_sub :: "'a list \<Rightarrow> 'a list \<Rightarrow> bool" where
  "contains_sub [] w = (w = [])"
| "contains_sub (c # s) w = (take (length w) (c # s) = w \<or> contains_sub s w)"

lemma take_eq_prefix: "take (length w) s = w \<longleftrightarrow> prefix w s"
  by (metis append_eq_conv_conj prefix_def take_is_prefix)

lemma contains_sub_iff: "contains_sub s w \<longleftrightarrow> (\<exists>u v. s = u @ w @ v)"
proof (induction s)
  case (Cons c s)
  have "(\<exists>u v. c # s = u @ w @ v) \<longleftrightarrow> (\<exists>v. c # s = w @ v) \<or> (\<exists>u v. s = u @ w @ v)"
    by (metis append_Cons append_Nil list.exhaust list.inject)
  then show ?case using Cons by (simp only: contains_sub.simps take_eq_prefix prefix_def)
qed auto

text \<open>\<open>strings.Count\<close> of a non-empty word: occurrences that do not overlap.\<close>

function count_sub :: "'a list \<Rightarrow> 'a list \<Rightarrow> nat" where
  "count_sub s w =
     (if s = [] \<or> w = [] then 0
      else if take (length w) s = w then Suc (count_sub (drop (length w) s) w)
      else count_sub (tl s) w)"
  by pat_completeness auto

termination count_sub
  by (relation "measure (length \<circ> fst)") auto

declare count_sub.simps [simp del]


section \<open>Runes and trimming\<close>

text \<open>A string as its runes, each with the bytes it was read from.\<close>

function rune_chunks :: "string \<Rightarrow> (nat \<times> string) list" where
  "rune_chunks s =
     (if s = [] then []
      else let d = DecodeRune (map byte_of s)
        in (fst d, take (snd d) s) # rune_chunks (drop (snd d) s))"
  by pat_completeness auto

termination rune_chunks
  by (relation "measure length") (auto simp: DecodeRune_width)

declare rune_chunks.simps [simp del]

text \<open>\<open>strings.TrimSpace\<close>. The lead byte of a white-space rune is never inside another rune, so
  reading runes from the left finds the same white space at the right end as reading backwards.\<close>

definition TrimSpace :: "string \<Rightarrow> string" where
  "TrimSpace s =
     (let sp = (\<lambda>p :: nat \<times> string. IsSpace (fst p))
      in concat (map snd (rev (dropWhile sp (rev (dropWhile sp (rune_chunks s)))))))"

lemma concat_chunks: "concat (map snd (rune_chunks s)) = s"
proof (induction s rule: rune_chunks.induct)
  case (1 s)
  then show ?case by (subst rune_chunks.simps) (auto simp: Let_def)
qed

lemma map_fst_chunks: "map fst (rune_chunks s) = string_runes s"
proof (induction s rule: rune_chunks.induct)
  case (1 s)
  then show ?case
    by (subst rune_chunks.simps) (auto simp: Let_def string_runes_def runes.simps [of "map byte_of s"] drop_map runes.simps [of "[]"])
qed

lemma chunk_nonempty: "p \<in> set (rune_chunks s) \<Longrightarrow> snd p \<noteq> []"
proof (induction s rule: rune_chunks.induct)
  case (1 s)
  show ?case
  proof (cases "s = []")
    case True
    with 1 show ?thesis by (simp add: rune_chunks.simps)
  next
    case False
    have "take (snd (DecodeRune (map byte_of s))) s \<noteq> []" using False DecodeRune_width [of "map byte_of s"] by simp
    with 1 False show ?thesis by (subst (asm) (2) rune_chunks.simps) (auto simp: Let_def)
  qed
qed

lemma trim_sub: "set (dropWhile P xs) \<subseteq> set xs"
  by (auto dest: set_dropWhileD)

lemma dropWhile_all_iff: "(\<forall>x \<in> set (dropWhile P xs). P x) \<longleftrightarrow> (\<forall>x \<in> set xs. P x)"
  by (induction xs) auto

lemma TrimSpace_empty_iff: "TrimSpace s = [] \<longleftrightarrow> list_all IsSpace (string_runes s)"
proof -
  have "concat (map snd cs) = [] \<longleftrightarrow> cs = []" if "set cs \<subseteq> set (rune_chunks s)" for cs
    using that chunk_nonempty by (cases cs) auto
  moreover have "set (rev (dropWhile P (rev (dropWhile Q (rune_chunks s))))) \<subseteq> set (rune_chunks s)" for P Q
    using trim_sub [of P "rev (dropWhile Q (rune_chunks s))"] trim_sub [of Q "rune_chunks s"] by simp
  ultimately have "TrimSpace s = [] \<longleftrightarrow>
      dropWhile (\<lambda>p. IsSpace (fst p)) (rev (dropWhile (\<lambda>p. IsSpace (fst p)) (rune_chunks s))) = []"
    unfolding TrimSpace_def Let_def by (subst rev_is_Nil_conv [symmetric]) blast
  also have "\<dots> \<longleftrightarrow> (\<forall>p \<in> set (rune_chunks s). IsSpace (fst p))"
    by (simp add: dropWhile_eq_Nil_conv dropWhile_all_iff)
  also have "\<dots> \<longleftrightarrow> list_all IsSpace (string_runes s)"
    by (simp add: list_all_iff map_fst_chunks [symmetric])
  finally show ?thesis .
qed

text \<open>A trimmed string does not start with ASCII white space.\<close>

lemma DecodeRune_ascii: "bs \<noteq> [] \<Longrightarrow> hd bs < 128 \<Longrightarrow> DecodeRune bs = (hd bs, 1)"
  by (simp add: DecodeRune_def)

lemma mod_in_block: "q * m \<le> x \<Longrightarrow> x < q * m + m \<Longrightarrow> x mod m = x - q * m" for x m q :: nat
proof -
  assume "q * m \<le> x" "x < q * m + m"
  then obtain k where "x = q * m + k" "k < m" using le_Suc_ex by fastforce
  then show ?thesis by simp
qed

lemma lead_value:
  assumes "lead_byte x = Some (n, lo, hi)"
  shows "n = 2 \<and> 2 \<le> x mod 32 \<or> n = 3 \<and> (1 \<le> x mod 16 \<or> lo = 0xA0 \<and> hi = 0xBF) \<or>
    n = 4 \<and> (1 \<le> x mod 8 \<or> lo = 0x90 \<and> hi = 0xBF)"
proof -
  have "2 \<le> x mod 32" if "0xC2 \<le> x" "x \<le> 0xDF" using that mod_in_block [of 6 32 x] by simp
  moreover have "1 \<le> x mod 16" if "0xE1 \<le> x" "x \<le> 0xEF" using that mod_in_block [of 14 16 x] by simp
  moreover have "1 \<le> x mod 8" if "0xF1 \<le> x" "x \<le> 0xF4" using that mod_in_block [of 30 8 x] by simp
  ultimately show ?thesis using assms unfolding lead_byte_def by (auto split: if_splits)
qed

lemma second_value:
  fixes y :: nat
  shows "0xA0 \<le> y \<Longrightarrow> y \<le> 0xBF \<Longrightarrow> 32 \<le> y mod 64" "0x90 \<le> y \<Longrightarrow> y \<le> 0xBF \<Longrightarrow> 16 \<le> y mod 64"
  using mod_in_block [of 2 64 y] by simp_all

lemma rune_value_bounds:
  fixes a b c d :: nat
  shows "2 \<le> a \<Longrightarrow> 128 \<le> a * 64 + b" "1 \<le> a \<Longrightarrow> 128 \<le> a * 4096 + b * 64 + c" "32 \<le> b \<Longrightarrow> 128 \<le> a * 4096 + b * 64 + c"
    "1 \<le> a \<Longrightarrow> 128 \<le> a * 262144 + b * 4096 + c * 64 + d" "16 \<le> b \<Longrightarrow> 128 \<le> a * 262144 + b * 4096 + c * 64 + d"
  by simp_all

lemma DecodeRune_not_ascii:
  assumes "128 \<le> hd bs"
  shows "128 \<le> fst (DecodeRune bs)"
proof (cases "lead_byte (hd bs)")
  case None
  with assms show ?thesis by (simp add: DecodeRune_def)
next
  case (Some t)
  obtain n lo hi where t: "lead_byte (hd bs) = Some (n, lo, hi)" using Some by (cases t) auto
  let ?y = "bs ! 1"
  have e: "fst (DecodeRune bs) = (if length bs < n \<or> ?y < lo \<or> hi < ?y then 0xFFFD
      else if n = 2 then hd bs mod 32 * 64 + ?y mod 64
      else if \<not> is_cont (bs ! 2) then 0xFFFD
      else if n = 3 then hd bs mod 16 * 4096 + ?y mod 64 * 64 + bs ! 2 mod 64
      else if \<not> is_cont (bs ! 3) then 0xFFFD
      else hd bs mod 8 * 262144 + ?y mod 64 * 4096 + bs ! 2 mod 64 * 64 + bs ! 3 mod 64)"
    using assms by (simp add: DecodeRune_def Let_def t)
  show ?thesis
  proof (cases "length bs < n \<or> ?y < lo \<or> hi < ?y")
    case True
    then show ?thesis unfolding e by simp
  next
    case False
    consider "n = 2" "2 \<le> hd bs mod 32" | "n = 3" "1 \<le> hd bs mod 16 \<or> 32 \<le> ?y mod 64"
      | "n = 4" "1 \<le> hd bs mod 8 \<or> 16 \<le> ?y mod 64"
    proof -
      have "lo \<le> ?y" "?y \<le> hi" using False by simp_all
      with lead_value [OF t] second_value [of ?y] show thesis using that by blast
    qed
    then show ?thesis
    proof cases
      case 1
      then show ?thesis unfolding e if_not_P [OF False] by (simp only: if_True rune_value_bounds(1) refl)
    next
      case 2
      have "128 \<le> hd bs mod 16 * 4096 + ?y mod 64 * 64 + bs ! 2 mod 64"
        using 2(2) rune_value_bounds(2,3) by blast
      then show ?thesis unfolding e if_not_P [OF False] by (simp add: 2(1))
    next
      case 3
      have "128 \<le> hd bs mod 8 * 262144 + ?y mod 64 * 4096 + bs ! 2 mod 64 * 64 + bs ! 3 mod 64"
        using 3(2) rune_value_bounds(4,5) by blast
      then show ?thesis unfolding e if_not_P [OF False] by (simp add: 3(1))
    qed
  qed
qed

lemma chunk_lead: "(r, b) \<in> set (rune_chunks s) \<Longrightarrow> byte_of (hd b) < 128 \<Longrightarrow> r = byte_of (hd b)"
proof (induction s rule: rune_chunks.induct)
  case (1 s)
  show ?case
  proof (cases "s = []")
    case True
    with 1 show ?thesis by (simp add: rune_chunks.simps)
  next
    case False
    let ?d = "DecodeRune (map byte_of s)"
    have cs: "rune_chunks s = (fst ?d, take (snd ?d) s) # rune_chunks (drop (snd ?d) s)"
      using False by (subst rune_chunks.simps) (simp add: Let_def)
    have h: "hd (take (snd ?d) s) = hd s" using DecodeRune_width [of "map byte_of s"] by (cases s) (auto simp: take_Cons')
    show ?thesis
    proof (cases "(r, b) = (fst ?d, take (snd ?d) s)")
      case True
      then show ?thesis using "1.prems"(2) h False DecodeRune_ascii [of "map byte_of s"] by (simp add: hd_map)
    next
      case other: False
      then show ?thesis using 1 False cs by (auto simp: Let_def)
    qed
  qed
qed

lemma trim_right_hd: "rev (dropWhile P (rev ys)) \<noteq> [] \<Longrightarrow> hd (rev (dropWhile P (rev ys))) = hd ys \<and> ys \<noteq> []"
proof -
  assume ne: "rev (dropWhile P (rev ys)) \<noteq> []"
  have "rev (takeWhile P (rev ys) @ dropWhile P (rev ys)) = ys" by (simp only: takeWhile_dropWhile_id rev_rev_ident)
  then have "ys = rev (dropWhile P (rev ys)) @ rev (takeWhile P (rev ys))" by (simp only: rev_append)
  with ne show ?thesis by (metis append_is_Nil_conv hd_append2)
qed

lemma TrimSpace_hd:
  assumes "TrimSpace s \<noteq> []"
  shows "\<not> (byte_of (hd (TrimSpace s)) < 128 \<and> IsSpace (byte_of (hd (TrimSpace s))))"
proof -
  let ?sp = "\<lambda>p :: nat \<times> string. IsSpace (fst p)"
  let ?ys = "dropWhile ?sp (rune_chunks s)"
  let ?zs = "rev (dropWhile ?sp (rev ?ys))"
  have t: "TrimSpace s = concat (map snd ?zs)" by (simp only: TrimSpace_def Let_def)
  have ne: "?zs \<noteq> []" using assms unfolding t by (metis concat.simps(1) list.simps(8))
  note h = trim_right_hd [OF ne]
  then have sp: "\<not> ?sp (hd ?ys)" using hd_dropWhile [of ?sp "rune_chunks s"] by simp
  have "hd ?ys \<in> set (rune_chunks s)" using h trim_sub [of ?sp "rune_chunks s"] hd_in_set [of ?ys] by blast
  then have b: "snd (hd ?ys) \<noteq> []" "byte_of (hd (snd (hd ?ys))) < 128 \<Longrightarrow> fst (hd ?ys) = byte_of (hd (snd (hd ?ys)))"
    using chunk_nonempty chunk_lead [of "fst (hd ?ys)" "snd (hd ?ys)" s] by simp_all
  have "hd (TrimSpace s) = hd (snd (hd ?ys))"
  proof -
    obtain z zs where z: "?zs = z # zs" using ne by (cases ?zs) simp_all
    then have "hd ?ys = z" using h by simp
    then show ?thesis unfolding t z using b(1) by simp
  qed
  then show ?thesis using b(2) sp by metis
qed

text \<open>UTF-8 encoding of a rune (\<open>WriteRune\<close>).\<close>

definition encode_rune :: "nat \<Rightarrow> string" where
  "encode_rune r = map char_of
     (if r < 0x80 then [r]
      else if r < 0x800 then [0xC0 + r div 64, 0x80 + r mod 64]
      else if r < 0x10000 then [0xE0 + r div 4096, 0x80 + r div 64 mod 64, 0x80 + r mod 64]
      else [0xF0 + r div 262144, 0x80 + r div 4096 mod 64, 0x80 + r div 64 mod 64, 0x80 + r mod 64])"

definition runes_string :: "nat list \<Rightarrow> string" where
  "runes_string rs = concat (map encode_rune rs)"

section \<open>Paths\<close>

text \<open>\<open>path.Clean\<close>: the components left of a path, last first. Empty and dot components are skipped; a
  dot-dot removes the component before it, is dropped at the root, and is kept at the start of a
  relative path, where it is not removed by a later one.\<close>

fun clean_step :: "bool \<Rightarrow> string list \<Rightarrow> string \<Rightarrow> string list" where
  "clean_step rooted kept c =
     (if c = '''' \<or> c = ''.'' then kept
      else if c = ''..'' then
        (case kept of
           [] \<Rightarrow> if rooted then [] else [''..'']
         | k # ks \<Rightarrow> if k = ''..'' then ''..'' # kept else ks)
      else c # kept)"

definition IsAbs :: "string \<Rightarrow> bool" where
  "IsAbs p = (p \<noteq> [] \<and> hd p = CHR ''/'')"

definition clean_comps :: "string \<Rightarrow> string list" where
  "clean_comps p = rev (foldl (clean_step (IsAbs p)) [] (split_on CHR ''/'' p))"

definition path_Clean :: "string \<Rightarrow> string" where
  "path_Clean p =
     (if IsAbs p then CHR ''/'' # join_with CHR ''/'' (clean_comps p)
      else if clean_comps p = [] then ''.''
      else join_with CHR ''/'' (clean_comps p))"

text \<open>\<open>path.Join\<close>: the non-empty elements joined and cleaned.\<close>

definition path_Join :: "string list \<Rightarrow> string" where
  "path_Join elem =
     (let xs = filter (\<lambda>e. e \<noteq> '''') elem
      in if xs = [] then '''' else path_Clean (join_with CHR ''/'' xs))"

definition plain_component :: "string \<Rightarrow> bool" where
  "plain_component c = (c \<noteq> '''' \<and> c \<noteq> ''.'' \<and> c \<noteq> ''..'' \<and> CHR ''/'' \<notin> set c)"

lemma IsAbs_append [simp]: "p \<noteq> [] \<Longrightarrow> IsAbs (p @ q) = IsAbs p"
  by (simp add: IsAbs_def)

text \<open>Joining plain components below a non-empty base appends them to what is left of the base.\<close>

lemma clean_below:
  assumes "base \<noteq> []" "\<forall>c \<in> set cs. plain_component c"
  shows "clean_comps (join_with CHR ''/'' (base # cs)) = clean_comps base @ cs"
proof (cases "cs = []")
  case False
  have "split_on CHR ''/'' (join_with CHR ''/'' (base # cs)) = split_on CHR ''/'' base @ split_on CHR ''/'' (join_with CHR ''/'' cs)"
    using False by (simp add: split_on_at)
  also have "split_on CHR ''/'' (join_with CHR ''/'' cs) = cs"
    using False assms(2) by (intro split_join) (auto simp: plain_component_def)
  finally have s: "split_on CHR ''/'' (join_with CHR ''/'' (base # cs)) = split_on CHR ''/'' base @ cs" .
  have "foldl (clean_step r) ks cs = rev cs @ ks" for r ks
    using assms(2) by (induction cs arbitrary: ks) (auto simp: plain_component_def)
  moreover have "IsAbs (join_with CHR ''/'' (base # cs)) = IsAbs base" using assms(1) False by simp
  ultimately show ?thesis unfolding clean_comps_def s by simp
qed simp

text \<open>Under a rooted path nothing is left that climbs.\<close>

lemma clean_rooted_plain:
  assumes "\<forall>k \<in> set ks. plain_component k" "\<forall>c \<in> set cs. CHR ''/'' \<notin> set c"
  shows "\<forall>k \<in> set (foldl (clean_step True) ks cs). plain_component k"
  using assms
proof (induction cs arbitrary: ks)
  case (Cons c cs)
  have "\<forall>k \<in> set (clean_step True ks c). plain_component k"
    using Cons.prems by (cases ks) (auto simp: plain_component_def)
  then show ?case using Cons by simp
qed simp

lemma clean_comps_plain: "IsAbs p \<Longrightarrow> list_all plain_component (clean_comps p)"
  using clean_rooted_plain [of "[]" "split_on CHR ''/'' p"] by (auto simp: clean_comps_def list_all_iff dest: split_on_clean)

lemma plain_join_inj:
  assumes "list_all plain_component xs" "list_all plain_component ys" "join_with CHR ''/'' xs = join_with CHR ''/'' ys"
  shows "xs = ys"
proof -
  have s: "split_on CHR ''/'' (join_with CHR ''/'' zs) = zs" if "list_all plain_component zs" "zs \<noteq> []" for zs
    using that by (intro split_join) (auto simp: list_all_iff plain_component_def)
  have n: "join_with CHR ''/'' zs = [] \<longleftrightarrow> zs = []" if "list_all plain_component zs" for zs
    using that by (cases zs) (auto simp: plain_component_def)
  show ?thesis using s [of xs] s [of ys] n [of xs] n [of ys] assms by metis
qed

end
