(* ===== verification/Artifact.thy ===== *)
theory Artifact
  imports TextLib
begin

text \<open>
  The artifact contract: file paths inside an artifact (\<open>artifact/v1/path.go\<close>), the media types and the
  artifact type rule (\<open>artifact/v1/mediatypes.go\<close>) and the closed allow-sets
  (\<open>artifact/v1/allowset.go\<close>). What \<open>ValidatePathSet\<close> promises is a tree: the last part of the theory
  writes the paths of a set one by one into an empty directory of a case-insensitive volume and shows
  that a set is accepted exactly when every write succeeds.
\<close>

section \<open>Path bounds and errors\<close>

definition MaxPathDepth :: nat where [const_defs]: "MaxPathDepth = 8"
definition MaxComponentBytes :: nat where [const_defs]: "MaxComponentBytes = 255"
definition MaxPathBytes :: nat where [const_defs]: "MaxPathBytes = MaxPathDepth * (MaxComponentBytes + 1)"
definition MaxPaths :: nat where [const_defs]: "MaxPaths = 4096"

datatype path_err =
    ErrPathTooLong nat
  | ErrEmptyPath
  | ErrAbsolutePath string
  | ErrPathCharset string nat
  | ErrPathDepth string nat
  | ErrPathComponent string
  | ErrReservedComponent string string
  | ErrComponentTooLong string nat
  | ErrCodeFile string string
  | ErrDuplicatePath string
  | ErrCaseCollision string string
  | ErrFileDirConflict string string
  | ErrTooManyPaths nat

definition codeExtensions :: "string list" where
  "codeExtensions = [''.py'', ''.pyc'', ''.bin'', ''.pt'', ''.pth'', ''.pkl'', ''.pickle'', ''.ckpt'', ''.so'', ''.dylib'']"


section \<open>Validation of paths\<close>

definition pathByte :: "char \<Rightarrow> bool" where
  "pathByte b = (is_lower b \<or> is_upper b \<or> is_digit b \<or>
     b = CHR ''.'' \<or> b = CHR ''_'' \<or> b = CHR ''-'' \<or> b = CHR ''/'')"

text \<open>The body of the loop over the components.\<close>

definition component_err :: "string \<Rightarrow> string \<Rightarrow> path_err option" where
  "component_err p c =
     (if c = '''' \<or> c = ''.'' \<or> c = ''..'' then Some (ErrPathComponent p)
      else if HasPrefix c ''..'' \<or> HasPrefix c ''._'' then Some (ErrReservedComponent p c)
      else if MaxComponentBytes < length c then Some (ErrComponentTooLong p (length c))
      else None)"

definition ValidatePath :: "string \<Rightarrow> path_err option" where
  "ValidatePath p =
     (if MaxPathBytes < length p then Some (ErrPathTooLong (length p))
      else if p = '''' then Some ErrEmptyPath
      else if hd p = CHR ''/'' then Some (ErrAbsolutePath p)
      else let depth = count_list p CHR ''/'' + 1;
               comps = split_on CHR ''/'' p;
               name = ToLower (last comps)
        in first_err
          [range_err (\<lambda>i b. fail_if (\<not> pathByte b) (ErrPathCharset p i)) 0 p,
           fail_if (MaxPathDepth < depth) (ErrPathDepth p depth),
           range_err (\<lambda>_ c. component_err p c) 0 comps,
           range_err (\<lambda>_ ext. fail_if (HasSuffix name ext) (ErrCodeFile p ext)) 0 codeExtensions])"

text \<open>The first loop of \<open>ValidatePathSet\<close>, with the paths seen and the map from folded to original
  paths; it yields the map.\<close>

primrec pathset_loop :: "string list \<Rightarrow> (string \<rightharpoonup> string) \<Rightarrow> string list \<Rightarrow> path_err + (string \<rightharpoonup> string)" where
  "pathset_loop exact folded [] = Inr folded"
| "pathset_loop exact folded (p # ps) =
     (case ValidatePath p of
        Some e \<Rightarrow> Inl e
      | None \<Rightarrow>
          if p \<in> set exact then Inl (ErrDuplicatePath p)
          else case folded (ToLower p) of
            Some prev \<Rightarrow> Inl (ErrCaseCollision prev p)
          | None \<Rightarrow> pathset_loop (p # exact) (folded(ToLower p \<mapsto> p)) ps)"

text \<open>The second loop: every prefix of the folded path that ends before a separator.\<close>

definition conflict_err :: "(string \<rightharpoonup> string) \<Rightarrow> string \<Rightarrow> path_err option" where
  "conflict_err folded p =
     (let f = ToLower p
      in first_err (map (\<lambda>i.
           if f ! i \<noteq> CHR ''/'' then None
           else map_option (\<lambda>file. ErrFileDirConflict file p) (folded (take i f))) [0..<length f]))"

definition ValidatePathSet :: "string list \<Rightarrow> path_err option" where
  "ValidatePathSet paths =
     (if MaxPaths < length paths then Some (ErrTooManyPaths (length paths))
      else case pathset_loop [] Map.empty paths of
        Inl e \<Rightarrow> Some e
      | Inr folded \<Rightarrow> range_err (\<lambda>_ p. conflict_err folded p) 0 paths)"


section \<open>Media types and allow-sets\<close>

definition ArtifactTypeModel :: string where "ArtifactTypeModel = ''application/vnd.cncf.model.manifest.v1+json''"
definition MediaTypeModelConfig :: string where "MediaTypeModelConfig = ''application/vnd.cncf.model.config.v1+json''"
definition MediaTypeModelWeight :: string where "MediaTypeModelWeight = ''application/vnd.cncf.model.weight.v1.raw''"
definition MediaTypeModelWeightConfig :: string where "MediaTypeModelWeightConfig = ''application/vnd.cncf.model.weight.config.v1.raw''"
definition MediaTypeModelDoc :: string where "MediaTypeModelDoc = ''application/vnd.cncf.model.doc.v1.raw''"
definition MediaTypeModelCode :: string where "MediaTypeModelCode = ''application/vnd.cncf.model.code.v1.raw''"
definition AnnotationFilepath :: string where "AnnotationFilepath = ''org.cncf.model.filepath''"
definition MediaTypeWasmConfig :: string where "MediaTypeWasmConfig = ''application/vnd.wasm.config.v0+json''"
definition MediaTypeWasmLayer :: string where "MediaTypeWasmLayer = ''application/wasm''"
definition ArtifactTypeGuest :: string where "ArtifactTypeGuest = ''application/vnd.k3sm.guest.v1''"
definition MediaTypeGuestKernel :: string where "MediaTypeGuestKernel = ''application/vnd.k3sm.guest.kernel.v1.raw''"
definition MediaTypeGuestInitramfs :: string where "MediaTypeGuestInitramfs = ''application/vnd.k3sm.guest.initramfs.v1.raw''"
definition MediaTypeOCIImageConfig :: string where "MediaTypeOCIImageConfig = ''application/vnd.oci.image.config.v1+json''"

lemmas media_defs = ArtifactTypeModel_def MediaTypeModelConfig_def MediaTypeModelWeight_def MediaTypeModelWeightConfig_def
  MediaTypeModelDoc_def MediaTypeModelCode_def MediaTypeWasmConfig_def MediaTypeWasmLayer_def ArtifactTypeGuest_def
  MediaTypeGuestKernel_def MediaTypeGuestInitramfs_def MediaTypeOCIImageConfig_def

definition ArtifactType :: "string \<Rightarrow> string \<Rightarrow> string" where
  "ArtifactType manifestArtifactType configMediaType =
     (if manifestArtifactType \<noteq> '''' then manifestArtifactType else configMediaType)"

record typeRule =
  tr_artifactType :: string
  tr_layers :: "string list"

record AllowSet =
  as_name :: string
  as_rules :: "typeRule list"

definition zeroAllowSet :: AllowSet where
  "zeroAllowSet = \<lparr>as_name = '''', as_rules = []\<rparr>"

definition modelLayers :: "string list" where
  "modelLayers = [MediaTypeModelWeight, MediaTypeModelWeightConfig, MediaTypeModelDoc]"

definition ImageVolumeAllowSet :: AllowSet where
  "ImageVolumeAllowSet = \<lparr>as_name = ''image-volume'', as_rules =
     [\<lparr>tr_artifactType = ArtifactTypeModel, tr_layers = modelLayers\<rparr>,
      \<lparr>tr_artifactType = MediaTypeWasmConfig, tr_layers = [MediaTypeWasmLayer]\<rparr>]\<rparr>"

definition GuestAllowSet :: AllowSet where
  "GuestAllowSet = \<lparr>as_name = ''guest'', as_rules =
     [\<lparr>tr_artifactType = ArtifactTypeGuest, tr_layers = [MediaTypeGuestKernel, MediaTypeGuestInitramfs]\<rparr>]\<rparr>"

text \<open>The policy is the \<open>int32\<close> of the generated enum; \<open>IMAGE_VOLUME\<close> is 1.\<close>

definition AllowSetFor :: "int32 \<Rightarrow> int32 + AllowSet" where
  "AllowSetFor policy = (if policy = 1 then Inr ImageVolumeAllowSet else Inl policy)"

definition AllowSet_rule :: "AllowSet \<Rightarrow> string \<Rightarrow> typeRule option" where
  "AllowSet_rule a t = find (\<lambda>r. tr_artifactType r = t) (as_rules a)"

definition AllowsType :: "AllowSet \<Rightarrow> string \<Rightarrow> bool" where
  "AllowsType a t = (AllowSet_rule a t \<noteq> None)"

definition AllowsLayer :: "AllowSet \<Rightarrow> string \<Rightarrow> string \<Rightarrow> bool" where
  "AllowsLayer a t layer = (case AllowSet_rule a t of None \<Rightarrow> False | Some r \<Rightarrow> layer \<in> set (tr_layers r))"

definition ArtifactTypes :: "AllowSet \<Rightarrow> string list" where
  "ArtifactTypes a = map tr_artifactType (as_rules a)"

definition LayerMediaTypes :: "AllowSet \<Rightarrow> string \<Rightarrow> string list option" where
  "LayerMediaTypes a t = map_option tr_layers (AllowSet_rule a t)"

section \<open>What the validators admit\<close>

definition component_ok :: "string \<Rightarrow> bool" where
  "component_ok c = (c \<noteq> '''' \<and> c \<noteq> ''.'' \<and> \<not> prefix ''..'' c \<and> \<not> prefix ''._'' c \<and> length c \<le> 255)"

lemma component_err_None: "component_err p c = None \<longleftrightarrow> component_ok c"
  by (auto simp: component_err_def component_ok_def HasPrefix_iff const_defs)

lemma count_split: "length (split_on c s) = count_list s c + 1"
proof (induction s)
  case (Cons x s)
  then show ?case by (cases "split_on c s") auto
qed simp

lemma ValidatePath_iff:
  "ValidatePath p = None \<longleftrightarrow>
     length p \<le> MaxPathBytes \<and> list_all pathByte p \<and> length (split_on CHR ''/'' p) \<le> 8 \<and>
     list_all component_ok (split_on CHR ''/'' p) \<and>
     \<not> list_ex (HasSuffix (ToLower (last (split_on CHR ''/'' p)))) codeExtensions"
proof -
  have bytes: "range_err (\<lambda>i b. fail_if (\<not> pathByte b) (ErrPathCharset p i)) 0 p = None \<longleftrightarrow> (\<forall>b \<in> set p. pathByte b)"
    by (rule range_err_None_all) (simp add: check_simps)
  have comps: "range_err (\<lambda>_ c. component_err p c) 0 cs = None \<longleftrightarrow> (\<forall>c \<in> set cs. component_ok c)" for cs
    by (rule range_err_None_all) (simp add: component_err_None)
  have exts: "range_err (\<lambda>_ ext. fail_if (HasSuffix name ext) (ErrCodeFile p ext)) 0 es = None
      \<longleftrightarrow> (\<forall>e \<in> set es. \<not> HasSuffix name e)" for name es
    by (rule range_err_None_all) (simp add: check_simps)
  have slash: "hd p = CHR ''/'' \<Longrightarrow> p \<noteq> [] \<Longrightarrow> \<exists>c \<in> set (split_on CHR ''/'' p). \<not> component_ok c"
    by (cases p) (auto simp: component_ok_def)
  have "p = '''' \<Longrightarrow> \<exists>c \<in> set (split_on CHR ''/'' p). \<not> component_ok c"
    by (simp add: component_ok_def)
  then show ?thesis
    using slash by (auto simp: ValidatePath_def Let_def check_simps bytes comps exts count_split const_defs
        list_all_iff list_ex_iff not_less)
qed

text \<open>The loop records exactly the folded paths it passed.\<close>

lemma pathset_loop_ok:
  assumes "\<And>k. folded k \<noteq> None \<longleftrightarrow> k \<in> ToLower ` set exact"
  shows "pathset_loop exact folded ps = Inr g \<Longrightarrow>
    list_all (\<lambda>p. ValidatePath p = None) ps \<and> distinct (map ToLower ps) \<and>
    set (map ToLower ps) \<inter> ToLower ` set exact = {} \<and>
    (\<forall>k. g k \<noteq> None \<longleftrightarrow> k \<in> ToLower ` (set exact \<union> set ps))"
  using assms
proof (induction ps arbitrary: exact folded)
  case (Cons p ps)
  then have p: "ValidatePath p = None" "p \<notin> set exact" "folded (ToLower p) = None"
    and rest: "pathset_loop (p # exact) (folded(ToLower p \<mapsto> p)) ps = Inr g"
    by (auto split: option.splits if_splits)
  have inv: "\<And>k. (folded(ToLower p \<mapsto> p)) k \<noteq> None \<longleftrightarrow> k \<in> ToLower ` set (p # exact)"
    using Cons.prems(2) by auto
  from Cons.IH [OF rest inv] p Cons.prems(2) [of "ToLower p"] show ?case by auto
qed simp

lemma pathset_loop_total:
  assumes "\<And>k. folded k \<noteq> None \<longleftrightarrow> k \<in> ToLower ` set exact"
    and "list_all (\<lambda>p. ValidatePath p = None) ps" "distinct (map ToLower ps)"
    and "set (map ToLower ps) \<inter> ToLower ` set exact = {}"
  shows "\<exists>g. pathset_loop exact folded ps = Inr g"
  using assms
proof (induction ps arbitrary: exact folded)
  case (Cons p ps)
  have "ToLower p \<notin> ToLower ` set exact" using Cons.prems(4) by auto
  then have "folded (ToLower p) = None" "p \<notin> set exact" using Cons.prems(1) [of "ToLower p"] by blast+
  moreover have "\<exists>g. pathset_loop (p # exact) (folded(ToLower p \<mapsto> p)) ps = Inr g"
    by (rule Cons.IH) (use Cons.prems in auto)
  ultimately show ?case using Cons.prems(2) by simp
qed simp

text \<open>A proper directory prefix of a folded path is a proper prefix of its components.\<close>

lemma conflict_err_None:
  "conflict_err folded p = None \<longleftrightarrow>
     (\<forall>q. folded (ToLower q) \<noteq> None \<longrightarrow>
        \<not> strict_prefix (split_on CHR ''/'' (ToLower q)) (split_on CHR ''/'' (ToLower p)))"
proof -
  let ?f = "ToLower p"
  have pre: "strict_prefix (split_on CHR ''/'' t) (split_on CHR ''/'' s) \<longleftrightarrow>
      (\<exists>i < length s. s ! i = CHR ''/'' \<and> take i s = t)" for s t
    unfolding split_prefix_iff by (auto simp: strict_prefix_def prefix_def)
  have low: "take i ?f = ToLower (take i p)" for i by (simp add: ToLower_def take_map)
  have "conflict_err folded p = None \<longleftrightarrow> (\<forall>i < length ?f. ?f ! i = CHR ''/'' \<longrightarrow> folded (take i ?f) = None)"
    by (auto simp: conflict_err_def Let_def check_simps)
  also have "\<dots> \<longleftrightarrow> (\<forall>q. folded (ToLower q) \<noteq> None \<longrightarrow> \<not> (\<exists>i < length ?f. ?f ! i = CHR ''/'' \<and> take i ?f = ToLower q))"
    using low by metis
  finally show ?thesis by (simp only: pre)
qed

definition folded_comps :: "string \<Rightarrow> string list" where
  "folded_comps p = split_on CHR ''/'' (ToLower p)"

lemma ValidatePathSet_iff:
  "ValidatePathSet ps = None \<longleftrightarrow>
     length ps \<le> 4096 \<and> list_all (\<lambda>p. ValidatePath p = None) ps \<and> distinct (map folded_comps ps) \<and>
     (\<forall>p \<in> set ps. \<forall>q \<in> set ps. \<not> strict_prefix (folded_comps q) (folded_comps p))"
proof (cases "pathset_loop [] Map.empty ps")
  case (Inl e)
  then have "\<not> (list_all (\<lambda>p. ValidatePath p = None) ps \<and> distinct (map ToLower ps))"
    using pathset_loop_total [of Map.empty "[]" ps] by auto
  moreover have "distinct (map folded_comps ps) \<longleftrightarrow> distinct (map ToLower ps)"
    by (simp add: folded_comps_def distinct_map inj_on_def)
  ultimately show ?thesis using Inl by (auto simp: ValidatePathSet_def)
next
  case (Inr g)
  have g: "list_all (\<lambda>p. ValidatePath p = None) ps" "distinct (map ToLower ps)"
    "\<And>k. g k \<noteq> None \<longleftrightarrow> k \<in> ToLower ` set ps"
    using pathset_loop_ok [OF _ Inr] by simp_all
  have d: "distinct (map folded_comps ps)" using g(2) by (simp add: folded_comps_def distinct_map inj_on_def)
  have c: "conflict_err g p = None \<longleftrightarrow> (\<forall>q \<in> set ps. \<not> strict_prefix (folded_comps q) (folded_comps p))" for p
  proof -
    have "(\<forall>q. ToLower q \<in> ToLower ` set ps \<longrightarrow> P (ToLower q)) \<longleftrightarrow> (\<forall>q \<in> set ps. P (ToLower q))" for P :: "string \<Rightarrow> bool"
      by auto
    then show ?thesis unfolding conflict_err_None folded_comps_def g(3) by simp
  qed
  have "range_err (\<lambda>_ p. conflict_err g p) 0 ps = None \<longleftrightarrow>
      (\<forall>p \<in> set ps. \<forall>q \<in> set ps. \<not> strict_prefix (folded_comps q) (folded_comps p))"
    by (rule range_err_None_all) (rule c)
  then show ?thesis using Inr g(1) d by (auto simp: ValidatePathSet_def const_defs)
qed

section \<open>Laying out a set of paths\<close>

text \<open>A directory of a case-insensitive volume: names are folded, an entry is a file (with the path it was
  written for) or a directory. Writing a file makes its directories and fails where a file stands in
  the way of a directory or anything stands where the file goes.\<close>

datatype ftree = File string | Dir "string \<Rightarrow> ftree option"

fun lookup :: "ftree \<Rightarrow> string list \<Rightarrow> ftree option" where
  "lookup t [] = Some t"
| "lookup (File f) (c # cs) = None"
| "lookup (Dir m) (c # cs) = (case m c of None \<Rightarrow> None | Some t \<Rightarrow> lookup t cs)"

fun write_file :: "string list \<Rightarrow> string \<Rightarrow> ftree \<Rightarrow> ftree option" where
  "write_file [] f t = None"
| "write_file (c # cs) f (File g) = None"
| "write_file (c # cs) f (Dir m) =
     (if cs = [] then (case m c of None \<Rightarrow> Some (Dir (m(c \<mapsto> File f))) | Some _ \<Rightarrow> None)
      else case write_file cs f (case m c of None \<Rightarrow> Dir Map.empty | Some t \<Rightarrow> t) of
          None \<Rightarrow> None
        | Some t \<Rightarrow> Some (Dir (m(c \<mapsto> t))))"

primrec write_all :: "string list \<Rightarrow> ftree \<Rightarrow> ftree option" where
  "write_all [] t = Some t"
| "write_all (p # ps) t = (case write_file (folded_comps p) p t of None \<Rightarrow> None | Some t' \<Rightarrow> write_all ps t')"

lemma lookup_empty [simp]: "lookup (Dir (\<lambda>_. None)) cs = (if cs = [] then Some (Dir Map.empty) else None)"
  by (cases cs) auto

lemma lookup_File [simp]: "lookup (File f) ds = (if ds = [] then Some (File f) else None)"
  by (cases ds) auto

lemma strict_prefix_Cons_iff: "strict_prefix ds (c # cs) \<longleftrightarrow> ds = [] \<or> (\<exists>es. ds = c # es \<and> strict_prefix es cs)"
  by (cases ds) auto

lemma write_file_succeeds:
  "(\<exists>t'. write_file cs f t = Some t') \<longleftrightarrow>
     cs \<noteq> [] \<and> lookup t cs = None \<and> (\<forall>ds g. strict_prefix ds cs \<longrightarrow> lookup t ds \<noteq> Some (File g))"
proof (induction cs f t rule: write_file.induct)
  case (2 c cs f g)
  then show ?case by (auto intro: exI [of _ "[]"])
next
  case (3 c cs f m)
  show ?case
  proof (cases "cs = []")
    case True
    then show ?thesis by (auto simp: strict_prefix_Cons_iff split: option.split)
  next
    case False
    note ih = 3 [OF False]
    have "(\<exists>t'. write_file (c # cs) f (Dir m) = Some t') \<longleftrightarrow>
        (\<exists>t'. write_file cs f (case m c of None \<Rightarrow> Dir Map.empty | Some t \<Rightarrow> t) = Some t')"
      using False by (auto split: option.splits)
    also note ih
    finally show ?thesis
      using False by (auto simp: strict_prefix_Cons_iff split: option.splits if_splits)
  qed
qed simp

lemma lookup_write_file:
  assumes "write_file cs f t = Some t'"
  shows "(lookup t' ds = Some (File g) \<longleftrightarrow> ds = cs \<and> g = f \<or> lookup t ds = Some (File g)) \<and>
    (lookup t' ds = None \<longleftrightarrow> lookup t ds = None \<and> \<not> prefix ds cs)"
  using assms
proof (induction cs f t arbitrary: t' ds rule: write_file.induct)
  case (3 c cs f m)
  show ?case
  proof (cases "cs = []")
    case True
    with 3 have t: "t' = Dir (m(c \<mapsto> File f))" "m c = None" by (auto split: option.splits)
    then show ?thesis using True by (cases ds) (auto split: option.splits)
  next
    case False
    with "3.prems" obtain u where u: "write_file cs f (case m c of None \<Rightarrow> Dir Map.empty | Some t \<Rightarrow> t) = Some u"
      and t: "t' = Dir (m(c \<mapsto> u))" by (auto split: option.splits)
    note ih = "3.IH" [OF False u]
    show ?thesis
    proof (cases ds)
      case (Cons d es)
      then show ?thesis using ih [of es] False t by (auto split: option.splits if_splits)
    qed (auto simp: t)
  qed
qed auto

definition apart :: "string \<Rightarrow> string \<Rightarrow> bool" where
  "apart p q = (\<not> prefix (folded_comps p) (folded_comps q) \<and> \<not> prefix (folded_comps q) (folded_comps p))"

lemma folded_comps_not_Nil [simp]: "folded_comps p \<noteq> []"
  by (simp add: folded_comps_def)

text \<open>A tree that holds exactly the files of a set of paths.\<close>

definition holds :: "string list \<Rightarrow> ftree \<Rightarrow> bool" where
  "holds done' t \<longleftrightarrow>
     (\<forall>ds g. lookup t ds = Some (File g) \<longleftrightarrow> g \<in> set done' \<and> ds = folded_comps g) \<and>
     (\<forall>ds. ds \<noteq> [] \<longrightarrow> lookup t ds = None \<longleftrightarrow> \<not> (\<exists>p \<in> set done'. prefix ds (folded_comps p)))"

lemma holds_write:
  assumes "holds D t" "write_file (folded_comps p) p t = Some t'"
  shows "holds (p # D) t'"
  unfolding holds_def
proof (intro conjI allI impI)
  fix ds g
  show "lookup t' ds = Some (File g) \<longleftrightarrow> g \<in> set (p # D) \<and> ds = folded_comps g"
    using assms(1) lookup_write_file [OF assms(2), of ds g] by (auto simp: holds_def)
next
  fix ds :: "string list"
  assume "ds \<noteq> []"
  then show "lookup t' ds = None \<longleftrightarrow> \<not> (\<exists>q \<in> set (p # D). prefix ds (folded_comps q))"
    using assms(1) lookup_write_file [OF assms(2), of ds] by (auto simp: holds_def)
qed

lemma holds_room:
  assumes "holds D t"
  shows "(\<exists>t'. write_file (folded_comps p) p t = Some t') \<longleftrightarrow> (\<forall>d \<in> set D. apart d p)"
proof -
  have leaf: "lookup t ds = Some (File g) \<longleftrightarrow> g \<in> set D \<and> ds = folded_comps g" for ds g
    using assms by (simp add: holds_def)
  have none: "lookup t (folded_comps p) = None \<longleftrightarrow> (\<forall>d \<in> set D. \<not> prefix (folded_comps p) (folded_comps d))"
    using assms by (simp add: holds_def)
  have "(\<forall>ds g. strict_prefix ds (folded_comps p) \<longrightarrow> lookup t ds \<noteq> Some (File g)) \<longleftrightarrow>
      (\<forall>d \<in> set D. \<not> strict_prefix (folded_comps d) (folded_comps p))"
    unfolding leaf by blast
  then have "(\<exists>t'. write_file (folded_comps p) p t = Some t') \<longleftrightarrow>
      (\<forall>d \<in> set D. \<not> prefix (folded_comps p) (folded_comps d) \<and> \<not> strict_prefix (folded_comps d) (folded_comps p))"
    unfolding write_file_succeeds none by auto
  also have "\<dots> \<longleftrightarrow> (\<forall>d \<in> set D. apart d p)" by (intro ball_cong) (auto simp: apart_def strict_prefix_def)
  finally show ?thesis .
qed

lemma write_all_iff:
  assumes "holds D t"
  shows "(\<exists>t'. write_all ps t = Some t') \<longleftrightarrow> sorted_wrt apart ps \<and> (\<forall>d \<in> set D. \<forall>p \<in> set ps. apart d p)"
  using assms
proof (induction ps arbitrary: D t)
  case (Cons p ps)
  show ?case
  proof (cases "write_file (folded_comps p) p t")
    case None
    then show ?thesis using holds_room [OF Cons.prems, of p] by auto
  next
    case (Some t')
    have "\<forall>d \<in> set D. apart d p" using holds_room [OF Cons.prems, of p] Some by blast
    then show ?thesis using Cons.IH [OF holds_write [OF Cons.prems Some]] Some by auto
  qed
qed simp

lemma write_all_holds: "holds D t \<Longrightarrow> write_all ps t = Some t' \<Longrightarrow> holds (rev ps @ D) t'"
proof (induction ps arbitrary: D t)
  case (Cons p ps)
  then obtain u where "write_file (folded_comps p) p t = Some u" "write_all ps u = Some t'"
    by (auto split: option.splits)
  with Cons.IH [OF holds_write [OF Cons.prems(1)]] show ?case by simp
qed simp

lemma holds_empty: "holds [] (Dir Map.empty)"
  by (simp add: holds_def)

lemma sorted_wrt_apart:
  "sorted_wrt apart ps \<longleftrightarrow> distinct (map folded_comps ps) \<and>
     (\<forall>p \<in> set ps. \<forall>q \<in> set ps. \<not> strict_prefix (folded_comps q) (folded_comps p))"
proof (induction ps)
  case (Cons p ps)
  have "apart p q \<longleftrightarrow> folded_comps p \<noteq> folded_comps q \<and>
      \<not> strict_prefix (folded_comps q) (folded_comps p) \<and> \<not> strict_prefix (folded_comps p) (folded_comps q)" for q
    by (auto simp: apart_def strict_prefix_def)
  then have "(\<forall>q \<in> set ps. apart p q) \<longleftrightarrow> folded_comps p \<notin> folded_comps ` set ps \<and>
      (\<forall>q \<in> set ps. \<not> strict_prefix (folded_comps q) (folded_comps p) \<and> \<not> strict_prefix (folded_comps p) (folded_comps q))"
    by auto
  with Cons show ?case unfolding sorted_wrt.simps list.map distinct.simps list.set set_map by blast
qed simp


section \<open>Properties\<close>

text \<open>(C10) \<open>ValidatePathSet\<close> accepts exactly the sets that can be laid out as files. A set is accepted if and
  only if it has at most 4096 paths, each valid on its own, and writing them one by one into an empty
  directory of a case-insensitive volume succeeds at every step; the finished tree then gives every
  path back as the file it was written for, so no file was overwritten or shadowed.\<close>

theorem accepted_path_sets_lay_out:
  "ValidatePathSet ps = None \<longleftrightarrow>
     length ps \<le> 4096 \<and> list_all (\<lambda>p. ValidatePath p = None) ps \<and>
     (\<exists>t. write_all ps (Dir Map.empty) = Some t \<and> list_all (\<lambda>p. lookup t (folded_comps p) = Some (File p)) ps)"
proof -
  have "(\<exists>t. write_all ps (Dir Map.empty) = Some t) \<longleftrightarrow> sorted_wrt apart ps"
    using write_all_iff [OF holds_empty] by simp
  moreover have "list_all (\<lambda>p. lookup t (folded_comps p) = Some (File p)) ps"
    if "write_all ps (Dir Map.empty) = Some t" for t
    using write_all_holds [OF holds_empty that] by (simp add: holds_def list_all_iff)
  ultimately show ?thesis unfolding ValidatePathSet_iff sorted_wrt_apart by blast
qed

text \<open>Nothing of an accepted path can leave the artifact's directory or name code: it is a relative
  path of one to eight components of 1 to 255 bytes of the closed alphabet, none of them a dot name or
  in the reserved name spaces, and its file name does not end, in any case, in an extension of the
  code list.\<close>

theorem ValidatePath_decides:
  "ValidatePath p = None \<longleftrightarrow>
     (\<exists>cs. p = join_with CHR ''/'' cs \<and> cs \<noteq> [] \<and> length cs \<le> 8 \<and>
        list_all (\<lambda>c. c \<notin> {'''', ''.''} \<and> length c \<le> 255 \<and> \<not> prefix ''..'' c \<and> \<not> prefix ''._'' c \<and>
          list_all (\<lambda>b. pathByte b \<and> b \<noteq> CHR ''/'') c) cs \<and>
        \<not> list_ex (\<lambda>ext. suffix ext (ToLower (last cs))) codeExtensions)"
proof
  assume "ValidatePath p = None"
  note v = this [unfolded ValidatePath_iff]
  let ?cs = "split_on CHR ''/'' p"
  have "list_all (\<lambda>b. pathByte b \<and> b \<noteq> CHR ''/'') c" if "c \<in> set ?cs" for c
    using v split_on_subset [OF that] split_on_clean [OF that] by (auto simp: list_all_iff)
  then show "\<exists>cs. p = join_with CHR ''/'' cs \<and> cs \<noteq> [] \<and> length cs \<le> 8 \<and>
        list_all (\<lambda>c. c \<notin> {'''', ''.''} \<and> length c \<le> 255 \<and> \<not> prefix ''..'' c \<and> \<not> prefix ''._'' c \<and>
          list_all (\<lambda>b. pathByte b \<and> b \<noteq> CHR ''/'') c) cs \<and>
        \<not> list_ex (\<lambda>ext. suffix ext (ToLower (last cs))) codeExtensions"
    using v by (intro exI [of _ ?cs]) (auto simp: list_all_iff list_ex_iff component_ok_def HasSuffix_iff)
next
  assume "\<exists>cs. p = join_with CHR ''/'' cs \<and> cs \<noteq> [] \<and> length cs \<le> 8 \<and>
        list_all (\<lambda>c. c \<notin> {'''', ''.''} \<and> length c \<le> 255 \<and> \<not> prefix ''..'' c \<and> \<not> prefix ''._'' c \<and>
          list_all (\<lambda>b. pathByte b \<and> b \<noteq> CHR ''/'') c) cs \<and>
        \<not> list_ex (\<lambda>ext. suffix ext (ToLower (last cs))) codeExtensions"
  then obtain cs where p: "p = join_with CHR ''/'' cs" and cs: "cs \<noteq> []" "length cs \<le> 8"
    and ok: "list_all component_ok cs" "\<forall>c \<in> set cs. \<forall>b \<in> set c. pathByte b \<and> b \<noteq> CHR ''/''"
    and ext: "\<not> list_ex (HasSuffix (ToLower (last cs))) codeExtensions"
    by (auto simp: list_all_iff list_ex_iff component_ok_def HasSuffix_iff)
  have s: "split_on CHR ''/'' p = cs" unfolding p using cs ok(2) by (intro split_join) auto
  have "length p < length cs * 256"
    using length_join [of cs 255] cs ok(1) by (auto simp: p list_all_iff component_ok_def)
  then have "length p \<le> MaxPathBytes" using cs(2) by (simp add: const_defs)
  moreover have "list_all pathByte p"
    unfolding p list_all_iff using ok(2) by (auto simp: pathByte_def dest!: set_join)
  ultimately show "ValidatePath p = None" using cs ok(1) ext by (simp add: ValidatePath_iff s)
qed

section \<open>The allow-sets are apart\<close>

text \<open>What each set admits, spelled out: no code layer in any artifact, no type in both sets, and no policy
  value selects the guest set.\<close>

lemma ImageVolume_layers:
  "AllowsLayer ImageVolumeAllowSet t l \<longleftrightarrow>
     t = ArtifactTypeModel \<and> l \<in> set modelLayers \<or> t = MediaTypeWasmConfig \<and> l = MediaTypeWasmLayer"
proof -
  have "ArtifactTypeModel \<noteq> MediaTypeWasmConfig" by (simp add: media_defs)
  then show ?thesis by (auto simp: AllowsLayer_def AllowSet_rule_def ImageVolumeAllowSet_def)
qed

lemma allow_sets_apart:
  "\<not> AllowsLayer ImageVolumeAllowSet t MediaTypeModelCode \<and> \<not> AllowsLayer GuestAllowSet t MediaTypeModelCode \<and>
   \<not> (AllowsType ImageVolumeAllowSet t \<and> AllowsType GuestAllowSet t) \<and>
   AllowSetFor policy \<noteq> Inr GuestAllowSet \<and> \<not> AllowsType zeroAllowSet t"
proof -
  have d: "ArtifactTypeGuest \<noteq> ArtifactTypeModel" "ArtifactTypeGuest \<noteq> MediaTypeWasmConfig"
    "MediaTypeModelCode \<notin> set modelLayers" "MediaTypeModelCode \<noteq> MediaTypeWasmLayer"
    "MediaTypeModelCode \<noteq> MediaTypeGuestKernel" "MediaTypeModelCode \<noteq> MediaTypeGuestInitramfs"
    "ImageVolumeAllowSet \<noteq> GuestAllowSet"
    by (simp_all add: media_defs modelLayers_def ImageVolumeAllowSet_def GuestAllowSet_def)
  then show ?thesis
    by (simp add: ImageVolume_layers AllowSetFor_def zeroAllowSet_def AllowsType_def AllowsLayer_def AllowSet_rule_def)
      (simp add: GuestAllowSet_def ImageVolumeAllowSet_def AllowSet_rule_def)
qed

end
