(* ===== verification/Storage.thy ===== *)
theory Storage
  imports TextLib
begin

text \<open>
  The local-path storage contract of \<open>storage/v1/storage.go\<close>: the storage class with its defaults and
  validation, the directory of a claim (\<open>DataDir\<close>), the volume name of a claim and the node topology.
  The class's parameter map is passed through and never read.
\<close>

section \<open>Types and constants\<close>

definition DefaultStorageClassName :: string where [const_defs]: "DefaultStorageClassName = ''local-path''"
definition ProvisionerName :: string where [const_defs]: "ProvisionerName = ''k3sm.io/local-path''"
definition DefaultBasePath :: string where [const_defs]: "DefaultBasePath = ''/var/lib/k3sm/storage''"
definition TopologyKeyHostname :: string where [const_defs]: "TopologyKeyHostname = ''kubernetes.io/hostname''"

type_synonym ReclaimPolicy = string
type_synonym VolumeBindingMode = string

definition ReclaimRetain :: ReclaimPolicy where [const_defs]: "ReclaimRetain = ''Retain''"
definition ReclaimDelete :: ReclaimPolicy where [const_defs]: "ReclaimDelete = ''Delete''"
definition BindingWaitForFirstConsumer :: VolumeBindingMode where
  [const_defs]: "BindingWaitForFirstConsumer = ''WaitForFirstConsumer''"
definition BindingImmediate :: VolumeBindingMode where [const_defs]: "BindingImmediate = ''Immediate''"

definition maxDNSLabelLen :: nat where [const_defs]: "maxDNSLabelLen = 63"
definition maxDNSSubdomainLen :: nat where [const_defs]: "maxDNSSubdomainLen = 253"

record LocalPathClass =
  lp_Name :: string
  lp_Provisioner :: string
  lp_BasePath :: string
  lp_ReclaimPolicy :: ReclaimPolicy
  lp_VolumeBindingMode :: VolumeBindingMode
  lp_Parameters :: "(string \<rightharpoonup> string) ptr"

record NodeTopology =
  nt_Key :: string
  nt_NodeName :: string

datatype storage_err =
    ClassNoName
  | ClassNoProvisioner string
  | ClassBasePath string string
  | ClassReclaimPolicy string ReclaimPolicy
  | ClassBindingMode string VolumeBindingMode
  | DataDirEmpty string
  | DataDirTooLong string string
  | DataDirGrammar string string
  | PVNameEmpty
  | TopologyNoKey
  | TopologyNoNodeName


section \<open>Operations\<close>

definition ReclaimPolicy_Valid :: "ReclaimPolicy \<Rightarrow> bool" where
  "ReclaimPolicy_Valid p = (p = ReclaimRetain \<or> p = ReclaimDelete)"

definition VolumeBindingMode_Valid :: "VolumeBindingMode \<Rightarrow> bool" where
  "VolumeBindingMode_Valid m = (m = BindingWaitForFirstConsumer \<or> m = BindingImmediate)"

definition DefaultLocalPathClass :: LocalPathClass where
  "DefaultLocalPathClass = \<lparr>lp_Name = DefaultStorageClassName, lp_Provisioner = ProvisionerName,
     lp_BasePath = DefaultBasePath, lp_ReclaimPolicy = ReclaimRetain,
     lp_VolumeBindingMode = BindingWaitForFirstConsumer, lp_Parameters = NilP\<rparr>"

definition or_default :: "string \<Rightarrow> string \<Rightarrow> string" where
  "or_default d v = (if v = '''' then d else v)"

definition LocalPathClass_WithDefaults :: "LocalPathClass \<Rightarrow> LocalPathClass" where
  "LocalPathClass_WithDefaults c = c\<lparr>
     lp_Name := or_default DefaultStorageClassName (lp_Name c),
     lp_Provisioner := or_default ProvisionerName (lp_Provisioner c),
     lp_BasePath := or_default DefaultBasePath (lp_BasePath c),
     lp_ReclaimPolicy := or_default ReclaimRetain (lp_ReclaimPolicy c),
     lp_VolumeBindingMode := or_default BindingWaitForFirstConsumer (lp_VolumeBindingMode c)\<rparr>"

definition LocalPathClass_Validate :: "LocalPathClass \<Rightarrow> storage_err option" where
  "LocalPathClass_Validate c = first_err
     [fail_if (lp_Name c = '''') ClassNoName,
      fail_if (lp_Provisioner c = '''') (ClassNoProvisioner (lp_Name c)),
      fail_if (lp_BasePath c = '''' \<or> \<not> IsAbs (lp_BasePath c)) (ClassBasePath (lp_Name c) (lp_BasePath c)),
      fail_if (lp_ReclaimPolicy c \<noteq> ReclaimRetain) (ClassReclaimPolicy (lp_Name c) (lp_ReclaimPolicy c)),
      fail_if (lp_VolumeBindingMode c \<noteq> BindingWaitForFirstConsumer) (ClassBindingMode (lp_Name c) (lp_VolumeBindingMode c))]"

definition dnsLabelRe :: rexp where "dnsLabelRe = dns1123LabelRE"
definition dnsSubdomainRe :: rexp where "dnsSubdomainRe = dns1123SubdomainRE"

definition validDNSName_of :: "string \<Rightarrow> string \<Rightarrow> rexp \<Rightarrow> nat \<Rightarrow> storage_err option" where
  "validDNSName_of kind v re max' = first_err
     [fail_if (v = '''') (DataDirEmpty kind),
      fail_if (max' < length v) (DataDirTooLong kind v),
      fail_if (\<not> MatchString re v) (DataDirGrammar kind v)]"

definition DataDir :: "LocalPathClass \<Rightarrow> string \<Rightarrow> string \<Rightarrow> storage_err + string" where
  "DataDir c namespace claimName =
     (let base = (if lp_BasePath c = '''' then DefaultBasePath else lp_BasePath c)
      in case validDNSName_of ''namespace'' namespace dnsLabelRe maxDNSLabelLen of
           Some e \<Rightarrow> Inl e
         | None \<Rightarrow>
             (case validDNSName_of ''claimName'' claimName dnsSubdomainRe maxDNSSubdomainLen of
                Some e \<Rightarrow> Inl e
              | None \<Rightarrow> Inr (path_Join [base, namespace, claimName])))"

definition PVName :: "string \<Rightarrow> storage_err + string" where
  "PVName pvcUID = (if TrimSpace pvcUID = '''' then Inl PVNameEmpty else Inr (''pvc-'' @ pvcUID))"

definition NodeTopology_WithDefaults :: "NodeTopology \<Rightarrow> NodeTopology" where
  "NodeTopology_WithDefaults t = (if nt_Key t = '''' then t\<lparr>nt_Key := TopologyKeyHostname\<rparr> else t)"

definition NodeTopology_Validate :: "NodeTopology \<Rightarrow> storage_err option" where
  "NodeTopology_Validate t =
     (let key = (if nt_Key t = '''' then TopologyKeyHostname else nt_Key t)
      in first_err [fail_if (key = '''') TopologyNoKey, fail_if (nt_NodeName t = '''') TopologyNoNodeName])"


section \<open>Lemmas\<close>

lemma validDNSName_label: "validDNSName_of k v dnsLabelRe maxDNSLabelLen = None \<longleftrightarrow> label_ok v \<and> length v \<le> 63"
  by (auto simp: validDNSName_of_def check_simps dnsLabelRe_def dns1123Label_iff const_defs label_ok_def)

lemma validDNSName_subdomain:
  "validDNSName_of k v dnsSubdomainRe maxDNSSubdomainLen = None \<longleftrightarrow> subdomain_ok v \<and> length v \<le> 253"
proof -
  have "subdomain_ok v \<Longrightarrow> v \<noteq> []" by (auto simp: subdomain_ok_def label_ok_def)
  then show ?thesis
    by (auto simp: validDNSName_of_def check_simps dnsSubdomainRe_def dns1123Subdomain_iff const_defs)
qed

lemma label_byte_clean: "label_byte c \<Longrightarrow> c \<noteq> CHR ''/'' \<and> c \<noteq> CHR ''.'' \<and> \<not> is_upper c"
  by (auto simp: label_byte_def lower_alnum_def is_lower_def is_digit_def is_upper_def byte_of_def)

lemma subdomain_bytes: "subdomain_ok v \<Longrightarrow> c \<in> set v \<Longrightarrow> c = CHR ''.'' \<or> label_byte c"
proof -
  assume v: "subdomain_ok v" and c: "c \<in> set v"
  from c have "c \<in> set (join_with CHR ''.'' (split_on CHR ''.'' v))" by simp
  from set_join [OF this] v show ?thesis by (auto simp: subdomain_ok_def label_ok_def)
qed

lemma label_subdomain: "label_ok v \<Longrightarrow> subdomain_ok v"
  by (simp add: subdomain_ok_def label_ok_no_dot)

lemma subdomain_plain:
  assumes "subdomain_ok v"
  shows "plain_component v \<and> list_all (\<lambda>c. \<not> is_upper c) v"
proof -
  have "\<not> is_upper CHR ''.''" by (simp add: is_upper_def byte_of_def)
  then have "CHR ''/'' \<notin> set v" "list_all (\<lambda>c. \<not> is_upper c) v"
    using subdomain_bytes [OF assms] label_byte_clean by (fastforce simp: list_all_iff)+
  moreover have "v \<noteq> ''''" "v \<noteq> ''.''" "v \<noteq> ''..''"
    using assms by (auto simp: subdomain_ok_def label_ok_def)
  ultimately show ?thesis by (simp add: plain_component_def)
qed

lemma ToLower_no_upper: "list_all (\<lambda>c. \<not> is_upper c) v \<Longrightarrow> ToLower v = v"
  by (induction v) (auto simp: lower_byte_def)

lemma LocalPathClass_Validate_iff:
  "LocalPathClass_Validate c = None \<longleftrightarrow>
     lp_Name c \<noteq> '''' \<and> lp_Provisioner c \<noteq> '''' \<and> IsAbs (lp_BasePath c) \<and>
     lp_ReclaimPolicy c = ''Retain'' \<and> lp_VolumeBindingMode c = ''WaitForFirstConsumer''"
  by (auto simp: LocalPathClass_Validate_def check_simps const_defs IsAbs_def)

text \<open>The directory of a claim, for a class with an absolute base: the cleaned base and two more
  components.\<close>

lemma DataDir_iff:
  assumes "IsAbs (lp_BasePath c)"
  shows "DataDir c ns cl = Inr d \<longleftrightarrow>
    label_ok ns \<and> length ns \<le> 63 \<and> subdomain_ok cl \<and> length cl \<le> 253 \<and>
    d = CHR ''/'' # join_with CHR ''/'' (clean_comps (lp_BasePath c) @ [ns, cl])"
proof (cases "label_ok ns \<and> length ns \<le> 63 \<and> subdomain_ok cl \<and> length cl \<le> 253")
  case True
  let ?b = "lp_BasePath c"
  have ne: "?b \<noteq> []" using assms by (simp add: IsAbs_def)
  have pl: "plain_component ns" "plain_component cl"
    using True subdomain_plain label_subdomain by blast+
  have "filter (\<lambda>e. e \<noteq> '''') [?b, ns, cl] = [?b, ns, cl]" using ne pl by (simp add: plain_component_def)
  moreover have "clean_comps (join_with CHR ''/'' [?b, ns, cl]) = clean_comps ?b @ [ns, cl]"
    using clean_below [of ?b "[ns, cl]"] ne pl by simp
  moreover have "IsAbs (join_with CHR ''/'' [?b, ns, cl])" using ne assms by simp
  ultimately have "path_Join [?b, ns, cl] = CHR ''/'' # join_with CHR ''/'' (clean_comps ?b @ [ns, cl])"
    by (simp add: path_Join_def path_Clean_def Let_def)
  moreover have "validDNSName_of ''namespace'' ns dnsLabelRe maxDNSLabelLen = None"
    "validDNSName_of ''claimName'' cl dnsSubdomainRe maxDNSSubdomainLen = None"
    using True by (simp_all add: validDNSName_label validDNSName_subdomain)
  ultimately show ?thesis using True ne by (auto simp: DataDir_def Let_def)
next
  case False
  then have "validDNSName_of ''namespace'' ns dnsLabelRe maxDNSLabelLen \<noteq> None \<or>
      validDNSName_of ''claimName'' cl dnsSubdomainRe maxDNSSubdomainLen \<noteq> None"
    by (auto simp: validDNSName_label validDNSName_subdomain)
  then show ?thesis using False by (auto simp: DataDir_def Let_def split: option.splits)
qed

lemma ToLower_join: "ToLower (join_with CHR ''/'' ws) = join_with CHR ''/'' (map ToLower ws)"
proof (induction ws)
  case (Cons w ws)
  have "lower_byte CHR ''/'' = CHR ''/''" by simp
  with Cons show ?case by simp
qed simp

lemma plain_ToLower: "plain_component w \<Longrightarrow> plain_component (ToLower w)"
proof -
  have dot: "lower_byte c = CHR ''.'' \<longleftrightarrow> c = CHR ''.''" for c
    by (rule lower_byte_eq_iff) (simp_all add: is_upper_def is_lower_def byte_of_def)
  have "ToLower w = ''.'' \<longleftrightarrow> w = ''.''" "ToLower w = ''..'' \<longleftrightarrow> w = ''..''"
    by (auto simp: ToLower_def map_eq_Cons_conv dot)
  moreover have "CHR ''/'' \<in> set (ToLower w) \<longleftrightarrow> CHR ''/'' \<in> set w"
    by (induction w) (auto simp: eq_commute [of "CHR ''/''"])
  ultimately show "plain_component w \<Longrightarrow> ?thesis" by (simp add: plain_component_def)
qed


section \<open>Properties\<close>

text \<open>(C13) Every claim has its own directory under the storage root. With a validated class, \<open>DataDir\<close>
  answers exactly for a DNS-label namespace and a DNS-subdomain claim; the directory is the cleaned
  root with exactly those two components below it, none of its components climbs; and two different
  claims never share a directory, not even on a volume that ignores case.\<close>

theorem DataDir_isolates_claims:
  assumes "LocalPathClass_Validate c = None"
  shows "((\<exists>d. DataDir c ns cl = Inr d) \<longleftrightarrow> label_ok ns \<and> length ns \<le> 63 \<and> subdomain_ok cl \<and> length cl \<le> 253) \<and>
    (DataDir c ns cl = Inr d \<longrightarrow>
       d = CHR ''/'' # join_with CHR ''/'' (clean_comps (lp_BasePath c) @ [ns, cl]) \<and>
       list_all plain_component (clean_comps (lp_BasePath c) @ [ns, cl])) \<and>
    (DataDir c ns cl = Inr d \<and> DataDir c ns' cl' = Inr d' \<and> ToLower d = ToLower d' \<longrightarrow> ns = ns' \<and> cl = cl')"
proof -
  let ?b = "clean_comps (lp_BasePath c)"
  have abs: "IsAbs (lp_BasePath c)" using assms by (simp add: LocalPathClass_Validate_iff)
  note iff = DataDir_iff [OF abs]
  have base: "list_all plain_component ?b" by (rule clean_comps_plain [OF abs])
  have plain: "plain_component x \<and> plain_component y \<and> ToLower x = x \<and> ToLower y = y"
    if "DataDir c x y = Inr e" for x y e
    using that subdomain_plain label_subdomain ToLower_no_upper unfolding iff by blast
  have inj: "ns = ns' \<and> cl = cl'"
    if d: "DataDir c ns cl = Inr d" and d': "DataDir c ns' cl' = Inr d'" and eq: "ToLower d = ToLower d'"
  proof -
    have "join_with CHR ''/'' (map ToLower ?b @ [ns, cl]) = join_with CHR ''/'' (map ToLower ?b @ [ns', cl'])"
      using d d' eq plain [OF d] plain [OF d'] unfolding iff by (simp add: ToLower_join)
    moreover have "list_all plain_component (map ToLower ?b @ [ns, cl])" "list_all plain_component (map ToLower ?b @ [ns', cl'])"
      using base plain [OF d] plain [OF d'] plain_ToLower by (auto simp: list_all_iff)
    ultimately show ?thesis using plain_join_inj by fastforce
  qed
  moreover have "list_all plain_component (?b @ [ns, cl])" if "DataDir c ns cl = Inr d"
    using base plain [OF that] by simp
  ultimately show ?thesis unfolding iff by blast
qed

theorem DataDir_isolates_claims_witness:
  "DataDir DefaultLocalPathClass ''default'' ''data-db-0'' = Inr ''/var/lib/k3sm/storage/default/data-db-0'' \<and>
   \<not> (\<exists>d. DataDir DefaultLocalPathClass ''..'' ''data'' = Inr d)"
proof -
  have v: "LocalPathClass_Validate DefaultLocalPathClass = None"
    by (simp add: LocalPathClass_Validate_iff DefaultLocalPathClass_def const_defs IsAbs_def)
  have "label_ok ''default''" "subdomain_ok ''data-db-0''"
    by (simp_all add: label_ok_def subdomain_ok_def label_byte_def lower_alnum_def is_lower_def is_digit_def byte_of_def)
  then obtain d where d: "DataDir DefaultLocalPathClass ''default'' ''data-db-0'' = Inr d"
    using DataDir_isolates_claims [OF v, of "''default''" "''data-db-0''" "''''" "''''" "''''" "''''"] by auto
  have "clean_comps (lp_BasePath DefaultLocalPathClass) = [''var'', ''lib'', ''k3sm'', ''storage'']"
    by (simp add: DefaultLocalPathClass_def const_defs clean_comps_def IsAbs_def)
  moreover from DataDir_isolates_claims [OF v, of "''default''" "''data-db-0''" d "''''" "''''" "''''"] d
  have "d = CHR ''/'' # join_with CHR ''/'' (clean_comps (lp_BasePath DefaultLocalPathClass) @ [''default'', ''data-db-0''])"
    by blast
  ultimately have "d = ''/var/lib/k3sm/storage/default/data-db-0''" by simp
  moreover have "\<not> label_ok ''..''" by (simp add: label_ok_def lower_alnum_def is_lower_def is_digit_def byte_of_def)
  then have "\<not> (\<exists>d. DataDir DefaultLocalPathClass ''..'' ''data'' = Inr d)"
    using DataDir_isolates_claims [OF v, of "''..''" "''data''" "''''" "''''" "''''" "''''"] by blast
  ultimately show ?thesis using d by simp
qed

end
