(* ===== verification/Registry.thy ===== *)
theory Registry
  imports TextLib
begin

text \<open>
  The quarantine registry of \<open>hack/lib/testresults.go\<close>: comment stripping, the shell lexer, test ids,
  dates, the refusals, and \<open>parseRegistry\<close>. Regular expressions are those of the source, matched as in
  \<open>Regex\<close>; their groups are cut out where the pattern leaves only one place to cut. Errors keep the
  line and the values their texts print. The one index expression that could fail,
  \<open>toks[0]\<close>, is a branch of the model (\<^term>\<open>None\<close> is a panic).
\<close>

section \<open>Constants\<close>

definition maxEntries :: nat where [const_defs]: "maxEntries = 10"
definition minSigChars :: nat where [const_defs]: "minSigChars = 12"

definition requiredKeys :: "string list" where
  "requiredKeys = [''sig'', ''owner'', ''filed'', ''deadline'', ''fix'', ''reason'']"

definition raceMarkers :: "string list" where
  "raceMarkers = [''WARNING: DATA RACE'', ''race detected during execution of test'', ''ThreadSanitizer'',
     ''AddressSanitizer'', ''UndefinedBehaviorSanitizer'', ''LeakSanitizer'', ''MemorySanitizer'']"

definition protectedPathSegments :: "(string \<times> string) list" where
  "protectedPathSegments = [(''pkg'', ''certs''), (''pkg'', ''bootstrap''), (''pkg'', ''rbac'')]"

definition protectedPackages :: "string list" where
  "protectedPackages = [''k3sm.io/runtimed/pkg/image'']"

definition protectedPackagePrefixes :: "string list" where
  "protectedPackagePrefixes = [''K3smInstall'']"

definition protectedNameKeywords :: "string list" where
  "protectedNameKeywords = [''signaturepolicy'', ''sigpolicy'', ''cosign'', ''rbac'', ''k3sminstall'']"


section \<open>Regular expressions\<close>

text \<open>The class \<open>\s\<close> of Go's syntax is tab, newline, form feed, carriage return and space.\<close>

definition re_space :: "char \<Rightarrow> bool" where
  "re_space c = (byte_of c \<in> {9, 10, 12, 13, 32})"

definition alnum :: "char \<Rightarrow> bool" where
  "alnum c = (is_lower c \<or> is_upper c \<or> is_digit c)"

definition path_char :: "char \<Rightarrow> bool" where
  "path_char c = (alnum c \<or> c \<in> set ''._~-'')"

definition word_char :: "char \<Rightarrow> bool" where
  "word_char c = (alnum c \<or> c = CHR ''_'')"

definition ident_start :: "char \<Rightarrow> bool" where
  "ident_start c = (is_lower c \<or> is_upper c \<or> c = CHR ''_'')"

abbreviation Plus :: "rexp \<Rightarrow> rexp" where
  "Plus r \<equiv> Seq r (Star r)"

primrec Lit :: "string \<Rightarrow> rexp" where
  "Lit [] = Empty"
| "Lit (c # s) = Seq (Cls (\<lambda>x. x = c)) (Lit s)"

declare Lit.simps [simp del]

definition dateRE :: rexp where
  "dateRE = Seq (Seq (Cls is_digit) (Seq (Cls is_digit) (Seq (Cls is_digit) (Cls is_digit))))
     (Seq (Lit ''-'') (Seq (Seq (Cls is_digit) (Cls is_digit))
       (Seq (Lit ''-'') (Seq (Cls is_digit) (Cls is_digit)))))"

definition goIDRE :: rexp where
  "goIDRE =
     Seq (Seq (Plus (Cls path_char)) (Star (Seq (Lit ''/'') (Plus (Cls path_char)))))
     (Seq (Lit ''::'')
     (Seq (Alt (Seq (Lit ''Test'') (Star (Cls word_char)))
          (Alt (Seq (Lit ''Example'') (Star (Cls word_char)))
               (Seq (Lit ''Fuzz'') (Star (Cls word_char)))))
          (Opt (Seq (Lit ''/'') (Plus (Cls (\<lambda>c. \<not> re_space c)))))))"

definition swiftIDRE :: rexp where
  "swiftIDRE =
     Seq (Seq (Cls ident_start) (Star (Cls word_char)))
     (Seq (Lit ''/'') (Seq (Seq (Cls ident_start) (Star (Cls word_char)))
     (Seq (Lit ''/'') (Plus (Cls (\<lambda>c. \<not> re_space c))))))"

definition durationRE :: rexp where
  "durationRE =
     Seq (Lit ''('') (Seq (Plus (Cls is_digit)) (Seq (Opt (Seq (Lit ''.'') (Plus (Cls is_digit))))
       (Seq (Lit ''s'') (Seq (Opt (Lit '')'')) (Star (Cls re_space))))))"


section \<open>The shell lexer\<close>

definition comment_blank :: "char \<Rightarrow> bool" where
  "comment_blank c = (byte_of c \<in> {32, 9, 13, 10, 11, 12})"

primrec stripComment_loop :: "char option \<Rightarrow> bool \<Rightarrow> string \<Rightarrow> string" where
  "stripComment_loop quote prevSpace [] = []"
| "stripComment_loop quote prevSpace (ch # s) =
     (case quote of
        Some q \<Rightarrow> ch # stripComment_loop (if ch = q then None else Some q) (comment_blank ch) s
      | None \<Rightarrow>
          if ch = CHR 0x22 \<or> ch = CHR 0x27 then ch # stripComment_loop (Some ch) (comment_blank ch) s
          else if ch = CHR ''#'' \<and> prevSpace then []
          else ch # stripComment_loop None (comment_blank ch) s)"

definition stripComment :: "string \<Rightarrow> string" where
  "stripComment line = stripComment_loop None True line"

datatype lex_err = NoEscapedCharacter | NoClosingQuotation

definition shell_blank :: "nat \<Rightarrow> bool" where
  "shell_blank ch = (ch \<in> {32, 9, 13, 10})"

text \<open>The inner loop of a double-quoted part: the word so far and the runes after the quote.\<close>

fun double_quoted :: "nat list \<Rightarrow> nat list \<Rightarrow> (nat list \<times> nat list) option" where
  "double_quoted cur [] = None"
| "double_quoted cur (c # rs) =
     (if c = 34 then Some (cur, rs)
      else case rs of
        d # rs' \<Rightarrow> if c = 92 \<and> (d = 34 \<or> d = 92) then double_quoted (cur @ [d]) rs' else double_quoted (cur @ [c]) rs
      | [] \<Rightarrow> double_quoted (cur @ [c]) rs)"

lemma double_quoted_shorter: "double_quoted cur rs = Some (cur', rs') \<Longrightarrow> length rs' < length rs"
proof (induction "length rs" arbitrary: cur rs rule: less_induct)
  case less
  show ?case
  proof (cases rs)
    case (Cons c s)
    consider "c = 34" | d s' where "s = d # s'" "double_quoted (cur @ [d]) s' = Some (cur', rs')"
      | "double_quoted (cur @ [c]) s = Some (cur', rs')"
      using less.prems unfolding Cons double_quoted.simps(2) by (cases s) (auto split: if_splits simp del: double_quoted.simps(2))
    then show ?thesis
    proof cases
      case 1
      then show ?thesis using less.prems Cons by simp
    next
      case 2
      then show ?thesis using less.hyps [of s' "cur @ [d]"] Cons by simp
    next
      case 3
      then show ?thesis using less.hyps [of s "cur @ [c]"] Cons by simp
    qed
  qed (use less.prems in simp)
qed

declare double_quoted.simps(2) [simp del]

text \<open>The loop over the runes: the words so far, the current word, whether one is open.\<close>

function shellSplit_loop :: "nat list list \<Rightarrow> nat list \<Rightarrow> bool \<Rightarrow> nat list \<Rightarrow> lex_err + nat list list" where
  "shellSplit_loop words cur inWord s =
     (case s of
        [] \<Rightarrow> Inr (if inWord then words @ [cur] else words)
      | ch # rs \<Rightarrow>
          if shell_blank ch then
            (if inWord then shellSplit_loop (words @ [cur]) [] False rs else shellSplit_loop words cur inWord rs)
          else if ch = 92 then
            (case rs of [] \<Rightarrow> Inl NoEscapedCharacter | r # rs' \<Rightarrow> shellSplit_loop words (cur @ [r]) True rs')
          else if ch = 39 then
            (let body = takeWhile (\<lambda>r. r \<noteq> 39) rs
             in if length body = length rs then Inl NoClosingQuotation
                else shellSplit_loop words (cur @ body) True (drop (Suc (length body)) rs))
          else if ch = 34 then
            (case double_quoted cur rs of
               None \<Rightarrow> Inl NoClosingQuotation
             | Some (cur', rs') \<Rightarrow> shellSplit_loop words cur' True rs')
          else shellSplit_loop words (cur @ [ch]) True rs)"
  by pat_completeness auto

termination shellSplit_loop
  by (relation "measure (\<lambda>(words, cur, inWord, rs). length rs)")
    (auto dest: double_quoted_shorter intro: less_SucI)

declare shellSplit_loop.simps [simp del]

definition shellSplit :: "string \<Rightarrow> lex_err + string list" where
  "shellSplit s =
     (case shellSplit_loop [] [] False (string_runes s) of
        Inl e \<Rightarrow> Inl e
      | Inr ws \<Rightarrow> Inr (map runes_string ws))"

section \<open>Test ids and dates\<close>

text \<open>The path of a Go id has no colon, so its first group ends at the first colon; the name is the
  rest after the two colons. The parts of a Swift id end at the first and second slash.\<close>

definition splitTestID :: "string \<Rightarrow> (string \<times> string) option" where
  "splitTestID test =
     (if MatchString goIDRE test then
        (let pkg = takeWhile (\<lambda>c. c \<noteq> CHR '':'') test in Some (pkg, drop (length pkg + 2) test))
      else if contains_sub test ''::'' then None
      else if MatchString swiftIDRE test then
        (let target = takeWhile (\<lambda>c. c \<noteq> CHR ''/'') test in Some (target, drop (length target + 1) test))
      else None)"

type_synonym date = "nat \<times> nat \<times> nat"

definition leap :: "nat \<Rightarrow> bool" where
  "leap y = (4 dvd y \<and> (\<not> 100 dvd y \<or> 400 dvd y))"

definition daysIn :: "nat \<Rightarrow> nat \<Rightarrow> nat" where
  "daysIn y m = (if m = 2 then (if leap y then 29 else 28) else if m \<in> {4, 6, 9, 11} then 30 else 31)"

definition parseDate :: "string \<Rightarrow> date option" where
  "parseDate s =
     (if \<not> MatchString dateRE s then None
      else let y = dec_val (take 4 s); m = dec_val (take 2 (drop 5 s)); d = dec_val (take 2 (drop 8 s))
        in if 1 \<le> m \<and> m \<le> 12 \<and> 1 \<le> d \<and> d \<le> daysIn y m then Some (y, m, d) else None)"

fun Before :: "date \<Rightarrow> date \<Rightarrow> bool" where
  "Before (y, m, d) (y', m', d') = (y < y' \<or> y = y' \<and> (m < m' \<or> m = m' \<and> d < d'))"


section \<open>Refusals\<close>

definition raceMarker :: "string \<Rightarrow> string" where
  "raceMarker text = (case find (contains_sub text) raceMarkers of None \<Rightarrow> '''' | Some m \<Rightarrow> m)"

primrec adjacent :: "string \<times> string \<Rightarrow> string list \<Rightarrow> bool" where
  "adjacent pair [] = False"
| "adjacent pair (s # segs) =
     ((case segs of [] \<Rightarrow> False | t # _ \<Rightarrow> s = fst pair \<and> t = snd pair) \<or> adjacent pair segs)"

text \<open>\<open>strings.ToLower\<close>, as far as ASCII keywords can be found in the result: besides the ASCII capitals
  only the Kelvin sign and the dotted capital I have an ASCII lower case.\<close>

definition lower_rune :: "nat \<Rightarrow> nat" where
  "lower_rune r = (if 65 \<le> r \<and> r \<le> 90 then r + 32 else if r = 0x212A then 107 else if r = 0x130 then 105 else r)"

definition protectedReason :: "string \<Rightarrow> string \<Rightarrow> string" where
  "protectedReason pkg name =
     (case find (\<lambda>pair. adjacent pair (split_on CHR ''/'' pkg)) protectedPathSegments of
        Some (a, b) \<Rightarrow> ''trust surface '' @ a @ ''/'' @ b
      | None \<Rightarrow>
          (case find (\<lambda>p. pkg = p \<or> HasPrefix pkg (p @ ''/'')) protectedPackages of
             Some p \<Rightarrow> ''trust surface '' @ p @ '' (signature policy)''
           | None \<Rightarrow>
               (case find (\<lambda>p. HasPrefix pkg p) protectedPackagePrefixes of
                  Some p \<Rightarrow> ''trust surface '' @ p
                | None \<Rightarrow>
                    (let low = map lower_rune (string_runes name)
                     in case find (\<lambda>k. contains_sub low (map byte_of k)) protectedNameKeywords of
                          Some k \<Rightarrow> ''trust surface: test name names '' @ [CHR 0x22] @ k @ [CHR 0x22]
                        | None \<Rightarrow> ''''))))"

text \<open>Runs of white space become one space.\<close>

fun squeeze :: "string \<Rightarrow> string" where
  "squeeze [] = []"
| "squeeze (c # s) =
     (if re_space c then (case s of d # _ \<Rightarrow> if re_space d then squeeze s else CHR '' '' # squeeze s | [] \<Rightarrow> '' '')
      else c # squeeze s)"

definition norm :: "string \<Rightarrow> string" where
  "norm s = TrimSpace (squeeze s)"

text \<open>The pattern is anchored at the end, so its leftmost match is the first suffix it matches.\<close>

primrec cut_duration :: "string \<Rightarrow> string" where
  "cut_duration [] = []"
| "cut_duration (c # s) = (if MatchString durationRE (c # s) then ''('' else c # cut_duration s)"

definition harnessReason :: "string \<Rightarrow> string \<Rightarrow> string \<Rightarrow> string" where
  "harnessReason test name sig =
     (let s = norm (cut_duration sig)
      in if s = '''' then ''''
         else if contains_sub test s \<or> contains_sub test (norm sig) then ''the test id''
         else if contains_sub (''=== RUN '' @ name) s then ''the harness line === RUN '' @ name
         else if contains_sub (''--- FAIL: '' @ name @ '' ('') s then ''the harness line --- FAIL: '' @ name
         else '''')"


section \<open>The registry\<close>

record entry =
  en_line :: nat
  en_test :: string
  en_pkg :: string
  en_sig :: string
  en_owner :: string
  en_fix :: string
  en_deadline :: string
  en_deadlineDate :: date

datatype reg_err =
    Unparseable nat lex_err
  | NotATestID nat string
  | NotKeyValue nat string
  | UnknownKey nat string
  | KeyRepeats nat string
  | KeyEmpty nat string
  | MissingKeys nat "string list"
  | FiledNotDate nat string
  | DeadlineNotDate nat string
  | DeadlineBeforeFiled nat string string
  | SigTooShort nat
  | SigRace nat string
  | SigHarness nat string
  | ProtectedTest nat string string
  | AlreadyListed nat string nat
  | TooManyEntries nat

text \<open>\<open>keyRE\<close>: lower-case letters, an equals sign, the value.\<close>

definition key_value :: "string \<Rightarrow> (string \<times> string) option" where
  "key_value t =
     (let k = takeWhile is_lower t
      in if k \<noteq> '''' \<and> k \<noteq> t \<and> t ! length k = CHR ''='' then Some (k, drop (length k + 1) t) else None)"

primrec field_loop :: "nat \<Rightarrow> (string \<rightharpoonup> string) \<Rightarrow> string list \<Rightarrow> reg_err list \<times> (string \<rightharpoonup> string)" where
  "field_loop n flds [] = ([], flds)"
| "field_loop n flds (t # rest) =
     (let bad = (\<lambda>e. case field_loop n flds rest of (es, fs) \<Rightarrow> (e # es, fs))
      in case key_value t of
           None \<Rightarrow> bad (NotKeyValue n t)
         | Some (k, v) \<Rightarrow>
             if k \<notin> set requiredKeys then bad (UnknownKey n k)
             else if (case flds k of None \<Rightarrow> '''' | Some w \<Rightarrow> w) \<noteq> '''' then bad (KeyRepeats n k)
             else if TrimSpace v = '''' then bad (KeyEmpty n k)
             else field_loop n (flds(k \<mapsto> v)) rest)"

definition get_field :: "(string \<rightharpoonup> string) \<Rightarrow> string \<Rightarrow> string" where
  "get_field flds k = (case flds k of None \<Rightarrow> '''' | Some v \<Rightarrow> v)"

text \<open>The checks on the fields of one line, in order; the lines seen so far are those of accepted tests.\<close>

definition entry_of ::
  "nat \<Rightarrow> string \<Rightarrow> string \<Rightarrow> string \<Rightarrow> (string \<rightharpoonup> string) \<Rightarrow> (string \<rightharpoonup> nat) \<Rightarrow> reg_err + entry"
where
  "entry_of n test pkg name flds seen =
     (let sig = get_field flds ''sig''
      in case parseDate (get_field flds ''filed'') of
           None \<Rightarrow> Inl (FiledNotDate n (get_field flds ''filed''))
         | Some filed \<Rightarrow>
             (case parseDate (get_field flds ''deadline'') of
                None \<Rightarrow> Inl (DeadlineNotDate n (get_field flds ''deadline''))
              | Some deadline \<Rightarrow>
                  if Before deadline filed then
                    Inl (DeadlineBeforeFiled n (get_field flds ''deadline'') (get_field flds ''filed''))
                  else if length (string_runes sig) < minSigChars then Inl (SigTooShort n)
                  else if raceMarker sig \<noteq> '''' then Inl (SigRace n (raceMarker sig))
                  else if harnessReason test name sig \<noteq> '''' then Inl (SigHarness n (harnessReason test name sig))
                  else if protectedReason pkg name \<noteq> '''' then Inl (ProtectedTest n test (protectedReason pkg name))
                  else case seen test of
                    Some prev \<Rightarrow> Inl (AlreadyListed n test prev)
                  | None \<Rightarrow> Inr \<lparr>en_line = n, en_test = test, en_pkg = pkg, en_sig = sig,
                      en_owner = get_field flds ''owner'', en_fix = get_field flds ''fix'',
                      en_deadline = get_field flds ''deadline'', en_deadlineDate = deadline\<rparr>))"

record reg_state =
  rs_entries :: "entry list"
  rs_errs :: "reg_err list"
  rs_seen :: "string \<rightharpoonup> nat"
  rs_listed :: nat

definition add_errs :: "reg_err list \<Rightarrow> reg_state \<Rightarrow> reg_state" where
  "add_errs es st = st\<lparr>rs_errs := rs_errs st @ es\<rparr>"

definition registry_line :: "nat \<Rightarrow> string \<Rightarrow> reg_state \<Rightarrow> reg_state option" where
  "registry_line n raw st0 =
     (let line = TrimSpace (stripComment raw)
      in if line = '''' then Some st0
         else let st = st0\<lparr>rs_listed := rs_listed st0 + 1\<rparr>
           in case shellSplit line of
                Inl e \<Rightarrow> Some (add_errs [Unparseable n e] st)
              | Inr [] \<Rightarrow> None
              | Inr (test # rest) \<Rightarrow>
                  (case splitTestID test of
                     None \<Rightarrow> Some (add_errs [NotATestID n test] st)
                   | Some (pkg, name) \<Rightarrow>
                       (case field_loop n Map.empty rest of
                          (es, flds) \<Rightarrow>
                            let missing = filter (\<lambda>k. flds k = None) requiredKeys;
                                bad = es @ (if missing \<noteq> [] then [MissingKeys n missing] else [])
                            in if bad \<noteq> [] then Some (add_errs bad st)
                               else case entry_of n test pkg name flds (rs_seen st) of
                                 Inl e \<Rightarrow> Some (add_errs [e] st)
                               | Inr en \<Rightarrow> Some (st\<lparr>rs_seen := (rs_seen st)(test \<mapsto> n), rs_entries := rs_entries st @ [en]\<rparr>))))"

primrec registry_lines :: "nat \<Rightarrow> string list \<Rightarrow> reg_state \<Rightarrow> reg_state option" where
  "registry_lines n [] st = Some st"
| "registry_lines n (raw # raws) st =
     (case registry_line n raw st of None \<Rightarrow> None | Some st' \<Rightarrow> registry_lines (n + 1) raws st')"

fun replace_crlf :: "string \<Rightarrow> string" where
  "replace_crlf (c # d # s) =
     (if c = CHR 0x0D \<and> d = CHR 0x0A then CHR 0x0A # replace_crlf s else c # replace_crlf (d # s))"
| "replace_crlf s = s"

definition parseRegistry :: "string \<Rightarrow> (entry list \<times> reg_err list) option" where
  "parseRegistry text =
     (case registry_lines 1 (split_on CHR 0x0A (replace_crlf text))
         \<lparr>rs_entries = [], rs_errs = [], rs_seen = Map.empty, rs_listed = 0\<rparr> of
        None \<Rightarrow> None
      | Some st \<Rightarrow> Some (rs_entries st,
          rs_errs st @ (if maxEntries < rs_listed st then [TooManyEntries (rs_listed st)] else [])))"

section \<open>No panic\<close>

lemma shellSplit_loop_Nil [simp]: "shellSplit_loop words cur inWord [] = Inr (if inWord then words @ [cur] else words)"
  by (simp add: shellSplit_loop.simps)

lemmas shellSplit_loop_Cons = shellSplit_loop.simps [of _ _ _ "ch # rs" for ch rs, simplified]

text \<open>One round of the loop: an open word stays open or is added to the words, and a rune that is no
  blank opens one.\<close>

lemma shellSplit_loop_step:
  assumes "shellSplit_loop words cur inWord (ch # rs) = Inr ws"
  shows "\<exists>words' cur' inWord' rs'. length rs' \<le> length rs \<and> shellSplit_loop words' cur' inWord' rs' = Inr ws \<and>
    (words \<noteq> [] \<or> inWord \<or> \<not> shell_blank ch \<longrightarrow> words' \<noteq> [] \<or> inWord')"
proof (cases "shell_blank ch")
  case True
  then show ?thesis using assms by (cases inWord) (force simp: shellSplit_loop_Cons)+
next
  case False
  consider "ch = 92" | "ch = 39" | "ch = 34" | "ch \<noteq> 92" "ch \<noteq> 39" "ch \<noteq> 34" by blast
  then show ?thesis
  proof cases
    case 1
    then obtain r rs' where "rs = r # rs'" "shellSplit_loop words (cur @ [r]) True rs' = Inr ws"
      using assms False by (cases rs) (auto simp: shellSplit_loop_Cons)
    then show ?thesis by (intro exI [of _ words] exI [of _ "cur @ [r]"] exI [of _ True] exI [of _ rs']) simp
  next
    case 2
    let ?b = "takeWhile (\<lambda>r. r \<noteq> 39) rs"
    have "shellSplit_loop words (cur @ ?b) True (drop (Suc (length ?b)) rs) = Inr ws"
      using assms False 2 by (auto simp: shellSplit_loop_Cons Let_def split: if_splits)
    then show ?thesis
      by (intro exI [of _ words] exI [of _ "cur @ ?b"] exI [of _ True] exI [of _ "drop (Suc (length ?b)) rs"]) simp
  next
    case 3
    then obtain cur' rs' where d: "double_quoted cur rs = Some (cur', rs')" "shellSplit_loop words cur' True rs' = Inr ws"
      using assms False by (auto simp: shellSplit_loop_Cons split: option.splits)
    from double_quoted_shorter [OF d(1)] d(2) show ?thesis
      by (intro exI [of _ words] exI [of _ cur'] exI [of _ True] exI [of _ rs']) simp
  next
    case 4
    then have "shellSplit_loop words (cur @ [ch]) True rs = Inr ws" using assms False by (simp add: shellSplit_loop_Cons)
    then show ?thesis by (intro exI [of _ words] exI [of _ "cur @ [ch]"] exI [of _ True] exI [of _ rs]) simp
  qed
qed

lemma shellSplit_loop_words:
  "shellSplit_loop words cur inWord rs = Inr ws \<Longrightarrow> words \<noteq> [] \<or> inWord \<Longrightarrow> ws \<noteq> []"
proof (induction "length rs" arbitrary: words cur inWord rs rule: less_induct)
  case less
  show ?case
  proof (cases rs)
    case Nil
    then show ?thesis using less.prems by (auto split: if_splits)
  next
    case (Cons ch rs')
    from shellSplit_loop_step [OF less.prems(1) [unfolded Cons]] less.prems(2)
    obtain words' cur' inWord' rs'' where "length rs'' \<le> length rs'" "shellSplit_loop words' cur' inWord' rs'' = Inr ws"
      "words' \<noteq> [] \<or> inWord'" by blast
    then show ?thesis using less.hyps [of rs'' words' cur' inWord'] Cons by simp
  qed
qed

lemma shellSplit_not_empty:
  assumes "s \<noteq> []" "\<not> (byte_of (hd s) < 128 \<and> IsSpace (byte_of (hd s)))"
  shows "shellSplit s \<noteq> Inr []"
proof
  assume "shellSplit s = Inr []"
  then have l: "shellSplit_loop [] [] False (string_runes s) = Inr []"
    by (auto simp: shellSplit_def split: sum.splits)
  let ?d = "DecodeRune (map byte_of s)"
  obtain rs where rs: "string_runes s = fst ?d # rs"
    using assms(1) unfolding string_runes_def by (subst (asm) runes.simps) (auto simp: runes.simps [of "map byte_of s"])
  have "\<not> shell_blank (fst ?d)"
  proof (cases "byte_of (hd s) < 128")
    case True
    then have "fst ?d = byte_of (hd s)" using assms(1) DecodeRune_ascii [of "map byte_of s"] by (simp add: hd_map)
    then show ?thesis using assms(2) True by (auto simp: shell_blank_def IsSpace_def)
  next
    case False
    then have "128 \<le> fst ?d" using assms(1) DecodeRune_not_ascii [of "map byte_of s"] by (simp add: hd_map)
    then show ?thesis by (auto simp: shell_blank_def)
  qed
  then show False
    using shellSplit_loop_step [OF l [unfolded rs]] shellSplit_loop_words by blast
qed

lemma registry_line_total: "\<exists>st'. registry_line n raw st = Some st'"
proof -
  let ?l = "TrimSpace (stripComment raw)"
  have "?l \<noteq> [] \<Longrightarrow> shellSplit ?l \<noteq> Inr []" using shellSplit_not_empty [OF _ TrimSpace_hd] by blast
  then show ?thesis
    by (auto simp: registry_line_def Let_def split: sum.split list.split option.split prod.split)
qed

lemma registry_lines_total: "\<exists>st'. registry_lines n raws st = Some st'"
proof (induction raws arbitrary: n st)
  case (Cons raw raws)
  obtain st1 where "registry_line n raw st = Some st1" using registry_line_total by blast
  then show ?case using Cons by simp
qed simp

lemma parseRegistry_total: "\<exists>es errs. parseRegistry text = Some (es, errs)"
proof -
  obtain st where "registry_lines 1 (split_on CHR 0x0A (replace_crlf text))
      \<lparr>rs_entries = [], rs_errs = [], rs_seen = Map.empty, rs_listed = 0\<rparr> = Some st"
    using registry_lines_total by blast
  then show ?thesis by (simp add: parseRegistry_def)
qed

section \<open>What an accepted entry is\<close>

definition entry_ok :: "entry \<Rightarrow> bool" where
  "entry_ok e \<longleftrightarrow> (\<exists>name.
     splitTestID (en_test e) = Some (en_pkg e, name) \<and> parseDate (en_deadline e) = Some (en_deadlineDate e) \<and>
     12 \<le> length (string_runes (en_sig e)) \<and> raceMarker (en_sig e) = '''' \<and>
     harnessReason (en_test e) name (en_sig e) = '''' \<and> protectedReason (en_pkg e) name = '''')"

definition reg_inv :: "reg_state \<Rightarrow> bool" where
  "reg_inv st \<longleftrightarrow> distinct (map en_test (rs_entries st)) \<and> list_all entry_ok (rs_entries st) \<and>
     (\<forall>t. rs_seen st t \<noteq> None \<longleftrightarrow> t \<in> en_test ` set (rs_entries st)) \<and> length (rs_entries st) \<le> rs_listed st"

lemma entry_of_ok:
  assumes "splitTestID test = Some (pkg, name)" "entry_of n test pkg name flds seen = Inr e"
  shows "entry_ok e \<and> en_test e = test \<and> seen test = None"
  using assms unfolding entry_of_def entry_ok_def
  by (auto simp: Let_def const_defs split: option.splits if_splits)

lemma reg_inv_errs: "reg_inv st \<Longrightarrow> reg_inv (add_errs es st)"
  by (simp add: reg_inv_def add_errs_def)

lemma registry_line_cases:
  assumes "registry_line n raw st = Some st'"
  obtains "st' = st" | es where "st' = add_errs es (st\<lparr>rs_listed := rs_listed st + 1\<rparr>)"
    | test pkg name flds en where "splitTestID test = Some (pkg, name)" "entry_of n test pkg name flds (rs_seen st) = Inr en"
      "st' = st\<lparr>rs_listed := rs_listed st + 1, rs_seen := (rs_seen st)(test \<mapsto> n), rs_entries := rs_entries st @ [en]\<rparr>"
proof (cases "TrimSpace (stripComment raw) = ''''")
  case True
  then show ?thesis using assms that(1) by (simp add: registry_line_def)
next
  case False
  let ?l = "TrimSpace (stripComment raw)"
  note r = assms [unfolded registry_line_def Let_def if_not_P [OF False]]
  show ?thesis
  proof (cases "shellSplit ?l")
    case (Inl e)
    then show ?thesis using r that(2) by auto
  next
    case (Inr toks)
    then obtain test rest where toks: "shellSplit ?l = Inr (test # rest)" using r by (cases toks) auto
    show ?thesis
    proof (cases "splitTestID test")
      case None
      then show ?thesis using r toks that(2) by auto
    next
      case (Some pn)
      then obtain pkg name where pn: "splitTestID test = Some (pkg, name)" by (cases pn) auto
      obtain es flds where f: "field_loop n Map.empty rest = (es, flds)" by fastforce
      let ?missing = "filter (\<lambda>k. flds k = None) requiredKeys"
      let ?bad = "es @ (if ?missing \<noteq> [] then [MissingKeys n ?missing] else [])"
      note r2 = r [unfolded toks sum.case list.case pn option.case prod.case f]
      show ?thesis
      proof (cases "?bad \<noteq> []")
        case True
        then show ?thesis using r2 [unfolded if_P [OF True]] that(2) [of ?bad] by auto
      next
        case False
        note r3 = r2 [unfolded if_not_P [OF False]]
        show ?thesis using r3 that(2) that(3) [OF pn] by (cases "entry_of n test pkg name flds (rs_seen st)") auto
      qed
    qed
  qed
qed

lemma registry_line_inv:
  assumes inv: "reg_inv st" and step: "registry_line n raw st = Some st'"
  shows "reg_inv st'"
  using step
proof (cases rule: registry_line_cases)
  case (2 es)
  have "reg_inv (st\<lparr>rs_listed := rs_listed st + 1\<rparr>)" using inv by (simp add: reg_inv_def)
  then show ?thesis using 2 reg_inv_errs by blast
next
  case (3 test pkg name flds en)
  note e = entry_of_ok [OF 3(1,2)]
  then have "test \<notin> en_test ` set (rs_entries st)" using inv unfolding reg_inv_def by blast
  then show ?thesis using e inv 3(3) by (auto simp: reg_inv_def)
qed (use inv in simp)

lemma registry_lines_inv: "reg_inv st \<Longrightarrow> registry_lines n raws st = Some st' \<Longrightarrow> reg_inv st'"
proof (induction raws arbitrary: n st)
  case (Cons raw raws)
  then obtain st1 where "registry_line n raw st = Some st1" "registry_lines (n + 1) raws st1 = Some st'"
    by (auto split: option.splits)
  then show ?case using Cons registry_line_inv by blast
qed simp

lemma parseRegistry_entries:
  assumes "parseRegistry text = Some (es, errs)"
  shows "distinct (map en_test es) \<and> list_all entry_ok es \<and> (length es \<le> 10 \<or> (\<exists>n. TooManyEntries n \<in> set errs))"
proof -
  obtain st where st: "registry_lines 1 (split_on CHR 0x0A (replace_crlf text))
      \<lparr>rs_entries = [], rs_errs = [], rs_seen = Map.empty, rs_listed = 0\<rparr> = Some st"
    "es = rs_entries st" "errs = rs_errs st @ (if maxEntries < rs_listed st then [TooManyEntries (rs_listed st)] else [])"
    using assms by (auto simp: parseRegistry_def split: option.splits)
  have "reg_inv st" by (rule registry_lines_inv [OF _ st(1)]) (simp add: reg_inv_def)
  then show ?thesis by (auto simp: reg_inv_def st(2,3) const_defs)
qed


section \<open>Quoting\<close>

text \<open>A way to write any list of words: each in double quotes, with quotes and backslashes escaped.\<close>

definition dq_escape :: "nat \<Rightarrow> nat list" where
  "dq_escape r = (if r = 34 \<or> r = 92 then [92, r] else [r])"

definition dq_word :: "nat list \<Rightarrow> nat list" where
  "dq_word w = 34 # concat (map dq_escape w) @ [34]"

definition shell_line :: "nat list list \<Rightarrow> nat list" where
  "shell_line ws = concat (map (\<lambda>w. dq_word w @ [32]) ws)"

lemma double_quoted_escaped:
  "double_quoted cur (concat (map dq_escape w) @ 34 # rs) = Some (cur @ w, rs)"
proof (induction w arbitrary: cur)
  case Nil
  then show ?case by (simp add: double_quoted.simps(2))
next
  case (Cons r w)
  obtain d ds where d: "concat (map dq_escape w) @ 34 # rs = d # ds" by (cases "concat (map dq_escape w)") auto
  show ?case
  proof (cases "r = 34 \<or> r = 92")
    case True
    then show ?thesis using Cons [of "cur @ [r]"] by (auto simp: dq_escape_def double_quoted.simps(2))
  next
    case False
    then show ?thesis using Cons [of "cur @ [r]"] d by (simp add: dq_escape_def [of r] double_quoted.simps(2))
  qed
qed

lemma shellSplit_line: "shellSplit_loop ws0 [] False (shell_line ws) = Inr (ws0 @ ws)"
proof (induction ws arbitrary: ws0)
  case Nil
  then show ?case by (simp add: shell_line_def)
next
  case (Cons w ws)
  have "shellSplit_loop ws0 [] False (shell_line (w # ws)) = shellSplit_loop ws0 w True (32 # shell_line ws)"
    using double_quoted_escaped [of "[]" w "32 # shell_line ws"]
    by (simp add: shell_line_def dq_word_def shellSplit_loop_Cons shell_blank_def)
  also have "\<dots> = shellSplit_loop (ws0 @ [w]) [] False (shell_line ws)"
    by (simp add: shellSplit_loop_Cons shell_blank_def)
  finally show ?case using Cons by simp
qed


section \<open>Groups of the id patterns\<close>

lemma matches_Lit: "matches (Lit s) t \<longleftrightarrow> t = s"
proof (induction s arbitrary: t)
  case (Cons c s)
  then show ?case by (auto simp: m_Seq_head Lit.simps)
qed (simp add: Lit.simps)

lemma seq_split: "matches (Seq r q) s \<Longrightarrow> \<exists>u v. s = u @ v \<and> matches r u \<and> matches q v"
  by (auto simp: m_Seq_iff)

lemma star_chars:
  assumes "matches (Star r) s" "\<And>t. matches r t \<Longrightarrow> \<forall>c \<in> set t. P c"
  shows "\<forall>c \<in> set s. P c"
  using assms(1)
proof (induction "Star r" s rule: matches.induct)
  case (m_Star_step s t)
  then show ?case using assms(2) by auto
qed simp

text \<open>The package of a Go id ends where the pattern says: it holds no colon and two colons follow.\<close>

lemma go_id_groups:
  assumes "MatchString goIDRE test"
  shows "\<exists>p name. test = p @ ''::'' @ name \<and> CHR '':'' \<notin> set p \<and> splitTestID test = Some (p, name)"
proof -
  let ?P = "Seq (Plus (Cls path_char)) (Star (Seq (Lit ''/'') (Plus (Cls path_char))))"
  from assms obtain p rest where pr: "test = p @ rest" "matches ?P p"
    and rest: "\<exists>r. matches (Seq (Lit ''::'') r) rest"
    unfolding MatchString_iff goIDRE_def by (blast dest: seq_split)
  then obtain r where "matches (Seq (Lit ''::'') r) rest" by blast
  from seq_split [OF this] obtain u name where u: "rest = u @ name" "matches (Lit ''::'') u" by blast
  have name: "test = p @ ''::'' @ name" using u(2) unfolding pr(1) u(1) matches_Lit by simp
  have colon: "\<not> path_char CHR '':''"
    by (simp add: path_char_def alnum_def is_lower_def is_upper_def is_digit_def byte_of_def)
  have plus: "\<forall>c \<in> set t. c \<noteq> CHR '':''" if "matches (Plus (Cls path_char)) t" for t
    using that colon by (auto simp: m_Seq_head star_Cls)
  have slash: "\<forall>c \<in> set t. c \<noteq> CHR '':''" if "matches (Seq (Lit ''/'') (Plus (Cls path_char))) t" for t
  proof -
    from seq_split [OF that] obtain u v where "t = u @ v" "matches (Lit ''/'') u" "matches (Plus (Cls path_char)) v" by blast
    then show ?thesis using plus [of v] unfolding matches_Lit by auto
  qed
  have "\<forall>c \<in> set t. c \<noteq> CHR '':''" if "matches (Star (Seq (Lit ''/'') (Plus (Cls path_char)))) t" for t
    by (rule star_chars [OF that slash])
  note star = this
  from seq_split [OF pr(2)] obtain a b where ab: "p = a @ b" "matches (Plus (Cls path_char)) a"
    "matches (Star (Seq (Lit ''/'') (Plus (Cls path_char)))) b" by blast
  have p: "CHR '':'' \<notin> set p" using plus [OF ab(2)] star [OF ab(3)] unfolding ab(1) set_append by blast
  then have "takeWhile (\<lambda>c. c \<noteq> CHR '':'') test = p" unfolding name by (subst takeWhile_append2) auto
  then show ?thesis using assms name p by (intro exI [of _ p] exI [of _ name]) (simp add: splitTestID_def Let_def)
qed

text \<open>(C11) The registry reader always returns, without a panic, on any text. The entries it returns are for distinct
  tests; each is a well-formed id with a real date, a signature of at least twelve characters that is no race
  report and not the harness's own line, and no test of a trust surface. More than ten entries are always
  reported as an error.\<close>

theorem registry_entries:
  "\<exists>es errs. parseRegistry s = Some (es, errs) \<and> distinct (map en_test es) \<and> list_all entry_ok es \<and>
     (length es \<le> 10 \<or> (\<exists>n. TooManyEntries n \<in> set errs))"
  using parseRegistry_total [of s] parseRegistry_entries [of s] by blast

text \<open>Quoting reaches every word list: any words come back from the lexer when each is written in
  double quotes with its quotes and backslashes escaped, blanks and other quotes inside included.\<close>

theorem shellSplit_quoted: "shellSplit_loop [] [] False (shell_line ws) = Inr ws"
  using shellSplit_line [of "[]" ws] by simp

end
