(* ===== verification/Quarantine.thy ===== *)
theory Quarantine
  imports Registry
begin

text \<open>
  The verdict of \<open>hack/lib/testresults.go\<close>: \<open>evaluate\<close> walks the results twice, first writing a line per
  result with a placeholder for each unlisted failure, then filling the placeholders once every
  failing test is known. Report lines are values of \<open>report\<close>, with what their texts print. The reference
  \<open>report_line\<close> decides each result on its own from the whole list; \<open>evaluate_eq\<close> shows the two passes
  compute it, and the meaning of a green verdict is derived from it.
\<close>

section \<open>Results\<close>

record result =
  r_test :: string
  r_status :: string
  r_output :: string
  r_failedRuns :: "string list"
  r_run :: string
  r_open :: bool

definition carriedByEveryRun :: "string list \<Rightarrow> string \<Rightarrow> bool" where
  "carriedByEveryRun runs sig = (list_all (\<lambda>r. contains_sub r sig) runs \<and> 0 < length runs)"

text \<open>\<open>framingRE\<close>: optional white space, a marker of the harness, white space, the name. No marker is a
  prefix of another and none starts with white space, so there is one way to match.\<close>

definition framingMarks :: "string list" where
  "framingMarks = [''=== RUN'', ''=== PAUSE'', ''=== CONT'', ''=== NAME'', ''--- PASS:'', ''--- FAIL:'', ''--- SKIP:'']"

definition framing_name :: "string \<Rightarrow> string option" where
  "framing_name l =
     (let l1 = dropWhile re_space l
      in case find (HasPrefix l1) framingMarks of
           None \<Rightarrow> None
         | Some m \<Rightarrow>
             let l2 = drop (length m) l1; l3 = dropWhile re_space l2; w = takeWhile (\<lambda>c. \<not> re_space c) l3
             in if l2 = l3 \<or> w = '''' then None else Some w)"

primrec own_line :: "string \<Rightarrow> string set \<Rightarrow> string list \<Rightarrow> string" where
  "own_line name kidLines [] = ''''"
| "own_line name kidLines (l # ls) =
     (if TrimSpace l = '''' \<or> l \<in> kidLines then own_line name kidLines ls
      else case framing_name l of
        Some w \<Rightarrow> if w = name \<or> HasPrefix w (name @ ''/'') then own_line name kidLines ls else l
      | None \<Rightarrow> l)"

definition ownFailure :: "string \<Rightarrow> string \<Rightarrow> string list \<Rightarrow> string" where
  "ownFailure name output kidOutputs =
     own_line name (\<Union>k \<in> set kidOutputs. set (split_on CHR 0x0A k)) (split_on CHR 0x0A output)"

text \<open>What \<open>strings.Cut\<close> returns after the separator: empty when it does not occur.\<close>

primrec cut_after :: "string \<Rightarrow> string \<Rightarrow> string" where
  "cut_after sep [] = ''''"
| "cut_after sep (c # s) = (if HasPrefix (c # s) sep then drop (length sep) (c # s) else cut_after sep s)"


section \<open>The verdict\<close>

datatype report =
    RedRegistry reg_err
  | RedExpired string string string string
  | OkQuarantined string string
  | RedNoResult string
  | RedRace string string
  | RedFullTier string string string
  | RedEdited string string
  | RedSignature string
  | Quarantined string string string string
  | Placeholder
  | RedOwnOutput string string
  | QuarantinedSubtests string "string list"
  | RedFailed string

record eval_state =
  ev_red :: bool
  ev_excused :: nat
  ev_out :: "report list"
  ev_quarantined :: "string set"
  ev_unlisted :: "(nat \<times> string) list"
  ev_unlistedIDs :: "string set"
  ev_failing :: "string list"
  ev_outputs :: "string \<rightharpoonup> string"

definition emit :: "bool \<Rightarrow> report \<Rightarrow> eval_state \<Rightarrow> eval_state" where
  "emit bad l st = st\<lparr>ev_out := ev_out st @ [l], ev_red := ev_red st \<or> bad\<rparr>"

definition eval_result :: "(string \<rightharpoonup> entry) \<Rightarrow> string \<Rightarrow> string set \<Rightarrow> eval_state \<Rightarrow> result \<Rightarrow> eval_state" where
  "eval_result byID tier editedSet st r =
     (if r_status r = ''pass'' \<or> r_status r = ''skip'' then
        (if byID (r_test r) \<noteq> None then emit False (OkQuarantined (r_test r) (r_status r)) st else st)
      else if r_status r \<noteq> ''fail'' then emit True (RedNoResult (r_test r)) st
      else let st1 = st\<lparr>ev_failing := ev_failing st @ [r_test r], ev_outputs := (ev_outputs st)(r_test r \<mapsto> r_output r)\<rparr>
        in case byID (r_test r) of
             None \<Rightarrow> emit False Placeholder
                (st1\<lparr>ev_unlisted := ev_unlisted st1 @ [(length (ev_out st1), r_test r)],
                    ev_unlistedIDs := insert (r_test r) (ev_unlistedIDs st1)\<rparr>)
           | Some e \<Rightarrow>
               let rm = raceMarker (r_output r)
               in if rm \<noteq> '''' then emit True (RedRace (r_test r) rm) st1
                  else if tier = ''full'' then emit True (RedFullTier (r_test r) (en_fix e) (en_deadline e)) st1
                  else if en_pkg e \<in> editedSet then emit True (RedEdited (r_test r) (en_pkg e)) st1
                  else if \<not> carriedByEveryRun (r_failedRuns r) (en_sig e) then emit True (RedSignature (r_test r)) st1
                  else emit False (Quarantined (r_test r) (en_owner e) (en_fix e) (en_deadline e))
                    (st1\<lparr>ev_quarantined := insert (r_test r) (ev_quarantined st1), ev_excused := ev_excused st1 + 1\<rparr>))"

definition get_output :: "(string \<rightharpoonup> string) \<Rightarrow> string \<Rightarrow> string" where
  "get_output outputs t = (case outputs t of None \<Rightarrow> '''' | Some o1 \<Rightarrow> o1)"

definition kids_of :: "string list \<Rightarrow> string \<Rightarrow> string list" where
  "kids_of failing t = filter (\<lambda>c. HasPrefix c (t @ ''/'')) failing"

definition kids_cover :: "string set \<Rightarrow> string set \<Rightarrow> string list \<Rightarrow> bool" where
  "kids_cover quarantined unlistedIDs kids =
     (0 < length kids \<and>
      list_all (\<lambda>c. c \<in> quarantined \<or> c \<in> unlistedIDs \<and> list_ex (\<lambda>g. HasPrefix g (c @ ''/'')) kids) kids)"

text \<open>The body of the loop over the unlisted failures: the line that replaces the placeholder and
  whether it is red.\<close>

definition pending_line ::
  "string set \<Rightarrow> string set \<Rightarrow> string list \<Rightarrow> (string \<rightharpoonup> string) \<Rightarrow> string \<Rightarrow> report \<times> bool"
where
  "pending_line quarantined unlistedIDs failing outputs t =
     (let rm = raceMarker (get_output outputs t)
      in if rm \<noteq> '''' then (RedRace t rm, True)
         else let kids = kids_of failing t;
                  covered = kids_cover quarantined unlistedIDs kids;
                  own = (if covered then ownFailure (cut_after ''::'' t) (get_output outputs t) (map (get_output outputs) kids) else '''')
           in if covered \<and> own \<noteq> '''' then (RedOwnOutput t (TrimSpace own), True)
              else if covered then (QuarantinedSubtests t (filter (\<lambda>c. c \<in> quarantined) kids), False)
              else (RedFailed t, True))"

definition eval_pending :: "(string \<Rightarrow> report \<times> bool) \<Rightarrow> report list \<times> bool \<Rightarrow> nat \<times> string \<Rightarrow> report list \<times> bool" where
  "eval_pending decide s u =
     (case s of (out, red) \<Rightarrow> (case u of (idx, t) \<Rightarrow> (out[idx := fst (decide t)], red \<or> snd (decide t))))"

definition byID_of :: "entry list \<Rightarrow> string \<rightharpoonup> entry" where
  "byID_of entries = foldl (\<lambda>m e. m(en_test e \<mapsto> e)) Map.empty entries"

definition expired_lines :: "date \<Rightarrow> entry list \<Rightarrow> report list" where
  "expired_lines today entries =
     map (\<lambda>e. RedExpired (en_test e) (en_deadline e) (en_owner e) (en_fix e))
       (filter (\<lambda>e. Before (en_deadlineDate e) today) entries)"

definition evaluate ::
  "string \<Rightarrow> result list \<Rightarrow> string \<Rightarrow> string list \<Rightarrow> date \<Rightarrow> (bool \<times> nat \<times> report list) option"
where
  "evaluate registry results tier edited today =
     (case parseRegistry registry of
        None \<Rightarrow> None
      | Some (entries, errs) \<Rightarrow>
          let lines = map RedRegistry errs @ expired_lines today entries;
              st = foldl (eval_result (byID_of entries) tier (set edited))
                \<lparr>ev_red = lines \<noteq> [], ev_excused = 0, ev_out = [], ev_quarantined = {}, ev_unlisted = [],
                 ev_unlistedIDs = {}, ev_failing = [], ev_outputs = Map.empty\<rparr> results;
              decide = pending_line (ev_quarantined st) (ev_unlistedIDs st) (ev_failing st) (ev_outputs st)
          in case foldl (eval_pending decide) (ev_out st, ev_red st) (ev_unlisted st) of
               (out, red) \<Rightarrow> Some (red, ev_excused st, lines @ out))"

section \<open>The reference: each result decided on its own\<close>

definition fails :: "result \<Rightarrow> bool" where
  "fails r \<longleftrightarrow> r_status r = ''fail''"

definition is_red :: "report \<Rightarrow> bool" where
  "is_red l = (case l of OkQuarantined t s \<Rightarrow> False | Quarantined t ow f d \<Rightarrow> False | QuarantinedSubtests t q \<Rightarrow> False
     | Placeholder \<Rightarrow> False | _ \<Rightarrow> True)"

definition is_excuse :: "report \<Rightarrow> bool" where
  "is_excuse l = (case l of Quarantined t ow f d \<Rightarrow> True | _ \<Rightarrow> False)"

text \<open>A failure the registry excuses directly.\<close>

definition excused_by :: "string \<Rightarrow> string set \<Rightarrow> entry \<Rightarrow> result \<Rightarrow> bool" where
  "excused_by tier editedSet e r \<longleftrightarrow> raceMarker (r_output r) = '''' \<and> tier \<noteq> ''full'' \<and> en_pkg e \<notin> editedSet \<and>
     carriedByEveryRun (r_failedRuns r) (en_sig e)"

definition direct :: "(string \<rightharpoonup> entry) \<Rightarrow> string \<Rightarrow> string set \<Rightarrow> result \<Rightarrow> bool" where
  "direct byID tier E r \<longleftrightarrow> fails r \<and> (\<exists>e. byID (r_test r) = Some e \<and> excused_by tier E e r)"

definition unlisted :: "(string \<rightharpoonup> entry) \<Rightarrow> result \<Rightarrow> bool" where
  "unlisted byID r \<longleftrightarrow> fails r \<and> byID (r_test r) = None"

definition outputs_of :: "result list \<Rightarrow> string \<rightharpoonup> string" where
  "outputs_of rs = map_of (rev (map (\<lambda>r. (r_test r, r_output r)) (filter fails rs)))"

definition listed_line :: "string \<Rightarrow> string set \<Rightarrow> entry \<Rightarrow> result \<Rightarrow> report" where
  "listed_line tier E e r =
     (if raceMarker (r_output r) \<noteq> '''' then RedRace (r_test r) (raceMarker (r_output r))
      else if tier = ''full'' then RedFullTier (r_test r) (en_fix e) (en_deadline e)
      else if en_pkg e \<in> E then RedEdited (r_test r) (en_pkg e)
      else if \<not> carriedByEveryRun (r_failedRuns r) (en_sig e) then RedSignature (r_test r)
      else Quarantined (r_test r) (en_owner e) (en_fix e) (en_deadline e))"

text \<open>The lines of one result, given what an unlisted failure gets.\<close>

definition line_with :: "(string \<Rightarrow> report) \<Rightarrow> (string \<rightharpoonup> entry) \<Rightarrow> string \<Rightarrow> string set \<Rightarrow> result \<Rightarrow> report list" where
  "line_with pend byID tier E r =
     (if r_status r = ''pass'' \<or> r_status r = ''skip'' then
        (if byID (r_test r) \<noteq> None then [OkQuarantined (r_test r) (r_status r)] else [])
      else if \<not> fails r then [RedNoResult (r_test r)]
      else case byID (r_test r) of None \<Rightarrow> [pend (r_test r)] | Some e \<Rightarrow> [listed_line tier E e r])"

definition decide_in :: "(string \<rightharpoonup> entry) \<Rightarrow> string \<Rightarrow> string set \<Rightarrow> result list \<Rightarrow> string \<Rightarrow> report \<times> bool" where
  "decide_in byID tier E rs =
     pending_line (r_test ` set (filter (direct byID tier E) rs)) (r_test ` set (filter (unlisted byID) rs))
       (map r_test (filter fails rs)) (outputs_of rs)"

definition report_line :: "(string \<rightharpoonup> entry) \<Rightarrow> string \<Rightarrow> string set \<Rightarrow> result list \<Rightarrow> result \<Rightarrow> report list" where
  "report_line byID tier E rs r = line_with (\<lambda>t. fst (decide_in byID tier E rs t)) byID tier E r"

lemma is_red_simps [simp]:
  "is_red (RedRegistry e)" "is_red (RedExpired t d ow f)" "\<not> is_red (OkQuarantined t s)" "is_red (RedNoResult t)"
  "is_red (RedRace t m)" "is_red (RedFullTier t f d)" "is_red (RedEdited t p)" "is_red (RedSignature t)"
  "\<not> is_red (Quarantined t ow f d)" "is_red (RedOwnOutput t own)" "\<not> is_red (QuarantinedSubtests t q)" "is_red (RedFailed t)"
  "\<not> is_red Placeholder"
  by (simp_all add: is_red_def)

lemma is_excuse_simps [simp]:
  "is_excuse (Quarantined t ow f d)" "\<not> is_excuse (QuarantinedSubtests t q)" "\<not> is_excuse Placeholder"
  "is_red l \<Longrightarrow> \<not> is_excuse l" "\<not> is_excuse (OkQuarantined t s)"
  by (simp_all add: is_excuse_def is_red_def split: report.splits)

lemma listed_line_red [simp]: "is_red (listed_line tier E e r) \<longleftrightarrow> \<not> excused_by tier E e r"
  by (simp add: listed_line_def excused_by_def)

lemma listed_line_excuse [simp]: "is_excuse (listed_line tier E e r) \<longleftrightarrow> excused_by tier E e r"
  by (simp add: listed_line_def excused_by_def)

lemma pending_line_red: "snd (pending_line q u f os t) = is_red (fst (pending_line q u f os t))"
  by (simp add: pending_line_def Let_def)

lemma pending_line_excuse [simp]: "\<not> is_excuse (fst (pending_line q u f os t))"
  by (simp add: pending_line_def Let_def)

section \<open>The first pass\<close>

definition first_pass :: "(string \<rightharpoonup> entry) \<Rightarrow> string \<Rightarrow> string set \<Rightarrow> bool \<Rightarrow> result list \<Rightarrow> eval_state" where
  "first_pass byID tier E red0 rs = foldl (eval_result byID tier E)
     \<lparr>ev_red = red0, ev_excused = 0, ev_out = [], ev_quarantined = {}, ev_unlisted = [],
      ev_unlistedIDs = {}, ev_failing = [], ev_outputs = Map.empty\<rparr> rs"

lemma eval_result_eq:
  "eval_result byID tier E st r = st\<lparr>
     ev_out := ev_out st @ line_with (\<lambda>t. Placeholder) byID tier E r,
     ev_red := ev_red st \<or> list_ex is_red (line_with (\<lambda>t. Placeholder) byID tier E r),
     ev_excused := ev_excused st + (if direct byID tier E r then 1 else 0),
     ev_quarantined := (if direct byID tier E r then insert (r_test r) (ev_quarantined st) else ev_quarantined st),
     ev_unlisted := ev_unlisted st @ (if unlisted byID r then [(length (ev_out st), r_test r)] else []),
     ev_unlistedIDs := (if unlisted byID r then insert (r_test r) (ev_unlistedIDs st) else ev_unlistedIDs st),
     ev_failing := ev_failing st @ (if fails r then [r_test r] else []),
     ev_outputs := (if fails r then (ev_outputs st)(r_test r \<mapsto> r_output r) else ev_outputs st)\<rparr>"
  by (cases "byID (r_test r)")
    (simp_all add: eval_result_def line_with_def emit_def direct_def unlisted_def fails_def excused_by_def listed_line_def Let_def)

lemma first_pass_snoc: "first_pass byID tier E red0 (rs @ [r]) = eval_result byID tier E (first_pass byID tier E red0 rs) r"
  by (simp add: first_pass_def)

lemma first_pass_closed:
  "ev_out (first_pass byID tier E red0 rs) = concat (map (line_with (\<lambda>t. Placeholder) byID tier E) rs)"
  "ev_red (first_pass byID tier E red0 rs) =
     (red0 \<or> list_ex is_red (concat (map (line_with (\<lambda>t. Placeholder) byID tier E) rs)))"
  "ev_excused (first_pass byID tier E red0 rs) = length (filter (direct byID tier E) rs)"
  "ev_quarantined (first_pass byID tier E red0 rs) = r_test ` set (filter (direct byID tier E) rs)"
  "map snd (ev_unlisted (first_pass byID tier E red0 rs)) = map r_test (filter (unlisted byID) rs)"
  "ev_unlistedIDs (first_pass byID tier E red0 rs) = r_test ` set (filter (unlisted byID) rs)"
  "ev_failing (first_pass byID tier E red0 rs) = map r_test (filter fails rs)"
  "ev_outputs (first_pass byID tier E red0 rs) = outputs_of rs"
  by (induction rs rule: rev_induct)
    (simp_all add: first_pass_snoc eval_result_eq outputs_of_def, simp_all add: first_pass_def)

section \<open>The second pass\<close>

lemma eval_pending_pair: "eval_pending decide s u = ((fst s)[fst u := fst (decide (snd u))], snd s \<or> snd (decide (snd u)))"
  by (simp add: eval_pending_def split_beta)

lemma eval_pending_flag: "snd (foldl (eval_pending decide) s us) = (snd s \<or> list_ex (\<lambda>u. snd (decide (snd u))) us)"
  by (induction us arbitrary: s) (auto simp: eval_pending_pair)

lemma eval_pending_length: "length (fst (foldl (eval_pending decide) s us)) = length (fst s)"
  by (induction us arbitrary: s) (auto simp: eval_pending_pair)

lemma eval_pending_extend:
  assumes "list_all (\<lambda>u. fst u < length out) us"
  shows "fst (foldl (eval_pending decide) (out @ tl1, red) us) = fst (foldl (eval_pending decide) (out, red) us) @ tl1"
  using assms
proof (induction us arbitrary: out red)
  case (Cons u us)
  then have "list_all (\<lambda>v. fst v < length (out[fst u := fst (decide (snd u))])) us" "fst u < length out" by simp_all
  then show ?case using Cons.IH [of "out[fst u := fst (decide (snd u))]"]
    by (simp add: eval_pending_pair list_update_append)
qed simp

lemma first_pass_unlisted_bound:
  "list_all (\<lambda>u. fst u < length (ev_out (first_pass byID tier E red0 rs))) (ev_unlisted (first_pass byID tier E red0 rs))"
proof (induction rs rule: rev_induct)
  case (snoc r rs)
  have "length (line_with (\<lambda>t. Placeholder) byID tier E r) = 1" if "unlisted byID r"
    using that by (simp add: line_with_def unlisted_def fails_def)
  moreover have "list_all (\<lambda>u. fst u < n + k) us" if "list_all (\<lambda>u. fst u < n) us"
    for n k and us :: "(nat \<times> string) list"
    using that by (induction us) auto
  ultimately show ?case using snoc by (simp add: first_pass_snoc eval_result_eq)
qed (simp add: first_pass_def)

lemma second_pass_out:
  "fst (foldl (eval_pending decide) (ev_out (first_pass byID tier E red0 rs), red) (ev_unlisted (first_pass byID tier E red0 rs))) =
     concat (map (line_with (\<lambda>t. fst (decide t)) byID tier E) rs)"
proof (induction rs rule: rev_induct)
  case (snoc r rs)
  let ?st = "first_pass byID tier E red0 rs"
  let ?o = "fst (foldl (eval_pending decide) (ev_out ?st, red) (ev_unlisted ?st))"
  note ext = eval_pending_extend [OF first_pass_unlisted_bound]
  show ?case
  proof (cases "unlisted byID r")
    case False
    then have "line_with (\<lambda>t. Placeholder) byID tier E r = line_with (\<lambda>t. fst (decide t)) byID tier E r"
      by (auto simp: line_with_def unlisted_def split: option.split)
    then show ?thesis using False snoc by (simp add: first_pass_snoc eval_result_eq ext)
  next
    case True
    then have l: "line_with p byID tier E r = [p (r_test r)]" for p
      by (simp add: line_with_def unlisted_def fails_def)
    have "length (ev_out ?st) = length ?o" by (simp add: eval_pending_length)
    then have "(?o @ [Placeholder])[length (ev_out ?st) := fst (decide (r_test r))] = ?o @ [fst (decide (r_test r))]"
      by (simp only: list_update_length)
    moreover have "fst (eval_pending decide s (i, t)) = (fst s)[i := fst (decide t)]" for s i t
      by (simp add: eval_pending_pair)
    ultimately show ?thesis using True snoc by (simp add: first_pass_snoc eval_result_eq l ext)
  qed
qed (simp add: first_pass_def)

lemma placeholders_red:
  assumes "\<And>t. snd (decide t) = is_red (fst (decide t))"
  shows "list_ex is_red (concat (map (line_with (\<lambda>t. fst (decide t)) byID tier E) rs)) \<longleftrightarrow>
     list_ex is_red (concat (map (line_with (\<lambda>t. Placeholder) byID tier E) rs)) \<or>
     list_ex (\<lambda>t. snd (decide t)) (map r_test (filter (unlisted byID) rs))"
proof (induction rs)
  case (Cons r rs)
  have "list_ex is_red (line_with (\<lambda>t. fst (decide t)) byID tier E r) \<longleftrightarrow>
      list_ex is_red (line_with (\<lambda>t. Placeholder) byID tier E r) \<or> unlisted byID r \<and> snd (decide (r_test r))"
    by (auto simp: line_with_def unlisted_def fails_def assms split: option.splits)
  then show ?case using Cons by auto
qed simp

lemma excuse_lines:
  assumes "\<And>t. \<not> is_excuse (pend t)"
  shows "length (filter is_excuse (concat (map (line_with pend byID tier E) rs))) = length (filter (direct byID tier E) rs)"
proof (induction rs)
  case (Cons r rs)
  have "length (filter is_excuse (line_with pend byID tier E r)) = (if direct byID tier E r then 1 else 0)"
    by (auto simp: line_with_def direct_def fails_def assms split: option.split)
  then show ?case using Cons by simp
qed simp

section \<open>The verdict is the reference\<close>

definition report_of :: "result list \<Rightarrow> string \<Rightarrow> string list \<Rightarrow> date \<Rightarrow> entry list \<Rightarrow> reg_err list \<Rightarrow> report list" where
  "report_of rs tier edited today entries errs =
     map RedRegistry errs @ expired_lines today entries @
     concat (map (report_line (byID_of entries) tier (set edited) rs) rs)"

lemma prefix_lines_red: "list_ex is_red (map RedRegistry errs @ expired_lines today entries) \<longleftrightarrow>
    map RedRegistry errs @ expired_lines today entries \<noteq> []"
  unfolding expired_lines_def by (cases errs; cases "filter (\<lambda>e. Before (en_deadlineDate e) today) entries") auto

lemma prefix_lines_excuse: "filter is_excuse (map RedRegistry errs @ expired_lines today entries) = []"
  by (auto simp: expired_lines_def filter_empty_conv)

lemma evaluate_report:
  assumes "parseRegistry registry = Some (entries, errs)"
  shows "evaluate registry rs tier edited today =
    (let lines = report_of rs tier edited today entries errs
     in Some (list_ex is_red lines, length (filter is_excuse lines), lines))"
proof -
  let ?pre = "map RedRegistry errs @ expired_lines today entries"
  let ?b = "byID_of entries" and ?E = "set edited"
  let ?st = "first_pass ?b tier ?E (?pre \<noteq> []) rs"
  let ?d = "decide_in ?b tier ?E rs"
  let ?out = "concat (map (report_line ?b tier ?E rs) rs)"
  have d: "pending_line (ev_quarantined ?st) (ev_unlistedIDs ?st) (ev_failing ?st) (ev_outputs ?st) = ?d"
    unfolding decide_in_def first_pass_closed ..
  have dred: "snd (?d t) = is_red (fst (?d t))" for t unfolding decide_in_def by (rule pending_line_red)
  have out: "fst (foldl (eval_pending ?d) (ev_out ?st, ev_red ?st) (ev_unlisted ?st)) = ?out"
    unfolding second_pass_out report_line_def [abs_def] ..
  have "list_ex (\<lambda>u. snd (?d (snd u))) (ev_unlisted ?st) = list_ex (\<lambda>t. snd (?d t)) (map r_test (filter (unlisted ?b) rs))"
    unfolding first_pass_closed(5) [of ?b tier ?E "?pre \<noteq> []" rs, symmetric] by (simp add: list_ex_iff)
  then have red: "snd (foldl (eval_pending ?d) (ev_out ?st, ev_red ?st) (ev_unlisted ?st)) = (?pre \<noteq> [] \<or> list_ex is_red ?out)"
    unfolding eval_pending_flag first_pass_closed report_line_def [abs_def] placeholders_red [OF dred] snd_conv by blast
  have exc: "ev_excused ?st = length (filter is_excuse ?out)"
    unfolding first_pass_closed report_line_def [abs_def]
    by (rule excuse_lines [symmetric]) (simp add: decide_in_def)
  have "evaluate registry rs tier edited today = Some (?pre \<noteq> [] \<or> list_ex is_red ?out, length (filter is_excuse ?out), ?pre @ ?out)"
    unfolding evaluate_def assms option.case prod.case Let_def first_pass_def [symmetric] d
    using out red exc by (simp add: split_beta)
  moreover have "report_of rs tier edited today entries errs = ?pre @ ?out" by (simp add: report_of_def)
  ultimately show ?thesis
    by (simp only: Let_def list_ex_append [of is_red ?pre ?out] prefix_lines_red filter_append [of is_excuse ?pre ?out]
        prefix_lines_excuse append_Nil)
qed

section \<open>What green means\<close>

lemma byID_snoc: "byID_of (es @ [e]) = (byID_of es)(en_test e \<mapsto> e)"
  by (simp add: byID_of_def)

lemma byID_None: "byID_of es t = None \<longleftrightarrow> t \<notin> en_test ` set es"
  by (induction es rule: rev_induct) (auto simp: byID_snoc, simp add: byID_of_def)

lemma byID_Some: "distinct (map en_test es) \<Longrightarrow> byID_of es t = Some e \<longleftrightarrow> e \<in> set es \<and> en_test e = t"
proof (induction es rule: rev_induct)
  case (snoc a es)
  then have "en_test a \<noteq> en_test e" if "e \<in> set es" using that by force
  then show ?case using snoc by (auto simp: byID_snoc)
qed (simp add: byID_of_def)

text \<open>An unlisted failing parent passes only through its subtests.\<close>

definition covered_by_subtests :: "entry list \<Rightarrow> string \<Rightarrow> string set \<Rightarrow> result list \<Rightarrow> string \<Rightarrow> bool" where
  "covered_by_subtests entries tier E rs t \<longleftrightarrow>
     (let out = get_output (outputs_of rs);
          kids = kids_of (map r_test (filter fails rs)) t;
          excused = r_test ` set (filter (direct (byID_of entries) tier E) rs);
          unl = r_test ` set (filter (unlisted (byID_of entries)) rs)
      in raceMarker (out t) = '''' \<and> kids_cover excused unl kids \<and> ownFailure (cut_after ''::'' t) (out t) (map out kids) = '''')"

definition result_green :: "entry list \<Rightarrow> string \<Rightarrow> string set \<Rightarrow> result list \<Rightarrow> result \<Rightarrow> bool" where
  "result_green entries tier E rs r \<longleftrightarrow>
     r_status r = ''pass'' \<or> r_status r = ''skip'' \<or>
     r_status r = ''fail'' \<and>
       ((\<exists>e. e \<in> set entries \<and> en_test e = r_test r \<and> excused_by tier E e r) \<or>
        r_test r \<notin> en_test ` set entries \<and> covered_by_subtests entries tier E rs (r_test r))"

lemma pending_line_green:
  "is_red (fst (decide_in (byID_of entries) tier E rs t)) \<longleftrightarrow> \<not> covered_by_subtests entries tier E rs t"
  by (simp add: decide_in_def pending_line_def covered_by_subtests_def Let_def)

lemma report_line_green:
  assumes "distinct (map en_test entries)"
  shows "list_ex is_red (report_line (byID_of entries) tier E rs r) \<longleftrightarrow> \<not> result_green entries tier E rs r"
proof (cases "byID_of entries (r_test r)")
  case None
  moreover from this have "\<And>e. e \<in> set entries \<Longrightarrow> en_test e \<noteq> r_test r" unfolding byID_None by force
  ultimately show ?thesis
    using byID_None [of entries "r_test r"]
    by (auto simp: report_line_def line_with_def result_green_def pending_line_green fails_def)
next
  case (Some e)
  then have e: "e \<in> set entries" "en_test e = r_test r" using byID_Some [OF assms] by auto
  have one: "e' = e" if "e' \<in> set entries" "en_test e' = r_test r" for e'
    using that Some byID_Some [OF assms, of "r_test r" e'] by simp
  have "r_test r \<in> en_test ` set entries" using e by force
  moreover have "(\<exists>e'. e' \<in> set entries \<and> en_test e' = r_test r \<and> excused_by tier E e' r) \<longleftrightarrow> excused_by tier E e r"
    using e one by blast
  ultimately show ?thesis using Some by (auto simp: report_line_def line_with_def result_green_def fails_def)
qed

lemma evaluate_verdict:
  "\<exists>entries errs red excused. parseRegistry registry = Some (entries, errs) \<and>
     evaluate registry rs tier edited today =
       Some (red, excused, report_of rs tier edited today entries errs) \<and>
     (\<not> red \<longleftrightarrow> errs = [] \<and> list_all (\<lambda>e. \<not> Before (en_deadlineDate e) today) entries \<and>
        list_all (result_green entries tier (set edited) rs) rs) \<and>
     excused = length (filter (direct (byID_of entries) tier (set edited)) rs)"
proof -
  obtain entries errs where p: "parseRegistry registry = Some (entries, errs)" using parseRegistry_total by blast
  then have dist: "distinct (map en_test entries)" using parseRegistry_entries by blast
  let ?lines = "report_of rs tier edited today entries errs"
  have ev: "evaluate registry rs tier edited today = Some (list_ex is_red ?lines, length (filter is_excuse ?lines), ?lines)"
    using evaluate_report [OF p] by (simp add: Let_def)
  have "list_ex is_red (concat (map (report_line (byID_of entries) tier (set edited) rs) rs)) \<longleftrightarrow>
      \<not> list_all (result_green entries tier (set edited) rs) rs"
    using report_line_green [OF dist, of tier "set edited" rs] by (auto simp: list_ex_iff list_all_iff)
  then have red: "\<not> list_ex is_red ?lines \<longleftrightarrow> errs = [] \<and> list_all (\<lambda>e. \<not> Before (en_deadlineDate e) today) entries \<and>
        list_all (result_green entries tier (set edited) rs) rs"
    unfolding report_of_def list_ex_append by (cases errs) (auto simp: expired_lines_def list_ex_iff list_all_iff)
  have "length (filter is_excuse ?lines) = length (filter (direct (byID_of entries) tier (set edited)) rs)"
    unfolding report_of_def report_line_def [abs_def] append_assoc [symmetric] filter_append [of is_excuse "_ @ _"]
      prefix_lines_excuse append_Nil by (rule excuse_lines) (simp add: decide_in_def)
  then show ?thesis using p ev red by blast
qed


lemma covered_has_quarantined:
  assumes "kids_cover q u kids"
  shows "\<exists>c \<in> set kids. c \<in> q"
proof -
  have fin: "finite (length ` set kids)" "length ` set kids \<noteq> {}" using assms by (auto simp: kids_cover_def)
  then obtain c where c: "c \<in> set kids" "length c = Max (length ` set kids)" using Max_in [OF fin] by fastforce
  have longest: "length g \<le> length c" if "g \<in> set kids" for g using Max_ge [OF fin(1)] that c(2) by simp
  have "\<not> HasPrefix g (c @ ''/'')" if "g \<in> set kids" for g
    using longest [OF that] by (auto simp: HasPrefix_def)
  then show ?thesis using assms c(1) by (auto simp: kids_cover_def list_all_iff list_ex_iff)
qed

lemma no_direct_no_failure:
  assumes dist: "distinct (map en_test entries)" and g: "list_all (result_green entries tier E rs) rs"
    and d: "filter (direct (byID_of entries) tier E) rs = []"
  shows "filter fails rs = []"
proof -
  have "\<not> fails r" if r: "r \<in> set rs" for r
  proof
    assume f: "fails r"
    have "\<not> direct (byID_of entries) tier E r" using d r by (auto simp: filter_empty_conv)
    then have "covered_by_subtests entries tier E rs (r_test r)"
      using g r f byID_Some [OF dist] by (auto simp: list_all_iff result_green_def direct_def fails_def)
    then show False using covered_has_quarantined d by (fastforce simp: covered_by_subtests_def Let_def)
  qed
  then show ?thesis by (auto simp: filter_empty_conv)
qed

lemma full_tier_green:
  assumes "distinct (map en_test entries)" "list_all (result_green entries ''full'' E rs) rs"
  shows "filter fails rs = []"
  by (rule no_direct_no_failure [OF assms]) (simp add: filter_empty_conv direct_def excused_by_def)

text \<open>A green verdict that excused no failure was given on results with no failure at all.\<close>

lemma green_without_excuse:
  assumes "evaluate registry rs tier edited today = Some (False, 0, lines)"
  shows "filter fails rs = []"
proof -
  obtain entries errs where p: "parseRegistry registry = Some (entries, errs)"
    and g: "list_all (result_green entries tier (set edited) rs) rs"
    and d: "filter (direct (byID_of entries) tier (set edited)) rs = []"
    using evaluate_verdict [of registry rs tier edited today] assms by auto
  show ?thesis using no_direct_no_failure [OF _ g d] parseRegistry_entries [OF p] by blast
qed

end
