(* ===== verification/Collector.thy ===== *)
theory Collector
  imports Quarantine
begin

text \<open>
  The stream half of \<open>hack/lib/testresults.go\<close>: the collector of \<open>go test -json\<close> events, its results, and
  \<open>run\<close>. Decoding a line as JSON, the parsed flags, today's date, the registry file and the scanned lines
  are arguments. Printed lines are values; a nil entry in \<open>results\<close> is a panic (\<^term>\<open>None\<close>), which the
  invariant of the collector excludes. The lemmas follow one test id through an interleaved stream, and
  then read the exit codes back to the events.
\<close>

section \<open>Events and the collector\<close>

record event =
  Action :: string
  Package :: string
  ImportPath :: string
  Test :: string
  Output :: string

datatype stream_err = NotJSON nat | NoPackageAction nat | ReadingStream string

record collector =
  c_w :: "string list"
  c_tests :: "string \<rightharpoonup> result"
  c_order :: "string list"
  c_errs :: "stream_err list"
  c_pkgFail :: "string set"
  c_pkgHasFail :: "string set"
  c_pkgOrder :: "string list"
  c_pkgText :: "string \<rightharpoonup> string"
  c_pkgSeen :: "string list"
  c_buildFail :: "string list"
  c_text :: "string list"

definition newCollector :: collector where
  "newCollector = \<lparr>c_w = [], c_tests = Map.empty, c_order = [], c_errs = [], c_pkgFail = {}, c_pkgHasFail = {},
     c_pkgOrder = [], c_pkgText = Map.empty, c_pkgSeen = [], c_buildFail = [], c_text = []\<rparr>"

definition new_result :: "string \<Rightarrow> result" where
  "new_result tid = \<lparr>r_test = tid, r_status = '''', r_output = '''', r_failedRuns = [], r_run = '''', r_open = False\<rparr>"

definition build_event :: "event \<Rightarrow> collector \<Rightarrow> collector" where
  "build_event e c =
     (let c1 = c\<lparr>c_text := c_text c @ [Output e], c_w := c_w c @ [Output e]\<rparr>
      in if Action e = ''build-fail'' then c1\<lparr>c_buildFail := c_buildFail c1 @ [ImportPath e]\<rparr> else c1)"

definition package_event :: "event \<Rightarrow> collector \<Rightarrow> collector" where
  "package_event e c =
     (let p = Package e;
          c1 = (if Action e = ''output'' then
                  let c0 = (if c_pkgText c p = None then c\<lparr>c_pkgSeen := c_pkgSeen c @ [p]\<rparr> else c);
                      c0 = c0\<lparr>c_pkgText := (c_pkgText c0)(p \<mapsto> get_output (c_pkgText c0) p @ Output e), c_text := c_text c0 @ [Output e]\<rparr>
                  in if Output e \<noteq> ''PASS'' @ [CHR 0x0A] then c0\<lparr>c_w := c_w c0 @ [Output e]\<rparr> else c0
                else c)
      in if Action e = ''fail'' then
           (if p \<notin> c_pkgFail c1 then c1\<lparr>c_pkgOrder := c_pkgOrder c1 @ [p], c_pkgFail := insert p (c_pkgFail c1)\<rparr>
            else c1\<lparr>c_pkgFail := insert p (c_pkgFail c1)\<rparr>)
         else c1)"

definition test_id :: "event \<Rightarrow> string" where
  "test_id e = Package e @ ''::'' @ Test e"

text \<open>What an event does to its own test's result.\<close>

definition test_step :: "result \<Rightarrow> event \<Rightarrow> result" where
  "test_step t e =
     (if Action e = ''run'' then t\<lparr>r_open := True\<rparr>
      else if Action e = ''output'' then t\<lparr>r_output := r_output t @ Output e, r_run := r_run t @ Output e, r_open := True\<rparr>
      else if Action e = ''pass'' \<or> Action e = ''skip'' then
        (if r_status t \<noteq> ''fail'' then t\<lparr>r_status := Action e\<rparr> else t)\<lparr>r_run := '''', r_open := False\<rparr>
      else if Action e = ''fail'' then
        t\<lparr>r_status := ''fail'', r_failedRuns := r_failedRuns t @ [r_run t], r_run := '''', r_open := False\<rparr>
      else t)"

definition test_event :: "event \<Rightarrow> collector \<Rightarrow> collector" where
  "test_event e c =
     (let tid = test_id e;
          c1 = (if c_tests c tid = None then c\<lparr>c_tests := (c_tests c)(tid \<mapsto> new_result tid), c_order := c_order c @ [tid]\<rparr> else c);
          t = (case c_tests c tid of None \<Rightarrow> new_result tid | Some t \<Rightarrow> t);
          c2 = c1\<lparr>c_tests := (c_tests c1)(tid \<mapsto> test_step t e)\<rparr>
      in if Action e = ''output'' then c2\<lparr>c_text := c_text c2 @ [Output e]\<rparr>
         else if Action e = ''fail'' then c2\<lparr>c_pkgHasFail := insert (Package e) (c_pkgHasFail c2), c_w := c_w c2 @ [r_run t]\<rparr>
         else c2)"

definition is_build :: "event \<Rightarrow> bool" where
  "is_build e = (Package e = '''' \<and> ImportPath e \<noteq> '''' \<and> HasPrefix (Action e) ''build-'')"

definition line :: "(string \<Rightarrow> event option) \<Rightarrow> nat \<Rightarrow> string \<Rightarrow> collector \<Rightarrow> collector" where
  "line decode n raw c =
     (if TrimSpace raw = '''' then c
      else case decode raw of
        None \<Rightarrow> c\<lparr>c_errs := c_errs c @ [NotJSON n]\<rparr>
      | Some e \<Rightarrow>
          if is_build e then build_event e c
          else if Package e = '''' \<or> Action e = '''' then c\<lparr>c_errs := c_errs c @ [NoPackageAction n]\<rparr>
          else if Test e = '''' then package_event e c
          else test_event e c)"

primrec scan_lines :: "(string \<Rightarrow> event option) \<Rightarrow> nat \<Rightarrow> string list \<Rightarrow> collector \<Rightarrow> collector" where
  "scan_lines decode n [] c = c"
| "scan_lines decode n (raw # raws) c = scan_lines decode (n + 1) raws (line decode (n + 1) raw c)"


section \<open>Results\<close>

definition pseudo_result :: "string \<Rightarrow> string \<Rightarrow> result" where
  "pseudo_result tid out = (new_result tid)\<lparr>r_status := ''fail'', r_output := out\<rparr>"

primrec test_results :: "(string \<rightharpoonup> result) \<Rightarrow> string list \<Rightarrow> result list option" where
  "test_results tests [] = Some []"
| "test_results tests (tid # tids) =
     (case tests tid of
        None \<Rightarrow> None
      | Some r \<Rightarrow>
          (case test_results tests tids of
             None \<Rightarrow> None
           | Some rs \<Rightarrow> Some ((if r_open r then r\<lparr>r_status := ''''\<rparr> else r) # rs)))"

definition raced_packages :: "collector \<Rightarrow> string list" where
  "raced_packages c = filter (\<lambda>p. raceMarker (get_output (c_pkgText c) p) \<noteq> '''') (c_pkgSeen c)"

definition results :: "collector \<Rightarrow> result list option" where
  "results c =
     (case test_results (c_tests c) (c_order c) of
        None \<Rightarrow> None
      | Some rs \<Rightarrow> Some (rs
          @ map (\<lambda>p. pseudo_result (p @ ''::(package)'')
              (''package output carries a race or sanitizer report outside any test: '' @ raceMarker (get_output (c_pkgText c) p)))
              (raced_packages c)
          @ map (\<lambda>p. pseudo_result (p @ ''::(package)'') ''package failed outside any test'')
              (filter (\<lambda>p. p \<notin> c_pkgHasFail c \<and> p \<notin> set (raced_packages c)) (c_pkgOrder c))
          @ map (\<lambda>p. pseudo_result (p @ ''::(build)'') ''build failed'') (c_buildFail c)))"


section \<open>run\<close>

definition exitGreen :: nat where [const_defs]: "exitGreen = 0"
definition exitRed :: nat where [const_defs]: "exitRed = 1"
definition exitUsage :: nat where [const_defs]: "exitUsage = 2"
definition exitExcused :: nat where [const_defs]: "exitExcused = 3"

definition summaryMatch :: "string \<Rightarrow> bool" where
  "summaryMatch t =
     (HasPrefix (dropWhile (\<lambda>c. c = CHR '' '' \<or> c = CHR 0x09) t) ''--- FAIL:'' \<or>
      HasPrefix t ''FAIL '' \<or> HasPrefix t (''FAIL'' @ [CHR 0x09]) \<or> HasPrefix t ''panic:'')"

datatype run_line = Report report | RedStream stream_err | RedNoResults

datatype printed =
    Echo string
  | RegistryUnreadable string string
  | Totals string nat nat nat
  | FailingTests "string list"
  | DataRaces nat
  | Line run_line
  | RED
  | OkExcused nat
  | Ok
  | TierUsage
  | TodayUsage

record flags =
  registryPath :: string
  tier_flag :: string
  todayFlag :: string
  edited_args :: "string list"

datatype read_error = ErrNotExist | ReadFailed string

text \<open>The lines of the summary: those of the joined text the pattern matches, or the note that there is none.\<close>

definition summary_lines :: "string list \<Rightarrow> string list" where
  "summary_lines txt =
     (let sum = map (\<lambda>t. ''    '' @ t) (filter summaryMatch (split_on CHR 0x0A (concat txt)))
      in if sum = [] then [''    (no FAIL line; read the output above)''] else sum)"

definition normal_tier :: "string \<Rightarrow> string option" where
  "normal_tier t = (if t = ''fast'' \<or> t = ''affected'' then Some ''fast'' else if t = ''full'' then Some ''full'' else None)"

definition today_of :: "date \<Rightarrow> flags \<Rightarrow> date option" where
  "today_of now f = (if todayFlag f \<noteq> '''' then parseDate (todayFlag f) else Some now)"

definition collect :: "(string \<Rightarrow> event option) \<Rightarrow> string list \<Rightarrow> string option \<Rightarrow> collector" where
  "collect decode raws scanErr =
     (let c = scan_lines decode 0 raws newCollector
      in case scanErr of None \<Rightarrow> c | Some msg \<Rightarrow> c\<lparr>c_errs := c_errs c @ [ReadingStream msg]\<rparr>)"

definition judge ::
  "string \<Rightarrow> string \<Rightarrow> string list \<Rightarrow> date \<Rightarrow> collector \<Rightarrow> (nat \<times> printed list) option"
where
  "judge registry tier edited today c =
     (case results c of
        None \<Rightarrow> None
      | Some rs \<Rightarrow>
          (case evaluate registry rs tier edited today of
             None \<Rightarrow> None
           | Some (red0, excused, report) \<Rightarrow>
               (case parseRegistry registry of
                  None \<Rightarrow> None
                | Some (entries, _) \<Rightarrow>
                    let empty = (length rs = 0 \<and> length (c_errs c) = 0);
                        red = (red0 \<or> 0 < length (c_errs c) \<or> empty);
                        lines = foldr (\<lambda>e ls. RedStream e # ls) (c_errs c) (map Report report) @ (if empty then [RedNoResults] else []);
                        failed = length (filter fails rs);
                        races = count_sub (concat (c_text c)) ''WARNING: DATA RACE'';
                        out = map Echo (c_w c) @ [Totals tier (length rs) failed (length entries)]
                          @ (if 0 < failed then [FailingTests (summary_lines (c_text c))] else [])
                          @ (if 0 < races then [DataRaces races] else [])
                          @ map Line lines
                    in if red then Some (exitRed, out @ [RED])
                       else if 0 < excused then Some (exitExcused, out @ [OkExcused excused])
                       else if 0 < failed then Some (exitRed, out @ [RED])
                       else Some (exitGreen, out @ [Ok]))))"

text \<open>\<open>parsed\<close> is what \<open>flag.Parse\<close> leaves, \<open>now\<close> the date of \<open>time.Now\<close>, \<open>readFile\<close> the file system, \<open>raws\<close> and
  \<open>scanErr\<close> the lines and the final error of the scanner over standard input.\<close>

definition run ::
  "(string \<Rightarrow> event option) \<Rightarrow> flags option \<Rightarrow> date \<Rightarrow> (string \<Rightarrow> read_error + string) \<Rightarrow> string list \<Rightarrow> string option
    \<Rightarrow> (nat \<times> printed list) option"
where
  "run decode parsed now readFile raws scanErr =
     (case parsed of
        None \<Rightarrow> Some (exitUsage, [])
      | Some f \<Rightarrow>
          (case normal_tier (tier_flag f) of
             None \<Rightarrow> Some (exitUsage, [TierUsage])
           | Some tier \<Rightarrow>
               (case today_of now f of
                  None \<Rightarrow> Some (exitUsage, [TodayUsage])
                | Some today \<Rightarrow>
                    (case readFile (registryPath f) of
                       Inl (ReadFailed msg) \<Rightarrow> Some (exitRed, [RegistryUnreadable (registryPath f) msg])
                     | Inl ErrNotExist \<Rightarrow> judge '''' tier (edited_args f) today (collect decode raws scanErr)
                     | Inr b \<Rightarrow> judge b tier (edited_args f) today (collect decode raws scanErr)))))"

section \<open>The collector as a fold over the accepted events\<close>

definition ok_event :: "event \<Rightarrow> bool" where
  "ok_event e \<longleftrightarrow> is_build e \<or> Package e \<noteq> '''' \<and> Action e \<noteq> ''''"

definition accepted :: "(string \<Rightarrow> event option) \<Rightarrow> string list \<Rightarrow> event list" where
  "accepted decode raws = filter ok_event (List.map_filter (\<lambda>raw. if TrimSpace raw = '''' then None else decode raw) raws)"

definition line_errs :: "(string \<Rightarrow> event option) \<Rightarrow> nat \<Rightarrow> string \<Rightarrow> stream_err list" where
  "line_errs decode n raw =
     (if TrimSpace raw = '''' then []
      else case decode raw of None \<Rightarrow> [NotJSON n] | Some e \<Rightarrow> if ok_event e then [] else [NoPackageAction n])"

primrec scan_errs :: "(string \<Rightarrow> event option) \<Rightarrow> nat \<Rightarrow> string list \<Rightarrow> stream_err list" where
  "scan_errs decode n [] = []"
| "scan_errs decode n (raw # raws) = line_errs decode (n + 1) raw @ scan_errs decode (n + 1) raws"

definition step :: "collector \<Rightarrow> event \<Rightarrow> collector" where
  "step c e = (if is_build e then build_event e c else if Test e = '''' then package_event e c else test_event e c)"

lemma step_cases:
  "is_build e \<Longrightarrow> step c e = build_event e c"
  "\<not> is_build e \<Longrightarrow> Test e = '''' \<Longrightarrow> step c e = package_event e c"
  "\<not> is_build e \<Longrightarrow> Test e \<noteq> '''' \<Longrightarrow> step c e = test_event e c"
  by (simp_all add: step_def)

lemma build_event_errs: "build_event e (c\<lparr>c_errs := x\<rparr>) = (build_event e c)\<lparr>c_errs := x\<rparr>" "c_errs (build_event e c) = c_errs c"
  by (simp_all add: build_event_def Let_def)

lemma package_event_errs: "package_event e (c\<lparr>c_errs := x\<rparr>) = (package_event e c)\<lparr>c_errs := x\<rparr>" "c_errs (package_event e c) = c_errs c"
  by (cases "Action e = ''output''"; cases "Action e = ''fail''"; simp add: package_event_def Let_def)+

lemma test_event_errs: "test_event e (c\<lparr>c_errs := x\<rparr>) = (test_event e c)\<lparr>c_errs := x\<rparr>" "c_errs (test_event e c) = c_errs c"
  by (cases "Action e = ''output''"; cases "Action e = ''fail''"; simp add: test_event_def Let_def)+

lemmas event_errs = build_event_errs package_event_errs test_event_errs

lemma step_errs: "step (c\<lparr>c_errs := x\<rparr>) e = (step c e)\<lparr>c_errs := x\<rparr>"
  by (simp add: step_def event_errs)

lemma step_keeps_errs [simp]: "c_errs (step c e) = c_errs c"
  by (simp add: step_def event_errs)

lemma steps_errs: "foldl step (c\<lparr>c_errs := x\<rparr>) es = (foldl step c es)\<lparr>c_errs := x\<rparr>"
  by (induction es arbitrary: c) (simp_all add: step_errs)

lemma line_step:
  "line decode n raw c = (foldl step c (accepted decode [raw]))\<lparr>c_errs := c_errs c @ line_errs decode n raw\<rparr>"
proof -
  have same: "c'\<lparr>c_errs := x\<rparr> = c'" if "c_errs c' = x" for c' :: collector and x using that by (cases c') simp
  show ?thesis
    by (cases "TrimSpace raw = ''''"; cases "decode raw")
      (simp_all add: line_def accepted_def line_errs_def ok_event_def map_filter_simps same step_def event_errs)
qed

lemma accepted_Cons: "accepted decode (raw # raws) = accepted decode [raw] @ accepted decode raws"
  by (simp add: accepted_def map_filter_simps split: option.split)

lemma scan_lines_fold:
  "scan_lines decode n raws c = (foldl step c (accepted decode raws))\<lparr>c_errs := c_errs c @ scan_errs decode n raws\<rparr>"
proof (induction raws arbitrary: n c)
  case Nil
  then show ?case by (simp add: accepted_def map_filter_simps)
next
  case (Cons raw raws)
  then show ?case by (simp add: line_step steps_errs accepted_Cons [of decode raw raws])
qed

text \<open>The errors are empty exactly when every line is blank or an event the collector takes.\<close>

definition clean_line :: "(string \<Rightarrow> event option) \<Rightarrow> string \<Rightarrow> bool" where
  "clean_line decode raw \<longleftrightarrow> TrimSpace raw = '''' \<or> (\<exists>e. decode raw = Some e \<and> ok_event e)"

lemma scan_errs_empty: "scan_errs decode n raws = [] \<longleftrightarrow> list_all (clean_line decode) raws"
  by (induction raws arbitrary: n) (auto simp: line_errs_def clean_line_def split: option.split)


section \<open>One test in an interleaved stream\<close>

definition own :: "string \<Rightarrow> event list \<Rightarrow> event list" where
  "own tid es = filter (\<lambda>e. \<not> is_build e \<and> Test e \<noteq> '''' \<and> test_id e = tid) es"

definition test_of :: "string \<Rightarrow> event list \<Rightarrow> result" where
  "test_of tid es = foldl test_step (new_result tid) (own tid es)"

definition the_tests :: "event list \<Rightarrow> string list" where
  "the_tests es = rev (remdups (rev (map test_id (filter (\<lambda>e. \<not> is_build e \<and> Test e \<noteq> '''') es))))"

lemma build_event_tests [simp]: "c_tests (build_event e c) = c_tests c" "c_order (build_event e c) = c_order c"
  "c_pkgHasFail (build_event e c) = c_pkgHasFail c" "c_pkgOrder (build_event e c) = c_pkgOrder c"
  "c_pkgFail (build_event e c) = c_pkgFail c" "c_pkgText (build_event e c) = c_pkgText c" "c_pkgSeen (build_event e c) = c_pkgSeen c"
  by (simp_all add: build_event_def Let_def)

lemma package_event_tests [simp]: "c_tests (package_event e c) = c_tests c" "c_order (package_event e c) = c_order c"
  "c_pkgHasFail (package_event e c) = c_pkgHasFail c" "c_buildFail (package_event e c) = c_buildFail c"
  by (simp_all add: package_event_def Let_def)

lemma test_event_packages [simp]: "c_pkgFail (test_event e c) = c_pkgFail c" "c_pkgOrder (test_event e c) = c_pkgOrder c"
  "c_pkgText (test_event e c) = c_pkgText c" "c_pkgSeen (test_event e c) = c_pkgSeen c" "c_buildFail (test_event e c) = c_buildFail c"
  by (simp_all add: test_event_def Let_def)

lemma test_event_tests:
  "c_tests (test_event e c) =
     (c_tests c)(test_id e \<mapsto> test_step (case c_tests c (test_id e) of None \<Rightarrow> new_result (test_id e) | Some t \<Rightarrow> t) e)"
  "c_order (test_event e c) = c_order c @ (if c_tests c (test_id e) = None then [test_id e] else [])"
  "c_pkgHasFail (test_event e c) = (if Action e = ''fail'' then insert (Package e) (c_pkgHasFail c) else c_pkgHasFail c)"
  by (simp_all add: test_event_def Let_def)

lemma steps_tests:
  "c_tests (foldl step newCollector es) tid = (if own tid es = [] then None else Some (test_of tid es))"
proof (induction es arbitrary: tid rule: rev_induct)
  case (snoc e es)
  then show ?case
    by (cases "is_build e"; cases "Test e = ''''") (auto simp: step_cases own_def test_of_def test_event_tests)
qed (simp add: newCollector_def own_def)

lemma steps_order: "c_order (foldl step newCollector es) = the_tests es"
proof (induction es rule: rev_induct)
  case (snoc e es)
  have "own (test_id e) es = [] \<longleftrightarrow> test_id e \<notin> test_id ` {x \<in> set es. \<not> is_build x \<and> Test x \<noteq> ''''}"
    unfolding own_def filter_empty_conv image_iff eq_commute [of "test_id e"] by blast
  then show ?case using snoc
    by (cases "is_build e"; cases "Test e = ''''") (auto simp: step_cases test_event_tests steps_tests the_tests_def)
qed (simp add: newCollector_def the_tests_def)

text \<open>(C9) Demultiplexing: whatever the stream interleaves, what the collector holds for a test id is what a
  machine fed only that id's own events would hold, and the ids come out in the order of their first event.
  So the events of other tests, packages and builds never change a test's verdict, output or failed runs.\<close>

theorem collector_per_test:
  "c_tests (collect decode raws scanErr) tid =
     (if own tid (accepted decode raws) = [] then None else Some (test_of tid (accepted decode raws))) \<and>
   c_order (collect decode raws scanErr) = the_tests (accepted decode raws)"
  by (simp add: collect_def Let_def scan_lines_fold steps_tests steps_order split: option.split)

lemma test_of_machine:
  "r_test (foldl test_step (new_result tid) es) = tid"
  "r_status (foldl test_step (new_result tid) es) = ''fail'' \<longleftrightarrow> (\<exists>e. e \<in> set es \<and> Action e = ''fail'')"
  "r_output (foldl test_step (new_result tid) es) = concat (map Output (filter (\<lambda>e. Action e = ''output'') es))"
  "length (r_failedRuns (foldl test_step (new_result tid) es)) = length (filter (\<lambda>e. Action e = ''fail'') es)"
  by (induction es rule: rev_induct) (auto simp: new_result_def test_step_def)

lemma steps_has_fail:
  "c_pkgHasFail (foldl step newCollector es) =
     Package ` {e \<in> set es. \<not> is_build e \<and> Test e \<noteq> '''' \<and> Action e = ''fail''}"
proof (induction es rule: rev_induct)
  case (snoc e es)
  then show ?case
    by (cases "is_build e"; cases "Test e = ''''") (auto simp: step_cases test_event_tests)
qed (simp add: newCollector_def)

lemma package_event_fields:
  "set (c_pkgOrder (package_event e c)) = set (c_pkgOrder c) \<union> (if Action e = ''fail'' \<and> Package e \<notin> c_pkgFail c then {Package e} else {})"
  "c_pkgFail (package_event e c) = c_pkgFail c \<union> (if Action e = ''fail'' then {Package e} else {})"
  "set (c_pkgSeen (package_event e c)) = set (c_pkgSeen c) \<union>
     (if Action e = ''output'' \<and> c_pkgText c (Package e) = None then {Package e} else {})"
  "c_pkgText (package_event e c) = (if Action e = ''output''
     then (c_pkgText c)(Package e \<mapsto> get_output (c_pkgText c) (Package e) @ Output e) else c_pkgText c)"
  by (cases "Action e = ''output''"; cases "Action e = ''fail''"; simp add: package_event_def Let_def)+

lemma build_event_fields: "c_buildFail (build_event e c) = c_buildFail c @ (if Action e = ''build-fail'' then [ImportPath e] else [])"
  by (simp add: build_event_def Let_def)

lemma steps_pkg_order:
  "c_pkgFail (foldl step newCollector es) = Package ` {e \<in> set es. \<not> is_build e \<and> Test e = '''' \<and> Action e = ''fail''} \<and>
   set (c_pkgOrder (foldl step newCollector es)) = c_pkgFail (foldl step newCollector es)"
proof (induction es rule: rev_induct)
  case (snoc e es)
  then show ?case
    by (cases "is_build e"; cases "Test e = ''''") (auto simp: step_cases package_event_fields)
qed (simp add: newCollector_def)

lemma steps_build_fail:
  "c_buildFail (foldl step newCollector es) = map ImportPath (filter (\<lambda>e. is_build e \<and> Action e = ''build-fail'') es)"
proof (induction es rule: rev_induct)
  case (snoc e es)
  then show ?case
    by (cases "is_build e"; cases "Test e = ''''") (auto simp: step_cases build_event_fields)
qed (simp add: newCollector_def)

definition package_output :: "string \<Rightarrow> event list \<Rightarrow> event list" where
  "package_output p es = filter (\<lambda>e. \<not> is_build e \<and> Test e = '''' \<and> Package e = p \<and> Action e = ''output'') es"

lemma steps_pkg_text:
  "get_output (c_pkgText (foldl step newCollector es)) p = concat (map Output (package_output p es)) \<and>
   (c_pkgText (foldl step newCollector es) p = None \<longleftrightarrow> package_output p es = []) \<and>
   (p \<in> set (c_pkgSeen (foldl step newCollector es)) \<longleftrightarrow> package_output p es \<noteq> [])"
proof (induction es arbitrary: p rule: rev_induct)
  case (snoc e es)
  show ?case
    using snoc [of p] snoc [of "Package e"]
    by (cases "is_build e"; cases "Test e = ''''")
      (auto simp: step_cases package_event_fields package_output_def get_output_def split: option.splits)
qed (simp add: newCollector_def package_output_def get_output_def)

section \<open>Results of a stream\<close>

definition closed :: "result \<Rightarrow> result" where
  "closed r = (if r_open r then r\<lparr>r_status := ''''\<rparr> else r)"

definition package_races :: "collector \<Rightarrow> result list" where
  "package_races c = map (\<lambda>p. pseudo_result (p @ ''::(package)'')
     (''package output carries a race or sanitizer report outside any test: '' @ raceMarker (get_output (c_pkgText c) p)))
     (raced_packages c)"

definition package_fails :: "collector \<Rightarrow> result list" where
  "package_fails c = map (\<lambda>p. pseudo_result (p @ ''::(package)'') ''package failed outside any test'')
     (filter (\<lambda>p. p \<notin> c_pkgHasFail c \<and> p \<notin> set (raced_packages c)) (c_pkgOrder c))"

definition build_fails :: "collector \<Rightarrow> result list" where
  "build_fails c = map (\<lambda>p. pseudo_result (p @ ''::(build)'') ''build failed'') (c_buildFail c)"

lemma test_results_all:
  "(\<And>tid. tid \<in> set tids \<Longrightarrow> tests tid = Some (f tid)) \<Longrightarrow> test_results tests tids = Some (map (\<lambda>tid. closed (f tid)) tids)"
  by (induction tids) (simp_all add: closed_def)

lemma collect_fields:
  "c_tests (collect decode raws scanErr) = c_tests (foldl step newCollector (accepted decode raws))"
  "c_order (collect decode raws scanErr) = the_tests (accepted decode raws)"
  "c_pkgHasFail (collect decode raws scanErr) = c_pkgHasFail (foldl step newCollector (accepted decode raws))"
  "c_pkgOrder (collect decode raws scanErr) = c_pkgOrder (foldl step newCollector (accepted decode raws))"
  "c_pkgText (collect decode raws scanErr) = c_pkgText (foldl step newCollector (accepted decode raws))"
  "c_pkgSeen (collect decode raws scanErr) = c_pkgSeen (foldl step newCollector (accepted decode raws))"
  "c_buildFail (collect decode raws scanErr) = c_buildFail (foldl step newCollector (accepted decode raws))"
  by (simp_all add: collect_def Let_def scan_lines_fold steps_order split: option.split)

lemma collect_errs: "c_errs (collect decode raws scanErr) = [] \<longleftrightarrow> list_all (clean_line decode) raws \<and> scanErr = None"
  by (simp add: collect_def Let_def scan_lines_fold newCollector_def scan_errs_empty split: option.split)

lemma in_the_tests: "tid \<in> set (the_tests es) \<longleftrightarrow> own tid es \<noteq> []"
  by (auto simp: the_tests_def own_def filter_empty_conv)

lemma distinct_the_tests: "distinct (the_tests es)"
  by (simp add: the_tests_def)

lemma results_collect:
  "results (collect decode raws scanErr) =
     (let es = accepted decode raws; c = collect decode raws scanErr
      in Some (map (\<lambda>tid. closed (test_of tid es)) (the_tests es) @ package_races c @ package_fails c @ build_fails c))"
proof -
  have "test_results (c_tests (collect decode raws scanErr)) (c_order (collect decode raws scanErr)) =
      Some (map (\<lambda>tid. closed (test_of tid (accepted decode raws))) (the_tests (accepted decode raws)))"
    unfolding collect_fields by (rule test_results_all) (simp add: in_the_tests steps_tests)
  then show ?thesis by (simp add: results_def package_races_def package_fails_def build_fails_def Let_def)
qed


section \<open>Exit codes\<close>

lemma judge_code:
  assumes "results c = Some rs" "evaluate registry rs tier edited today = Some (red, excused, lines)" "parseRegistry registry = Some p"
  shows "map_option fst (judge registry tier edited today c) =
    Some (if red \<or> c_errs c \<noteq> [] \<or> rs = [] then 1 else if 0 < excused then 3 else if filter fails rs \<noteq> [] then 1 else 0)"
  by (cases p) (simp add: judge_def assms Let_def const_defs)

lemma exit_code_bits:
  fixes code n :: nat
  assumes "nf \<longrightarrow> n = 0" "red = False \<and> n = 0 \<longrightarrow> nf"
    "code = (if red \<or> \<not> e \<or> m then 1 else if 0 < n then 3 else if \<not> nf then 1 else 0)"
  shows "code \<in> {0, 1, 3} \<and> (code = 0 \<longleftrightarrow> e \<and> \<not> m \<and> \<not> red \<and> nf) \<and> (code = 3 \<longleftrightarrow> e \<and> \<not> m \<and> \<not> red \<and> \<not> nf)"
  using assms by auto

lemma judge_exit:
  assumes rs: "results c = Some rs"
  shows "\<exists>code out red excused lines. judge registry tier edited today c = Some (code, out) \<and>
     evaluate registry rs tier edited today = Some (red, excused, lines) \<and> code \<in> {0, 1, 3} \<and>
     (code = 0 \<longleftrightarrow> c_errs c = [] \<and> rs \<noteq> [] \<and> \<not> red \<and> filter fails rs = []) \<and>
     (code = 3 \<longleftrightarrow> c_errs c = [] \<and> rs \<noteq> [] \<and> \<not> red \<and> filter fails rs \<noteq> [])"
proof -
  from evaluate_verdict [of registry rs tier edited today]
  obtain entries errs red excused where p: "parseRegistry registry = Some (entries, errs)"
    and ev: "evaluate registry rs tier edited today = Some (red, excused, report_of rs tier edited today entries errs)"
    and exc: "excused = length (filter (direct (byID_of entries) tier (set edited)) rs)" by blast
  have some: "filter fails rs = [] \<longrightarrow> excused = 0" unfolding exc by (simp add: filter_empty_conv direct_def)
  have none: "red = False \<and> excused = 0 \<longrightarrow> filter fails rs = []"
    using ev green_without_excuse [of registry rs tier edited today] by blast
  obtain y where y: "judge registry tier edited today c = Some y"
    and code: "fst y = (if red \<or> \<not> c_errs c = [] \<or> rs = [] then 1 else if 0 < excused then 3 else if \<not> filter fails rs = [] then 1 else 0)"
    using judge_code [OF rs ev p] unfolding map_option_eq_Some by blast
  have "judge registry tier edited today c = Some (fst y, snd y)" unfolding y by simp
  note j = this and bits = exit_code_bits [OF some none code]
  show ?thesis
    by (rule exI [of _ "fst y"], rule exI [of _ "snd y"], rule exI [of _ red], rule exI [of _ excused], rule exI,
        rule conjI [OF j], rule conjI [OF ev], rule bits)
qed

definition flags_ok :: "date \<Rightarrow> flags option \<Rightarrow> bool" where
  "flags_ok now parsed = (case parsed of None \<Rightarrow> False | Some f \<Rightarrow> normal_tier (tier_flag f) \<noteq> None \<and> today_of now f \<noteq> None)"

lemma flags_ok_cases:
  obtains "parsed = None" "\<not> flags_ok now parsed"
  | f where "parsed = Some f" "normal_tier (tier_flag f) = None" "\<not> flags_ok now parsed"
  | f tier where "parsed = Some f" "normal_tier (tier_flag f) = Some tier" "today_of now f = None" "\<not> flags_ok now parsed"
  | f tier today where "parsed = Some f" "normal_tier (tier_flag f) = Some tier" "today_of now f = Some today" "flags_ok now parsed"
proof (cases parsed)
  case None
  then show ?thesis using that(1) by (simp add: flags_ok_def)
next
  case (Some f)
  show ?thesis
  proof (cases "normal_tier (tier_flag f)")
    case None
    then show ?thesis using that(2) [OF Some] Some by (simp add: flags_ok_def)
  next
    case t: (Some tier)
    show ?thesis
    proof (cases "today_of now f")
      case None
      then show ?thesis using that(3) [OF Some t] Some by (simp add: flags_ok_def)
    next
      case d: (Some today)
      then show ?thesis using that(4) [OF Some t d] Some t by (simp add: flags_ok_def)
    qed
  qed
qed

lemma run_cases:
  obtains (usage) out where "\<not> flags_ok now parsed" "run decode parsed now readFile raws scanErr = Some (2, out)"
  | (unreadable) out where "flags_ok now parsed" "run decode parsed now readFile raws scanErr = Some (1, out)"
  | (judged) f registry tier today where "flags_ok now parsed" "parsed = Some f" "normal_tier (tier_flag f) = Some tier"
    "run decode parsed now readFile raws scanErr = judge registry tier (edited_args f) today (collect decode raws scanErr)"
proof (cases rule: flags_ok_cases [of parsed now])
  case 1
  then show ?thesis using usage [of "[]"] by (simp add: run_def const_defs)
next
  case (2 f)
  then show ?thesis using usage [of "[TierUsage]"] by (simp add: run_def const_defs)
next
  case (3 f tier)
  then show ?thesis using usage [of "[TodayUsage]"] by (simp add: run_def const_defs)
next
  case (4 f tier today)
  note r = run_def [of decode parsed now readFile raws scanErr, unfolded 4(1) option.case 4(2,3), folded 4(1)]
  note j = judged [OF 4(4,1,2)]
  show ?thesis
  proof (cases "readFile (registryPath f)")
    case (Inl e)
    show ?thesis
    proof (cases e)
      case ErrNotExist
      show ?thesis using r [unfolded Inl sum.case ErrNotExist read_error.case] by (rule j)
    next
      case (ReadFailed msg)
      then show ?thesis using unreadable [OF 4(4)] r [unfolded Inl sum.case ReadFailed read_error.case] by (simp add: const_defs)
    qed
  next
    case (Inr b)
    show ?thesis using r [unfolded Inr sum.case] by (rule j)
  qed
qed

text \<open>(C12) The checker always ends with one of its four exit codes, without a panic, on any flags, registry
  text and stream: 2 is exactly a usage error.\<close>

theorem run_total:
  "\<exists>code out. run decode parsed now readFile raws scanErr = Some (code, out) \<and> code \<in> {0, 1, 2, 3} \<and> (code = 2 \<longleftrightarrow> \<not> flags_ok now parsed)"
proof (cases rule: run_cases [of now parsed decode readFile raws scanErr])
  case (judged f registry tier today)
  obtain rs where rs: "results (collect decode raws scanErr) = Some rs" by (simp add: results_collect Let_def)
  show ?thesis using judge_exit [OF rs, of registry tier "edited_args f" today] judged by auto
qed simp_all

text \<open>A run that ends green was judged green on the results of a clean stream.\<close>

lemma run_green_judged:
  assumes r: "run decode parsed now readFile raws scanErr = Some (code, out)" and code: "code = 0 \<or> code = 3"
  obtains f registry tier entries errs rs where
    "parsed = Some f" "normal_tier (tier_flag f) = Some tier" "list_all (clean_line decode) raws" "scanErr = None"
    "results (collect decode raws scanErr) = Some rs" "rs \<noteq> []" "parseRegistry registry = Some (entries, errs)"
    "list_all (result_green entries tier (set (edited_args f)) rs) rs" "code = 0 \<longleftrightarrow> filter fails rs = []"
proof (cases rule: run_cases [of now parsed decode readFile raws scanErr])
  case (judged f registry tier today)
  obtain rs where rs: "results (collect decode raws scanErr) = Some rs" by (simp add: results_collect Let_def)
  obtain red excused lines where j: "evaluate registry rs tier (edited_args f) today = Some (red, excused, lines)"
    "code = 0 \<longleftrightarrow> c_errs (collect decode raws scanErr) = [] \<and> rs \<noteq> [] \<and> \<not> red \<and> filter fails rs = []"
    "code = 3 \<longleftrightarrow> c_errs (collect decode raws scanErr) = [] \<and> rs \<noteq> [] \<and> \<not> red \<and> filter fails rs \<noteq> []"
    using judge_exit [OF rs, of registry tier "edited_args f" today] r unfolding judged(4) by auto
  have g: "c_errs (collect decode raws scanErr) = []" "rs \<noteq> []" "\<not> red" using j(2,3) code by blast+
  have zero: "code = 0 \<longleftrightarrow> filter fails rs = []" using j(2) g by blast
  from evaluate_verdict [of registry rs tier "edited_args f" today] j(1)
  obtain entries errs where p: "parseRegistry registry = Some (entries, errs)"
    "list_all (result_green entries tier (set (edited_args f)) rs) rs" using g(3) by auto
  show ?thesis
    by (rule that [OF judged(2,3) _ _ rs g(2) p zero]) (use g(1) in \<open>simp_all add: collect_errs\<close>)
qed (use r code in simp_all)

lemma test_in_results:
  assumes "results (collect decode raws scanErr) = Some rs" "own tid (accepted decode raws) \<noteq> []"
  shows "closed (test_of tid (accepted decode raws)) \<in> set rs"
  using assms by (auto simp: results_collect Let_def in_the_tests)

lemma test_of_facts:
  "r_test (test_of tid es) = tid"
  "r_status (test_of tid es) = ''fail'' \<longleftrightarrow> (\<exists>e. e \<in> set (own tid es) \<and> Action e = ''fail'')"
  "r_output (test_of tid es) = concat (map Output (filter (\<lambda>e. Action e = ''output'') (own tid es)))"
  by (simp_all add: test_of_def test_of_machine)

definition unpassed :: "result \<Rightarrow> bool" where
  "unpassed r \<longleftrightarrow> \<not> (r_status r = ''pass'' \<or> r_status r = ''skip'')"

lemma closed_unpassed: "r_status r = ''fail'' \<Longrightarrow> unpassed (closed r)"
  by (simp add: unpassed_def closed_def)

lemma pseudo_unpassed: "unpassed (pseudo_result t o1)"
  by (simp add: unpassed_def pseudo_result_def)

lemma failing_test_result:
  assumes rs: "results (collect decode raws scanErr) = Some rs" and e: "e \<in> set (accepted decode raws)"
    and t: "\<not> is_build e" "Test e \<noteq> ''''" "Action e = ''fail''"
  shows "\<exists>r \<in> set rs. unpassed r"
proof -
  let ?es = "accepted decode raws"
  have own: "e \<in> set (own (test_id e) ?es)" using e t by (simp add: own_def)
  then have "r_status (test_of (test_id e) ?es) = ''fail''" using t(3) unfolding test_of_facts by blast
  moreover have "own (test_id e) ?es \<noteq> []" using own by (cases "own (test_id e) ?es") simp_all
  ultimately show ?thesis using test_in_results [OF rs] closed_unpassed by blast
qed

lemma pseudo_results:
  assumes "results (collect decode raws scanErr) = Some rs"
  shows "set (package_races (collect decode raws scanErr)) \<subseteq> set rs" "set (package_fails (collect decode raws scanErr)) \<subseteq> set rs"
    "set (build_fails (collect decode raws scanErr)) \<subseteq> set rs"
  using assms by (auto simp: results_collect Let_def)

lemma failing_event_result:
  assumes rs: "results (collect decode raws scanErr) = Some rs" and e: "e \<in> set (accepted decode raws)"
    and bad: "Action e = ''fail'' \<and> \<not> is_build e \<or> Action e = ''build-fail'' \<and> is_build e"
  shows "\<exists>r \<in> set rs. unpassed r"
proof -
  let ?es = "accepted decode raws" and ?c = "collect decode raws scanErr"
  have pseudo: ?thesis if "pseudo_result t o1 \<in> set rs" for t o1 using that pseudo_unpassed by blast
  consider "is_build e" "Action e = ''build-fail''" | "\<not> is_build e" "Test e \<noteq> ''''" "Action e = ''fail''"
    | "\<not> is_build e" "Test e = ''''" "Action e = ''fail''" using bad by blast
  then show ?thesis
  proof cases
    case 1
    then have "ImportPath e \<in> set (c_buildFail ?c)" using e by (simp add: collect_fields steps_build_fail)
    then have "pseudo_result (ImportPath e @ ''::(build)'') ''build failed'' \<in> set (build_fails ?c)"
      unfolding build_fails_def set_map by (rule imageI)
    then show ?thesis using pseudo pseudo_results(3) [OF rs] by blast
  next
    case 2
    then show ?thesis by (rule failing_test_result [OF rs e])
  next
    case 3
    then have ord: "Package e \<in> set (c_pkgOrder ?c)" using e steps_pkg_order [of ?es] by (auto simp: collect_fields)
    consider "Package e \<in> c_pkgHasFail ?c" | "Package e \<in> set (raced_packages ?c)"
      | "Package e \<in> set (filter (\<lambda>p. p \<notin> c_pkgHasFail ?c \<and> p \<notin> set (raced_packages ?c)) (c_pkgOrder ?c))"
      using ord by auto
    then show ?thesis
    proof cases
      case 1
      then show ?thesis using failing_test_result [OF rs] by (auto simp: collect_fields steps_has_fail)
    next
      case 2
      then show ?thesis using pseudo pseudo_results(1) [OF rs] unfolding package_races_def set_map by blast
    next
      case 3
      then show ?thesis using pseudo pseudo_results(2) [OF rs] unfolding package_fails_def set_map by blast
    qed
  qed
qed

lemma pseudo_parts_unpassed:
  "r \<in> set (package_races c) \<union> set (package_fails c) \<union> set (build_fails c) \<Longrightarrow> unpassed r"
  unfolding package_races_def package_fails_def build_fails_def set_map using pseudo_unpassed by blast

definition failure_event :: "event \<Rightarrow> bool" where
  "failure_event e \<longleftrightarrow> Action e = ''fail'' \<and> \<not> is_build e \<or> Action e = ''build-fail'' \<and> is_build e"

lemma closed_passed: "\<not> unpassed (closed r) \<longleftrightarrow> (r_status r = ''pass'' \<or> r_status r = ''skip'') \<and> \<not> r_open r"
  by (simp add: unpassed_def closed_def)

text \<open>(C6) What exit status 0 promises about the stream: every line was blank or a usable event, the stream was
  read to its end, it holds a test, no event reports the failure of a test, a package or a build, and the last
  run of every test ended with a pass or a skip.\<close>

theorem run_green:
  assumes r: "run decode parsed now readFile raws scanErr = Some (0, out)"
  shows "list_all (clean_line decode) raws \<and> scanErr = None \<and> the_tests (accepted decode raws) \<noteq> [] \<and>
    list_all (\<lambda>e. \<not> failure_event e) (accepted decode raws) \<and>
    list_all (\<lambda>tid. (r_status (test_of tid (accepted decode raws)) = ''pass'' \<or> r_status (test_of tid (accepted decode raws)) = ''skip'') \<and>
      \<not> r_open (test_of tid (accepted decode raws))) (the_tests (accepted decode raws))"
proof -
  have zero: "(0 :: nat) = 0 \<or> (0 :: nat) = 3" by simp
  show ?thesis
  proof (cases rule: run_green_judged [OF r zero])
    case (1 f registry tier entries errs rs)
    let ?es = "accepted decode raws"
    note clean = 1(3,4) and rs = 1(5,6) and g = 1(8)
    have none: "filter fails rs = []" using 1(9) by simp
    have passed: "\<not> unpassed x" if x: "x \<in> set rs" for x
    proof -
      have "result_green entries tier (set (edited_args f)) rs x" "\<not> fails x"
        using g none x by (simp_all add: list_all_iff filter_empty_conv)
      then show ?thesis unfolding result_green_def unpassed_def fails_def by blast
    qed
    have "\<not> failure_event e" if "e \<in> set ?es" for e
      using failing_event_result [OF rs(1) that] passed unfolding failure_event_def by blast
    moreover have "the_tests ?es \<noteq> []"
    proof
      assume "the_tests ?es = []"
      then have "set rs \<subseteq> {r. unpassed r}"
        using rs(1) pseudo_parts_unpassed by (auto simp: results_collect Let_def)
      then show False using rs(2) passed by (cases rs) auto
    qed
    moreover have "(r_status (test_of tid ?es) = ''pass'' \<or> r_status (test_of tid ?es) = ''skip'') \<and> \<not> r_open (test_of tid ?es)"
      if "tid \<in> set (the_tests ?es)" for tid
      using passed [OF test_in_results [OF rs(1)]] that unfolding in_the_tests closed_passed by blast
    ultimately show ?thesis using clean by (simp add: list_all_iff)
  qed
qed

section \<open>Races\<close>

lemma outputs_append: "outputs_of (xs @ ys) t = (case outputs_of ys t of None \<Rightarrow> outputs_of xs t | Some o1 \<Rightarrow> Some o1)"
  by (simp add: outputs_of_def map_add_def split: option.split)

lemma outputs_None: "outputs_of rs t = None \<longleftrightarrow> t \<notin> r_test ` set (filter fails rs)"
  by (force simp: outputs_of_def map_of_eq_None_iff)

lemma outputs_in: "outputs_of rs t = Some o1 \<Longrightarrow> \<exists>r \<in> set rs. fails r \<and> r_test r = t \<and> r_output r = o1"
  by (auto simp: outputs_of_def dest!: map_of_SomeD)

lemma raceMarker_found: "raceMarker s = '''' \<longleftrightarrow> (\<forall>m \<in> set raceMarkers. \<not> contains_sub s m)"
proof -
  have ne: "m \<noteq> ''''" if "m \<in> set raceMarkers" for m using that by (auto simp: raceMarkers_def)
  show ?thesis
  proof (cases "find (contains_sub s) raceMarkers")
    case None
    then have "\<not> (\<exists>m. m \<in> set raceMarkers \<and> contains_sub s m)" unfolding find_None_iff .
    moreover have "raceMarker s = ''''" unfolding raceMarker_def None by simp
    ultimately show ?thesis by blast
  next
    case (Some m)
    then have "m \<in> set raceMarkers" "contains_sub s m" by (auto simp: find_Some_iff)
    moreover have "raceMarker s = m" unfolding raceMarker_def Some by simp
    ultimately show ?thesis using ne by blast
  qed
qed

lemma raceMarker_member: "raceMarker s \<noteq> '''' \<Longrightarrow> raceMarker s \<in> set raceMarkers"
proof (cases "find (contains_sub s) raceMarkers")
  case (Some m)
  then have "m \<in> set raceMarkers" by (auto simp: find_Some_iff)
  then show ?thesis unfolding raceMarker_def Some by simp
qed (simp add: raceMarker_def)

lemma raceMarker_carries: "raceMarker s \<noteq> '''' \<Longrightarrow> raceMarker (u @ raceMarker s) \<noteq> ''''"
  using raceMarker_member [of s] unfolding raceMarker_found [of "u @ raceMarker s"] contains_sub_iff by force

text \<open>A race report outside any test is never green: its pseudo-result has no failed run to match a
  signature, and its own output carries the marker.\<close>

lemma green_races:
  assumes rs: "results (collect decode raws scanErr) = Some rs"
    and g: "list_all (result_green entries tier E rs) rs"
  shows "raced_packages (collect decode raws scanErr) = []"
proof (rule ccontr)
  let ?c = "collect decode raws scanErr"
  assume "raced_packages ?c \<noteq> []"
  then obtain p where p: "p \<in> set (raced_packages ?c)" by (cases "raced_packages ?c") auto
  let ?t = "p @ ''::(package)''"
  let ?o = "\<lambda>q. ''package output carries a race or sanitizer report outside any test: '' @ raceMarker (get_output (c_pkgText ?c) q)"
  let ?r = "pseudo_result ?t (?o p)"
  have mem: "?r \<in> set (package_races ?c)" unfolding package_races_def set_map by (rule imageI) (rule p)
  have "result_green entries tier E rs ?r" using g mem pseudo_results(1) [OF rs] by (auto simp: list_all_iff)
  then have cov: "covered_by_subtests entries tier E rs ?t"
    by (auto simp: result_green_def pseudo_result_def new_result_def excused_by_def carriedByEveryRun_def)
  obtain tests where split: "rs = tests @ package_races ?c @ package_fails ?c @ build_fails ?c"
    using rs by (auto simp: results_collect Let_def)
  have "outputs_of (build_fails ?c) ?t = None"
    unfolding outputs_None by (auto simp: build_fails_def pseudo_result_def new_result_def dest: arg_cong [where f = last])
  moreover have "outputs_of (package_fails ?c) ?t = None"
    unfolding outputs_None using p by (auto simp: package_fails_def pseudo_result_def new_result_def)
  moreover have "outputs_of (package_races ?c) ?t = Some (?o p)"
  proof (cases "outputs_of (package_races ?c) ?t")
    case None
    then show ?thesis using mem unfolding outputs_None by (force simp: fails_def pseudo_result_def new_result_def)
  next
    case (Some o1)
    then show ?thesis by (auto dest!: outputs_in simp: package_races_def pseudo_result_def new_result_def)
  qed
  ultimately have "outputs_of rs ?t = Some (?o p)" unfolding split outputs_append by simp
  then have "raceMarker (?o p) = ''''" using cov by (simp add: covered_by_subtests_def Let_def get_output_def)
  moreover have "raceMarker (get_output (c_pkgText ?c) p) \<noteq> ''''" using p by (simp add: raced_packages_def)
  ultimately show False using raceMarker_carries by blast
qed

text \<open>Ids that a pseudo-result of a package or a build can have.\<close>

definition pseudo_id :: "string \<Rightarrow> bool" where
  "pseudo_id t \<longleftrightarrow> (\<exists>p. t = p @ ''::(package)'' \<or> t = p @ ''::(build)'')"

lemma pseudo_parts_outputs:
  "\<not> pseudo_id t \<Longrightarrow> outputs_of (package_races c @ package_fails c @ build_fails c) t = None"
  unfolding outputs_None pseudo_id_def
  by (auto simp: package_races_def package_fails_def build_fails_def pseudo_result_def new_result_def)

lemma test_output:
  assumes rs: "results (collect decode raws scanErr) = Some rs" and t: "\<not> pseudo_id tid"
    and r: "r = closed (test_of tid (accepted decode raws))" "fails r" "own tid (accepted decode raws) \<noteq> []"
  shows "get_output (outputs_of rs) tid = r_output r"
proof -
  let ?es = "accepted decode raws" and ?c = "collect decode raws scanErr"
  let ?tests = "map (\<lambda>tid. closed (test_of tid ?es)) (the_tests ?es)"
  have closed_id: "r_test (closed x) = r_test x" for x by (simp add: closed_def)
  have "rs = ?tests @ package_races ?c @ package_fails ?c @ build_fails ?c" using rs by (simp add: results_collect Let_def)
  then have o: "outputs_of rs tid = outputs_of ?tests tid" using pseudo_parts_outputs [OF t, of ?c] by (simp add: outputs_append)
  have mem: "r \<in> set ?tests" using r(1,3) unfolding in_the_tests [symmetric] by simp
  have id_r: "r_test r = tid" by (simp add: r(1) closed_id test_of_facts)
  show ?thesis
  proof (cases "outputs_of ?tests tid")
    case None
    then have "tid \<notin> r_test ` set (filter fails ?tests)" unfolding outputs_None .
    then show ?thesis using mem r(2) id_r by auto
  next
    case (Some o1)
    then obtain x where x: "x \<in> set ?tests" "r_test x = tid" "r_output x = o1" using outputs_in by blast
    then have "x = r" unfolding r(1) by (auto simp: closed_id test_of_facts)
    then show ?thesis using x(3) Some o by (simp add: get_output_def)
  qed
qed

text \<open>(C7) No green exit hides a race: when the checker exits 0 or 3, no package printed a race or sanitizer report
  outside its tests, and no failed test's output carries one, whatever the registry lists. And a run in the full
  tier never exits 3. (Ids of the form that package and build results have are the collector's own.)\<close>

theorem run_hides_no_race:
  assumes r: "run decode parsed now readFile raws scanErr = Some (code, out)" and code: "code = 0 \<or> code = 3"
  shows "raceMarker (concat (map Output (package_output p (accepted decode raws)))) = '''' \<and>
    list_all (\<lambda>tid. raceMarker (r_output (test_of tid (accepted decode raws))) = '''')
      (filter (\<lambda>tid. r_status (test_of tid (accepted decode raws)) = ''fail'' \<and> \<not> pseudo_id tid) (the_tests (accepted decode raws))) \<and>
    \<not> (code = 3 \<and> map_option tier_flag parsed = Some ''full'')"
proof (cases rule: run_green_judged [OF r code])
  case (1 f registry tier entries errs rs)
  let ?es = "accepted decode raws" and ?c = "collect decode raws scanErr"
  note rs = 1(5) and g = 1(8)
  have "raceMarker (get_output (c_pkgText ?c) p) = ''''"
  proof (cases "package_output p ?es = []")
    case True
    then show ?thesis using steps_pkg_text [of ?es p] by (simp add: collect_fields raceMarker_found raceMarkers_def)
  next
    case False
    then have "p \<in> set (c_pkgSeen ?c)" using steps_pkg_text [of ?es p] by (simp add: collect_fields)
    then show ?thesis using green_races [OF rs g] by (auto simp: raced_packages_def filter_empty_conv)
  qed
  then have pkg: "raceMarker (concat (map Output (package_output p ?es))) = ''''"
    using steps_pkg_text [of ?es p] by (simp add: collect_fields)
  have test: "raceMarker (r_output (test_of tid ?es)) = ''''"
    if t: "r_status (test_of tid ?es) = ''fail''" "\<not> pseudo_id tid" "tid \<in> set (the_tests ?es)" for tid
  proof -
    define x where "x = closed (test_of tid ?es)"
    have own: "own tid ?es \<noteq> []" using t(3) unfolding in_the_tests .
    have x: "result_green entries tier (set (edited_args f)) rs x"
      using g test_in_results [OF rs own] unfolding list_all_iff x_def by blast
    moreover have "unpassed x" unfolding x_def using t(1) by (rule closed_unpassed)
    ultimately have f: "fails x" unfolding result_green_def unpassed_def fails_def by blast
    have out: "r_output x = r_output (test_of tid ?es)" by (simp add: x_def closed_def)
    have "r_test x = tid" by (simp add: x_def closed_def test_of_facts)
    then have "raceMarker (r_output x) = ''''"
      using x \<open>unpassed x\<close> test_output [OF rs t(2) x_def f own]
      by (auto simp: result_green_def unpassed_def excused_by_def covered_by_subtests_def Let_def)
    then show ?thesis unfolding out .
  qed
  have "\<not> (code = 3 \<and> tier_flag f = ''full'')"
    using 1(2,9) full_tier_green [of entries "set (edited_args f)" rs] parseRegistry_entries [OF 1(7)] g
    by (auto simp: normal_tier_def)
  then show ?thesis using pkg test 1(1) by (auto simp: list_all_iff)
qed

section \<open>A small run\<close>

definition ex_flags :: flags where
  "ex_flags = \<lparr>registryPath = ''q'', tier_flag = ''fast'', todayFlag = '''', edited_args = []\<rparr>"

definition ex_event :: "string \<Rightarrow> string \<Rightarrow> event" where
  "ex_event a t = \<lparr>Action = a, Package = ''p'', ImportPath = '''', Test = t, Output = ''reset''\<rparr>"

definition ex_decode :: "string \<Rightarrow> event option" where
  "ex_decode raw = (if raw = ''o'' then Some (ex_event ''output'' '''') else Some (ex_event ''pass'' ''Test''))"

lemma string_runes_ascii: "list_all (\<lambda>c. byte_of c < 128) s \<Longrightarrow> string_runes s = map byte_of s"
proof (induction s)
  case Nil
  then show ?case by (simp add: string_runes_def runes.simps [of "[]"])
next
  case (Cons c s)
  then show ?case by (simp add: string_runes_def runes.simps [of "byte_of c # map byte_of s"] DecodeRune_ascii)
qed

lemma parseRegistry_empty: "parseRegistry '''' = Some ([], [])"
  by (simp add: parseRegistry_def registry_line_def stripComment_def TrimSpace_empty_iff string_runes_ascii const_defs)

lemma ex_accepted: "accepted ex_decode [''o'', ''p''] = [ex_event ''output'' '''', ex_event ''pass'' ''Test'']"
  by (simp add: accepted_def map_filter_simps TrimSpace_empty_iff string_runes_ascii byte_of_def IsSpace_def ex_decode_def ok_event_def ex_event_def)

lemma ex_collect: "collect ex_decode [''o'', ''p''] None = newCollector\<lparr>
    c_w := [''reset''], c_text := [''reset''], c_pkgText := [''p'' \<mapsto> ''reset''], c_pkgSeen := [''p''],
    c_tests := [''p::Test'' \<mapsto> (new_result ''p::Test'')\<lparr>r_status := ''pass''\<rparr>], c_order := [''p::Test'']\<rparr>"
  by (simp add: collect_def scan_lines_fold ex_accepted line_errs_def TrimSpace_empty_iff string_runes_ascii byte_of_def IsSpace_def
     ex_decode_def ok_event_def ex_event_def step_def is_build_def package_event_def test_event_def test_step_def test_id_def
     newCollector_def new_result_def get_output_def Let_def)

lemma ex_results: "results (collect ex_decode [''o'', ''p''] None) = Some [(new_result ''p::Test'')\<lparr>r_status := ''pass''\<rparr>]"
  by (simp add: ex_collect results_def raced_packages_def newCollector_def new_result_def get_output_def
      raceMarker_def raceMarkers_def)

lemma ex_run: "run ex_decode (Some ex_flags) (2026, 1, 1) (\<lambda>_. Inl ErrNotExist) [''o'', ''p''] None =
    Some (0, [Echo ''reset'', Totals ''fast'' 1 0 0, Ok])"
proof -
  have "evaluate [] [(new_result ''p::Test'')\<lparr>r_status := ''pass''\<rparr>] ''fast'' [] (2026, 1, 1) = Some (False, 0, [])"
    using evaluate_report [OF parseRegistry_empty]
    by (simp add: report_of_def expired_lines_def report_line_def line_with_def byID_of_def Let_def)
  moreover have "count_sub ''reset'' ''WARNING: DATA RACE'' = 0" by (simp add: count_sub.simps)
  ultimately have "judge [] ''fast'' [] (2026, 1, 1) (collect ex_decode [''o'', ''p''] None) =
      Some (0, [Echo ''reset'', Totals ''fast'' 1 0 0, Ok])"
    unfolding judge_def ex_results
    by (simp add: parseRegistry_empty Let_def const_defs ex_collect newCollector_def fails_def)
  then show ?thesis by (simp add: run_def ex_flags_def normal_tier_def today_of_def)
qed

theorem run_green_witness:
  "the_tests (accepted ex_decode [''o'', ''p'']) \<noteq> [] \<and>
   list_all (\<lambda>e. \<not> failure_event e) (accepted ex_decode [''o'', ''p'']) \<and>
   accepted ex_decode [''o'', ''p''] = [ex_event ''output'' '''', ex_event ''pass'' ''Test'']"
  using run_green [OF ex_run] ex_accepted by blast

theorem run_hides_no_race_witness:
  "raceMarker (concat (map Output (package_output ''p'' (accepted ex_decode [''o'', ''p''])))) = '''' \<and>
   package_output ''p'' (accepted ex_decode [''o'', ''p'']) = [ex_event ''output'' '''']"
proof -
  have "package_output ''p'' (accepted ex_decode [''o'', ''p'']) = [ex_event ''output'' '''']"
    by (simp add: ex_accepted package_output_def ex_event_def is_build_def)
  then show ?thesis using run_hides_no_race [OF ex_run, of "''p''"] by simp
qed

end
