(* ===== verification/Interconnect.thy ===== *)
theory Interconnect
  imports Policy Observation LinkAddr
begin

text \<open>
  The Interconnect object of \<open>net/v1alpha1/interconnect.go\<close>: its types, the namespace rule, validation
  and the hand-written deep copies. The copies of the metadata (\<open>ObjectMeta\<close>, \<open>ListMeta\<close>) are arguments.
\<close>

section \<open>Types\<close>

definition MediumThunderbolt :: string where [const_defs]: "MediumThunderbolt = ''thunderbolt''"
definition MaxInterconnectListItems :: nat where [const_defs]: "MaxInterconnectListItems = 64"

type_synonym InterconnectFallback = string

definition InterconnectFallbackNetwork :: InterconnectFallback where [const_defs]: "InterconnectFallbackNetwork = ''network''"
definition InterconnectFallbackNone :: InterconnectFallback where [const_defs]: "InterconnectFallbackNone = ''none''"

type_synonym InterconnectMemberState = string

definition InterconnectMemberUp :: InterconnectMemberState where [const_defs]: "InterconnectMemberUp = ''up''"
definition InterconnectMemberDown :: InterconnectMemberState where [const_defs]: "InterconnectMemberDown = ''down''"
definition InterconnectMemberLoop :: InterconnectMemberState where [const_defs]: "InterconnectMemberLoop = ''loop''"

record InterconnectSpec =
  is_Medium :: string
  is_Fallback :: InterconnectFallback
  is_Enabled :: bool
  is_ExcludedNodes :: "string slice"
  is_AllowedNamespaces :: "string slice"

record InterconnectMember =
  im_Node :: string
  im_Index :: int32
  im_Address :: string
  im_State :: InterconnectMemberState
  im_SpeedGbps :: int32
  im_Segment :: string
  im_ReachablePeers :: "string slice"
  im_LastTransition :: "Time ptr"

record InterconnectSegment =
  ig_ID :: string
  ig_Nodes :: "string slice"

record InterconnectStatus =
  it_Members :: "InterconnectMember slice"
  it_Segments :: "InterconnectSegment slice"
  it_AttachedPods :: int32
  it_ArmedBy :: string
  it_ArmedAt :: "Time ptr"
  it_Conditions :: "Condition slice"

record 'm Interconnect =
  ic_TypeMeta :: TypeMeta
  ic_ObjectMeta :: "'m ObjectMeta"
  ic_Spec :: InterconnectSpec
  ic_Status :: InterconnectStatus

record ('l, 'm) InterconnectList =
  icl_TypeMeta :: TypeMeta
  icl_ListMeta :: 'l
  icl_Items :: "'m Interconnect slice"

datatype interconnect_err =
    BadMedium string
  | BadFallback string
  | TooManyExcluded nat
  | TooManyAllowed nat
  | ExcludedNotNode nat string
  | ExcludedRepeated nat string
  | AllowedNotNamespace nat string
  | AllowedRepeated nat string
  | NameNotMedium string string


section \<open>Rules and validation\<close>

definition isNodeName :: "string \<Rightarrow> bool" where
  "isNodeName s = (length s \<le> 253 \<and> MatchString dns1123SubdomainRE s)"

definition isNamespaceName :: "string \<Rightarrow> bool" where
  "isNamespaceName s = (length s \<le> 63 \<and> MatchString dns1123LabelRE s)"

definition EffectiveFallback :: "InterconnectSpec \<Rightarrow> InterconnectFallback" where
  "EffectiveFallback s = (if is_Fallback s = '''' then InterconnectFallbackNetwork else is_Fallback s)"

definition NamespaceAllowed :: "InterconnectSpec \<Rightarrow> string \<Rightarrow> bool" where
  "NamespaceAllowed s ns =
     (if length (els (is_AllowedNamespaces s)) = 0 then True
      else list_ex (\<lambda>n. n = ns) (els (is_AllowedNamespaces s)))"

definition InterconnectSpec_Validate :: "InterconnectSpec \<Rightarrow> interconnect_err option" where
  "InterconnectSpec_Validate s = first_err
     [fail_if (is_Medium s \<noteq> MediumThunderbolt) (BadMedium (is_Medium s)),
      fail_if (\<not> (is_Fallback s = '''' \<or> is_Fallback s = InterconnectFallbackNetwork \<or> is_Fallback s = InterconnectFallbackNone))
        (BadFallback (is_Fallback s)),
      fail_if (MaxInterconnectListItems < length (els (is_ExcludedNodes s))) (TooManyExcluded (length (els (is_ExcludedNodes s)))),
      fail_if (MaxInterconnectListItems < length (els (is_AllowedNamespaces s)))
        (TooManyAllowed (length (els (is_AllowedNamespaces s)))),
      range_seen (\<lambda>i repeated n. first_err [fail_if (\<not> isNodeName n) (ExcludedNotNode i n), fail_if repeated (ExcludedRepeated i n)])
        (\<lambda>n. n) [] 0 (els (is_ExcludedNodes s)),
      range_seen (\<lambda>i repeated n. first_err [fail_if (\<not> isNamespaceName n) (AllowedNotNamespace i n), fail_if repeated (AllowedRepeated i n)])
        (\<lambda>n. n) [] 0 (els (is_AllowedNamespaces s))]"

definition Interconnect_Validate :: "'m Interconnect \<Rightarrow> interconnect_err option" where
  "Interconnect_Validate x =
     (if om_Name (ic_ObjectMeta x) \<noteq> '''' \<and> om_Name (ic_ObjectMeta x) \<noteq> is_Medium (ic_Spec x)
      then Some (NameNotMedium (om_Name (ic_ObjectMeta x)) (is_Medium (ic_Spec x)))
      else InterconnectSpec_Validate (ic_Spec x))"


section \<open>Deep copies\<close>

text \<open>\<open>append([]T(nil), s...)\<close>: a new slice, but nil when there is nothing to append, also for a slice that is empty
  and not nil. So the copies agree with their originals up to nil against empty in the fields copied this way.\<close>

definition appendSlice :: "'a slice \<Rightarrow> (addr, 'a slice) state" where
  "appendSlice s =
     (if els s = [] then State_Monad.return NilP
      else do { a \<leftarrow> fresh; State_Monad.return (Ptr a (els s)) })"

definition strip_items :: "'a slice \<Rightarrow> 'a slice" where
  "strip_items s = (if els s = [] then NilP else Ptr 0 (els s))"

interpretation append_slice: deep_copier appendSlice strip_items addrs_leaf
proof
  fix s :: "'a slice"
  show "copies [] (appendSlice s) addrs_leaf (\<lambda>t. strip_items t = strip_items s)"
  proof (cases "els s = []")
    case False
    then show ?thesis unfolding appendSlice_def if_not_P [OF False]
      by (intro copies_bind [OF copies_fresh]) (auto intro: copies_return simp: strip_items_def)
  qed (auto simp: appendSlice_def strip_items_def intro: copies_return)
qed

definition InterconnectSpec_DeepCopyInto ::
  "InterconnectSpec \<Rightarrow> (addr, InterconnectSpec) state"
where
  "InterconnectSpec_DeepCopyInto x = do {
     v1 \<leftarrow> appendSlice (is_ExcludedNodes x);
     v2 \<leftarrow> appendSlice (is_AllowedNamespaces x);
     State_Monad.return (x\<lparr>is_ExcludedNodes := v1, is_AllowedNamespaces := v2\<rparr>) }"

definition strip_icspec ::
  "InterconnectSpec \<Rightarrow> InterconnectSpec"
where
  "strip_icspec x = \<lparr>is_Medium = is_Medium x, is_Fallback = is_Fallback x, is_Enabled = is_Enabled x,
     is_ExcludedNodes = strip_items (is_ExcludedNodes x),
     is_AllowedNamespaces = strip_items (is_AllowedNamespaces x)\<rparr>"

definition addrs_icspec ::
  "InterconnectSpec \<Rightarrow> addr list"
where
  "addrs_icspec x = addrs_leaf (is_ExcludedNodes x) @ addrs_leaf (is_AllowedNamespaces x)"

interpretation copy_icspec: deep_copier InterconnectSpec_DeepCopyInto strip_icspec addrs_icspec
proof
  fix x
  show "copies [] (InterconnectSpec_DeepCopyInto x) addrs_icspec (\<lambda>y. strip_icspec y = strip_icspec x)"
    unfolding InterconnectSpec_DeepCopyInto_def
    apply (rule copies_bind [OF append_slice.copy_copies])
    apply (rule copies_bind [OF append_slice.copy_copies])
    apply (rule copies_return; simp add: addrs_icspec_def strip_icspec_def)
    done
qed

definition InterconnectMember_DeepCopyInto ::
  "InterconnectMember \<Rightarrow> (addr, InterconnectMember) state"
where
  "InterconnectMember_DeepCopyInto x = do {
     v1 \<leftarrow> appendSlice (im_ReachablePeers x);
     v2 \<leftarrow> clonePtr (im_LastTransition x);
     State_Monad.return (x\<lparr>im_ReachablePeers := v1, im_LastTransition := v2\<rparr>) }"

definition strip_icmember ::
  "InterconnectMember \<Rightarrow> InterconnectMember"
where
  "strip_icmember x = \<lparr>im_Node = im_Node x, im_Index = im_Index x, im_Address = im_Address x, im_State = im_State x,
     im_SpeedGbps = im_SpeedGbps x, im_Segment = im_Segment x,
     im_ReachablePeers = strip_items (im_ReachablePeers x),
     im_LastTransition = strip_leaf (im_LastTransition x)\<rparr>"

definition addrs_icmember ::
  "InterconnectMember \<Rightarrow> addr list"
where
  "addrs_icmember x = addrs_leaf (im_ReachablePeers x) @ addrs_leaf (im_LastTransition x)"

interpretation copy_icmember: deep_copier InterconnectMember_DeepCopyInto strip_icmember addrs_icmember
proof
  fix x
  show "copies [] (InterconnectMember_DeepCopyInto x) addrs_icmember (\<lambda>y. strip_icmember y = strip_icmember x)"
    unfolding InterconnectMember_DeepCopyInto_def
    apply (rule copies_bind [OF append_slice.copy_copies])
    apply (rule copies_bind [OF clone_ptr.copy_copies])
    apply (rule copies_return; simp add: addrs_icmember_def strip_icmember_def)
    done
qed

definition InterconnectSegment_DeepCopyInto ::
  "InterconnectSegment \<Rightarrow> (addr, InterconnectSegment) state"
where
  "InterconnectSegment_DeepCopyInto x = do {
     v1 \<leftarrow> appendSlice (ig_Nodes x);
     State_Monad.return (x\<lparr>ig_Nodes := v1\<rparr>) }"

definition strip_icsegment ::
  "InterconnectSegment \<Rightarrow> InterconnectSegment"
where
  "strip_icsegment x = \<lparr>ig_ID = ig_ID x, ig_Nodes = strip_items (ig_Nodes x)\<rparr>"

definition addrs_icsegment ::
  "InterconnectSegment \<Rightarrow> addr list"
where
  "addrs_icsegment x = addrs_leaf (ig_Nodes x)"

interpretation copy_icsegment: deep_copier InterconnectSegment_DeepCopyInto strip_icsegment addrs_icsegment
proof
  fix x
  show "copies [] (InterconnectSegment_DeepCopyInto x) addrs_icsegment (\<lambda>y. strip_icsegment y = strip_icsegment x)"
    unfolding InterconnectSegment_DeepCopyInto_def
    apply (rule copies_bind [OF append_slice.copy_copies])
    apply (rule copies_return; simp add: addrs_icsegment_def strip_icsegment_def)
    done
qed

definition InterconnectStatus_DeepCopyInto ::
  "InterconnectStatus \<Rightarrow> (addr, InterconnectStatus) state"
where
  "InterconnectStatus_DeepCopyInto x = do {
     v1 \<leftarrow> copySlice InterconnectMember_DeepCopyInto (it_Members x);
     v2 \<leftarrow> copySlice InterconnectSegment_DeepCopyInto (it_Segments x);
     v3 \<leftarrow> clonePtr (it_ArmedAt x);
     v4 \<leftarrow> cloneSlice (it_Conditions x);
     State_Monad.return (x\<lparr>it_Members := v1, it_Segments := v2, it_ArmedAt := v3, it_Conditions := v4\<rparr>) }"

definition strip_icstatus ::
  "InterconnectStatus \<Rightarrow> InterconnectStatus"
where
  "strip_icstatus x = \<lparr>it_Members = strip_slice strip_icmember (it_Members x),
     it_Segments = strip_slice strip_icsegment (it_Segments x), it_AttachedPods = it_AttachedPods x,
     it_ArmedBy = it_ArmedBy x, it_ArmedAt = strip_leaf (it_ArmedAt x),
     it_Conditions = strip_leaf (it_Conditions x)\<rparr>"

definition addrs_icstatus ::
  "InterconnectStatus \<Rightarrow> addr list"
where
  "addrs_icstatus x = addrs_slice addrs_icmember (it_Members x) @ addrs_slice addrs_icsegment (it_Segments x) @
     addrs_leaf (it_ArmedAt x) @ addrs_leaf (it_Conditions x)"

interpretation copy_icstatus: deep_copier InterconnectStatus_DeepCopyInto strip_icstatus addrs_icstatus
proof
  fix x
  show "copies [] (InterconnectStatus_DeepCopyInto x) addrs_icstatus (\<lambda>y. strip_icstatus y = strip_icstatus x)"
    unfolding InterconnectStatus_DeepCopyInto_def
    apply (rule copies_bind [OF copy_icmember.copySlice_copies])
    apply (rule copies_bind [OF copy_icsegment.copySlice_copies])
    apply (rule copies_bind [OF clone_ptr.copy_copies])
    apply (rule copies_bind [OF clone_slice.copy_copies])
    apply (rule copies_return; simp add: addrs_icstatus_def strip_icstatus_def)
    done
qed

definition Interconnect_DeepCopyInto ::
  "('m ObjectMeta \<Rightarrow> (addr, 'm ObjectMeta) state) \<Rightarrow> 'm Interconnect \<Rightarrow> (addr, 'm Interconnect) state"
where
  "Interconnect_DeepCopyInto copyMeta x = do {
     v1 \<leftarrow> copyMeta (ic_ObjectMeta x);
     v2 \<leftarrow> InterconnectSpec_DeepCopyInto (ic_Spec x);
     v3 \<leftarrow> InterconnectStatus_DeepCopyInto (ic_Status x);
     State_Monad.return (x\<lparr>ic_ObjectMeta := v1, ic_Spec := v2, ic_Status := v3\<rparr>) }"

definition strip_interconnect ::
  "('m ObjectMeta \<Rightarrow> 'm ObjectMeta) \<Rightarrow> 'm Interconnect \<Rightarrow> 'm Interconnect"
where
  "strip_interconnect stripMeta x = \<lparr>ic_TypeMeta = ic_TypeMeta x, ic_ObjectMeta = stripMeta (ic_ObjectMeta x),
     ic_Spec = strip_icspec (ic_Spec x), ic_Status = strip_icstatus (ic_Status x)\<rparr>"

definition addrs_interconnect ::
  "('m ObjectMeta \<Rightarrow> addr list) \<Rightarrow> 'm Interconnect \<Rightarrow> addr list"
where
  "addrs_interconnect addrsMeta x = addrsMeta (ic_ObjectMeta x) @ addrs_icspec (ic_Spec x) @ addrs_icstatus (ic_Status x)"

lemma interconnect_copier:
  assumes meta: "deep_copier copyMeta stripMeta addrsMeta"
  shows "deep_copier (Interconnect_DeepCopyInto copyMeta) (strip_interconnect stripMeta) (addrs_interconnect addrsMeta)"
proof
  fix x
  show "copies [] (Interconnect_DeepCopyInto copyMeta x) (addrs_interconnect addrsMeta) (\<lambda>y. strip_interconnect stripMeta y = strip_interconnect stripMeta x)"
    unfolding Interconnect_DeepCopyInto_def
    apply (rule copies_bind [OF deep_copier.copy_copies [OF meta]])
    apply (rule copies_bind [OF copy_icspec.copy_copies])
    apply (rule copies_bind [OF copy_icstatus.copy_copies])
    apply (rule copies_return; simp add: addrs_interconnect_def strip_interconnect_def)
    done
qed

definition InterconnectList_DeepCopyInto ::
  "('l \<Rightarrow> (addr, 'l) state) \<Rightarrow> ('m ObjectMeta \<Rightarrow> (addr, 'm ObjectMeta) state) \<Rightarrow> ('l, 'm) InterconnectList \<Rightarrow> (addr, ('l, 'm) InterconnectList) state"
where
  "InterconnectList_DeepCopyInto copyList copyMeta x = do {
     v1 \<leftarrow> copyList (icl_ListMeta x);
     v2 \<leftarrow> copySlice (Interconnect_DeepCopyInto copyMeta) (icl_Items x);
     State_Monad.return (x\<lparr>icl_ListMeta := v1, icl_Items := v2\<rparr>) }"

definition strip_interconnects ::
  "('l \<Rightarrow> 'l) \<Rightarrow> ('m ObjectMeta \<Rightarrow> 'm ObjectMeta) \<Rightarrow> ('l, 'm) InterconnectList \<Rightarrow> ('l, 'm) InterconnectList"
where
  "strip_interconnects stripList stripMeta x = \<lparr>icl_TypeMeta = icl_TypeMeta x, icl_ListMeta = stripList (icl_ListMeta x),
     icl_Items = strip_slice (strip_interconnect stripMeta) (icl_Items x)\<rparr>"

definition addrs_interconnects ::
  "('l \<Rightarrow> addr list) \<Rightarrow> ('m ObjectMeta \<Rightarrow> addr list) \<Rightarrow> ('l, 'm) InterconnectList \<Rightarrow> addr list"
where
  "addrs_interconnects addrsList addrsMeta x = addrsList (icl_ListMeta x) @ addrs_slice (addrs_interconnect addrsMeta) (icl_Items x)"

lemma interconnects_copier:
  assumes list: "deep_copier copyList stripList addrsList" and meta: "deep_copier copyMeta stripMeta addrsMeta"
  shows "deep_copier (InterconnectList_DeepCopyInto copyList copyMeta) (strip_interconnects stripList stripMeta) (addrs_interconnects addrsList addrsMeta)"
proof
  fix x
  show "copies [] (InterconnectList_DeepCopyInto copyList copyMeta x) (addrs_interconnects addrsList addrsMeta) (\<lambda>y. strip_interconnects stripList stripMeta y = strip_interconnects stripList stripMeta x)"
    unfolding InterconnectList_DeepCopyInto_def
    apply (rule copies_bind [OF deep_copier.copy_copies [OF list]])
    apply (rule copies_bind [OF deep_copier.copySlice_copies [OF interconnect_copier [OF meta]]])
    apply (rule copies_return; simp add: addrs_interconnects_def strip_interconnects_def)
    done
qed

text \<open>The pointer methods: a nil receiver gives nil.\<close>

definition InterconnectSpec_DeepCopy ::
  "InterconnectSpec ptr \<Rightarrow> (addr, InterconnectSpec ptr) state"
where
  "InterconnectSpec_DeepCopy p = copyPtr InterconnectSpec_DeepCopyInto p"

definition InterconnectMember_DeepCopy ::
  "InterconnectMember ptr \<Rightarrow> (addr, InterconnectMember ptr) state"
where
  "InterconnectMember_DeepCopy p = copyPtr InterconnectMember_DeepCopyInto p"

definition InterconnectSegment_DeepCopy ::
  "InterconnectSegment ptr \<Rightarrow> (addr, InterconnectSegment ptr) state"
where
  "InterconnectSegment_DeepCopy p = copyPtr InterconnectSegment_DeepCopyInto p"

definition InterconnectStatus_DeepCopy ::
  "InterconnectStatus ptr \<Rightarrow> (addr, InterconnectStatus ptr) state"
where
  "InterconnectStatus_DeepCopy p = copyPtr InterconnectStatus_DeepCopyInto p"

definition Interconnect_DeepCopy ::
  "('m ObjectMeta \<Rightarrow> (addr, 'm ObjectMeta) state) \<Rightarrow> 'm Interconnect ptr \<Rightarrow> (addr, 'm Interconnect ptr) state"
where
  "Interconnect_DeepCopy copyMeta p = copyPtr (Interconnect_DeepCopyInto copyMeta) p"

definition Interconnect_DeepCopyObject ::
  "('m ObjectMeta \<Rightarrow> (addr, 'm ObjectMeta) state) \<Rightarrow> 'm Interconnect ptr \<Rightarrow> (addr, 'm Interconnect ptr) state"
where
  "Interconnect_DeepCopyObject copyMeta p = as_object (Interconnect_DeepCopy copyMeta p)"

definition InterconnectList_DeepCopy ::
  "('l \<Rightarrow> (addr, 'l) state) \<Rightarrow> ('m ObjectMeta \<Rightarrow> (addr, 'm ObjectMeta) state) \<Rightarrow> ('l, 'm) InterconnectList ptr \<Rightarrow> (addr, ('l, 'm) InterconnectList ptr) state"
where
  "InterconnectList_DeepCopy copyList copyMeta p = copyPtr (InterconnectList_DeepCopyInto copyList copyMeta) p"

definition InterconnectList_DeepCopyObject ::
  "('l \<Rightarrow> (addr, 'l) state) \<Rightarrow> ('m ObjectMeta \<Rightarrow> (addr, 'm ObjectMeta) state) \<Rightarrow> ('l, 'm) InterconnectList ptr \<Rightarrow> (addr, ('l, 'm) InterconnectList ptr) state"
where
  "InterconnectList_DeepCopyObject copyList copyMeta p = as_object (InterconnectList_DeepCopy copyList copyMeta p)"

section \<open>What validation decides\<close>

lemma isNodeName_iff: "isNodeName s \<longleftrightarrow> subdomain_ok s \<and> length s \<le> 253"
  by (auto simp: isNodeName_def dns1123Subdomain_iff)

lemma isNamespaceName_iff: "isNamespaceName s \<longleftrightarrow> label_ok s \<and> length s \<le> 63"
  by (auto simp: isNamespaceName_def dns1123Label_iff)

lemma names_checked:
  "range_seen (\<lambda>i repeated n. first_err [fail_if (\<not> ok n) (bad i n), fail_if repeated (again i n)]) (\<lambda>n. n) [] 0 xs = None \<longleftrightarrow>
     (\<forall>n \<in> set xs. ok n) \<and> distinct xs"
  using range_seen_start [of "\<lambda>i repeated n. first_err [fail_if (\<not> ok n) (bad i n), fail_if repeated (again i n)]" ok "\<lambda>n. n" 0 xs]
  by (simp add: check_simps conj_commute)

definition spec_ok :: "InterconnectSpec \<Rightarrow> bool" where
  "spec_ok s \<longleftrightarrow> is_Medium s = ''thunderbolt'' \<and> is_Fallback s \<in> {'''', ''network'', ''none''} \<and>
     length (els (is_ExcludedNodes s)) \<le> 64 \<and> length (els (is_AllowedNamespaces s)) \<le> 64 \<and>
     (\<forall>n \<in> set (els (is_ExcludedNodes s)). subdomain_ok n \<and> length n \<le> 253) \<and> distinct (els (is_ExcludedNodes s)) \<and>
     (\<forall>n \<in> set (els (is_AllowedNamespaces s)). label_ok n \<and> length n \<le> 63) \<and> distinct (els (is_AllowedNamespaces s))"

lemma InterconnectSpec_Validate_iff: "InterconnectSpec_Validate s = None \<longleftrightarrow> spec_ok s"
  unfolding InterconnectSpec_Validate_def check_simps names_checked spec_ok_def
  by (auto simp: const_defs isNodeName_iff isNamespaceName_iff)

lemma NamespaceAllowed_iff:
  "NamespaceAllowed s ns \<longleftrightarrow> els (is_AllowedNamespaces s) = [] \<or> ns \<in> set (els (is_AllowedNamespaces s))"
  by (auto simp: NamespaceAllowed_def list_ex_iff)

text \<open>A copy keeps the namespace rule and the verdict of validation, although an empty list may come back nil.\<close>

lemma els_strip_items: "strip_items s = strip_items t \<Longrightarrow> els s = els t"
  by (simp add: strip_items_def split: if_splits)

lemma copied_spec_same_rules:
  assumes "run_state (InterconnectSpec_DeepCopyInto s) n = (t, l)"
  shows "spec_ok t \<longleftrightarrow> spec_ok s" "NamespaceAllowed t ns = NamespaceAllowed s ns" "EffectiveFallback t = EffectiveFallback s"
proof -
  have e: "strip_icspec t = strip_icspec s" by (rule copy_icspec.copy_value [OF assms])
  then have "els (is_ExcludedNodes t) = els (is_ExcludedNodes s)" "els (is_AllowedNamespaces t) = els (is_AllowedNamespaces s)"
    "is_Medium t = is_Medium s" "is_Fallback t = is_Fallback s"
    by (auto simp: strip_icspec_def intro: els_strip_items)
  then show "spec_ok t \<longleftrightarrow> spec_ok s" "NamespaceAllowed t ns = NamespaceAllowed s ns" "EffectiveFallback t = EffectiveFallback s"
    by (simp_all add: spec_ok_def NamespaceAllowed_iff EffectiveFallback_def)
qed

lemma empty_list_copied_as_nil:
  "is_AllowedNamespaces (fst (run_state (InterconnectSpec_DeepCopyInto s) n)) = NilP \<longleftrightarrow> els (is_AllowedNamespaces s) = []"
  by (simp add: InterconnectSpec_DeepCopyInto_def appendSlice_def fresh_def split: prod.split)

end
