(* ===== verification/InterconnectNote.thy ===== *)
theory InterconnectNote
  imports Interconnect TextLib StableSort
begin

text \<open>
  The interconnect annotation payloads of \<open>net/v1alpha1/interconnectannotation.go\<close> (the report a node writes, the
  decision the server writes) and the alias ledger of \<open>interconnectledger.go\<close>. What \<open>encoding/json\<close> does is an
  argument: \<open>probe\<close> reads the schema of a text on its own, \<open>decode\<close> fills a payload, \<open>marshal\<close> writes one.
\<close>

section \<open>Payloads\<close>

definition InterconnectAnnotationSchema :: int64 where [const_defs]: "InterconnectAnnotationSchema = 1"
definition MaxInterconnectReportBytes :: nat where [const_defs]: "MaxInterconnectReportBytes = 4096"
definition MaxInterconnectReportPeers :: nat where [const_defs]: "MaxInterconnectReportPeers = 16"
definition MaxInterconnectDomainUUIDBytes :: nat where [const_defs]: "MaxInterconnectDomainUUIDBytes = 64"
definition MaxInterconnectUIDBytes :: nat where [const_defs]: "MaxInterconnectUIDBytes = 64"

record InterconnectReport =
  ir_Schema :: int64
  ir_LocalDomainUUIDs :: "string slice"
  ir_PeerDomainUUIDs :: "string slice"
  ir_Carrier :: bool
  ir_SpeedGbps :: int32
  ir_ReachablePeers :: "string slice"

record InterconnectModelRef =
  mr_Namespace :: string
  mr_Name :: string
  mr_UID :: string

record InterconnectDesired =
  id_Schema :: int64
  id_Interconnect :: string
  id_Fallback :: InterconnectFallback
  id_AllowedNamespaces :: "string slice"
  id_MLXModels :: "InterconnectModelRef slice"

datatype 'j note_cause =
    PayloadTooLarge nat
  | NotJSONText 'j
  | TooManyReachable nat
  | TooManyPeerUUIDs nat
  | TooManyLocalUUIDs nat
  | BadLocalUUID nat
  | BadPeerUUID nat
  | NegativeSpeed int32
  | PeerNotNode nat string
  | PeerRepeated nat string
  | DesiredNotName string
  | DesiredFallback string
  | DesiredTooManyNamespaces nat
  | DesiredTooManyModels nat
  | DesiredNotNamespace nat string
  | DesiredNamespaceRepeated nat string
  | ModelNotNamespace nat string
  | ModelNotName nat string
  | ModelBadUID nat
  | ModelRepeated nat string string

datatype 'j note_err = ErrUnknownInterconnectSchema "int64 option" | ErrInvalidInterconnectAnnotation "'j note_cause"

definition isPrintableASCII_net :: "string \<Rightarrow> nat \<Rightarrow> bool" where
  "isPrintableASCII_net u mx =
     (if u = '''' \<or> mx < length u then False else list_all (\<lambda>c. \<not> (byte_of c < 0x20 \<or> 0x7e < byte_of c)) u)"

definition isDomainUUID :: "string \<Rightarrow> bool" where
  "isDomainUUID u = isPrintableASCII_net u MaxInterconnectDomainUUIDBytes"

abbreviation invalid_note :: "bool \<Rightarrow> 'j note_cause \<Rightarrow> 'j note_err option" where
  "invalid_note b e \<equiv> fail_if b (ErrInvalidInterconnectAnnotation e)"

definition InterconnectReport_Validate :: "InterconnectReport \<Rightarrow> 'j note_err option" where
  "InterconnectReport_Validate r = first_err
     [fail_if (ir_Schema r \<noteq> InterconnectAnnotationSchema) (ErrUnknownInterconnectSchema (Some (ir_Schema r))),
      invalid_note (MaxInterconnectReportPeers < length (els (ir_ReachablePeers r))) (TooManyReachable (length (els (ir_ReachablePeers r)))),
      invalid_note (MaxInterconnectReportPeers < length (els (ir_PeerDomainUUIDs r))) (TooManyPeerUUIDs (length (els (ir_PeerDomainUUIDs r)))),
      invalid_note (nat (sint (MaxInterconnectSlot + 1)) < length (els (ir_LocalDomainUUIDs r)))
        (TooManyLocalUUIDs (length (els (ir_LocalDomainUUIDs r)))),
      range_err (\<lambda>i u. invalid_note (\<not> isDomainUUID u) (BadLocalUUID i)) 0 (els (ir_LocalDomainUUIDs r)),
      range_err (\<lambda>i u. invalid_note (\<not> isDomainUUID u) (BadPeerUUID i)) 0 (els (ir_PeerDomainUUIDs r)),
      invalid_note (sint (ir_SpeedGbps r) < 0) (NegativeSpeed (ir_SpeedGbps r)),
      range_seen (\<lambda>i repeated p. first_err
          [invalid_note (\<not> isNodeName p) (PeerNotNode i p), invalid_note repeated (PeerRepeated i p)])
        (\<lambda>p. p) [] 0 (els (ir_ReachablePeers r))]"

text \<open>The loop over the model references keeps two maps, of names and of UIDs.\<close>

definition model_key :: "InterconnectModelRef \<Rightarrow> string" where
  "model_key m = mr_Namespace m @ ''/'' @ mr_Name m"

primrec models_loop :: "string set \<Rightarrow> string set \<Rightarrow> nat \<Rightarrow> InterconnectModelRef list \<Rightarrow> 'j note_err option" where
  "models_loop names uids i [] = None"
| "models_loop names uids i (m # ms) =
     (case first_err
        [invalid_note (\<not> isNamespaceName (mr_Namespace m)) (ModelNotNamespace i (mr_Namespace m)),
         invalid_note (\<not> isNodeName (mr_Name m)) (ModelNotName i (mr_Name m)),
         invalid_note (\<not> isPrintableASCII_net (mr_UID m) MaxInterconnectUIDBytes) (ModelBadUID i),
         invalid_note (model_key m \<in> names \<or> mr_UID m \<in> uids) (ModelRepeated i (model_key m) (mr_UID m))] of
        Some e \<Rightarrow> Some e
      | None \<Rightarrow> models_loop (insert (model_key m) names) (insert (mr_UID m) uids) (Suc i) ms)"

definition InterconnectDesired_Validate :: "InterconnectDesired \<Rightarrow> 'j note_err option" where
  "InterconnectDesired_Validate d = first_err
     [fail_if (id_Schema d \<noteq> InterconnectAnnotationSchema) (ErrUnknownInterconnectSchema (Some (id_Schema d))),
      invalid_note (\<not> isNodeName (id_Interconnect d)) (DesiredNotName (id_Interconnect d)),
      invalid_note (\<not> (id_Fallback d = InterconnectFallbackNetwork \<or> id_Fallback d = InterconnectFallbackNone))
        (DesiredFallback (id_Fallback d)),
      invalid_note (MaxInterconnectListItems < length (els (id_AllowedNamespaces d)))
        (DesiredTooManyNamespaces (length (els (id_AllowedNamespaces d)))),
      invalid_note (MaxInterconnectListItems < length (els (id_MLXModels d))) (DesiredTooManyModels (length (els (id_MLXModels d)))),
      range_seen (\<lambda>i repeated ns. first_err
          [invalid_note (\<not> isNamespaceName ns) (DesiredNotNamespace i ns), invalid_note repeated (DesiredNamespaceRepeated i ns)])
        (\<lambda>ns. ns) [] 0 (els (id_AllowedNamespaces d)),
      models_loop {} {} 0 (els (id_MLXModels d))]"

definition InterconnectDesired_NamespaceAllowed :: "InterconnectDesired \<Rightarrow> string \<Rightarrow> bool" where
  "InterconnectDesired_NamespaceAllowed d ns =
     NamespaceAllowed \<lparr>is_Medium = '''', is_Fallback = '''', is_Enabled = False, is_ExcludedNodes = NilP,
       is_AllowedNamespaces = id_AllowedNamespaces d\<rparr> ns"

definition HasMLXModel :: "InterconnectDesired \<Rightarrow> string \<Rightarrow> string \<Rightarrow> string \<Rightarrow> bool" where
  "HasMLXModel d namespace name uid =
     (if namespace = '''' \<or> name = '''' \<or> uid = '''' then False
      else list_ex (\<lambda>m. mr_Namespace m = namespace \<and> mr_Name m = name \<and> mr_UID m = uid) (els (id_MLXModels d)))"


section \<open>Encoding and parsing\<close>

definition encodeInterconnectAnnotation :: "('v \<Rightarrow> 'j + string) \<Rightarrow> 'v \<Rightarrow> 'j note_err + string" where
  "encodeInterconnectAnnotation marshal v =
     (case marshal v of
        Inl e \<Rightarrow> Inl (ErrInvalidInterconnectAnnotation (NotJSONText e))
      | Inr b \<Rightarrow>
          if MaxInterconnectReportBytes < length b then Inl (ErrInvalidInterconnectAnnotation (PayloadTooLarge (length b)))
          else Inr b)"

definition decodeInterconnectAnnotation ::
  "(string \<Rightarrow> 'j + int64 option) \<Rightarrow> (string \<Rightarrow> 'j + 'v) \<Rightarrow> string \<Rightarrow> 'j note_err + 'v"
where
  "decodeInterconnectAnnotation probe decode value =
     (if MaxInterconnectReportBytes < length value then Inl (ErrInvalidInterconnectAnnotation (PayloadTooLarge (length value)))
      else case probe value of
        Inl e \<Rightarrow> Inl (ErrInvalidInterconnectAnnotation (NotJSONText e))
      | Inr None \<Rightarrow> Inl (ErrUnknownInterconnectSchema None)
      | Inr (Some n) \<Rightarrow>
          if n \<noteq> InterconnectAnnotationSchema then Inl (ErrUnknownInterconnectSchema (Some n))
          else case decode value of
            Inl e \<Rightarrow> Inl (ErrInvalidInterconnectAnnotation (NotJSONText e))
          | Inr v \<Rightarrow> Inr v)"

definition InterconnectReport_Encode :: "(InterconnectReport \<Rightarrow> 'j + string) \<Rightarrow> InterconnectReport \<Rightarrow> 'j note_err + string" where
  "InterconnectReport_Encode marshal r =
     (case InterconnectReport_Validate r of Some e \<Rightarrow> Inl e | None \<Rightarrow> encodeInterconnectAnnotation marshal r)"

definition ParseInterconnectReport ::
  "(string \<Rightarrow> 'j + int64 option) \<Rightarrow> (string \<Rightarrow> 'j + InterconnectReport) \<Rightarrow> string \<Rightarrow> 'j note_err + InterconnectReport"
where
  "ParseInterconnectReport probe decode value =
     (case decodeInterconnectAnnotation probe decode value of
        Inl e \<Rightarrow> Inl e
      | Inr r \<Rightarrow> (case InterconnectReport_Validate r of Some e \<Rightarrow> Inl e | None \<Rightarrow> Inr r))"

definition InterconnectDesired_Encode :: "(InterconnectDesired \<Rightarrow> 'j + string) \<Rightarrow> InterconnectDesired \<Rightarrow> 'j note_err + string" where
  "InterconnectDesired_Encode marshal d =
     (case InterconnectDesired_Validate d of Some e \<Rightarrow> Inl e | None \<Rightarrow> encodeInterconnectAnnotation marshal d)"

definition ParseInterconnectDesired ::
  "(string \<Rightarrow> 'j + int64 option) \<Rightarrow> (string \<Rightarrow> 'j + InterconnectDesired) \<Rightarrow> string \<Rightarrow> 'j note_err + InterconnectDesired"
where
  "ParseInterconnectDesired probe decode value =
     (case decodeInterconnectAnnotation probe decode value of
        Inl e \<Rightarrow> Inl e
      | Inr d \<Rightarrow> (case InterconnectDesired_Validate d of Some e \<Rightarrow> Inl e | None \<Rightarrow> Inr d))"

section \<open>The alias ledger\<close>

record InterconnectLedgerEntry =
  le_Slot :: int64
  le_Address :: string

record InterconnectLedger =
  il_Aliases :: "InterconnectLedgerEntry slice"

definition slot_before :: "InterconnectLedgerEntry \<Rightarrow> InterconnectLedgerEntry \<Rightarrow> bool" where
  "slot_before a b = (sint (le_Slot a) < sint (le_Slot b))"

definition ParseInterconnectLedger :: "(string \<Rightarrow> 'j + InterconnectLedger) \<Rightarrow> string \<Rightarrow> 'j + InterconnectLedger" where
  "ParseInterconnectLedger decode raw = (case decode raw of Inl e \<Rightarrow> Inl e | Inr l \<Rightarrow> Inr l)"

text \<open>\<open>make\<close> allocates the sorted copy, so the marshalled ledger's slice is never nil.\<close>

definition InterconnectLedger_Marshal ::
  "(InterconnectLedger \<Rightarrow> 'j + string) \<Rightarrow> InterconnectLedger \<Rightarrow> (addr, 'j + string) state"
where
  "InterconnectLedger_Marshal marshal l = do {
     a \<leftarrow> fresh;
     let aliases = Ptr a (SliceStable slot_before (els (il_Aliases l)));
     State_Monad.return
       (case marshal \<lparr>il_Aliases = aliases\<rparr> of Inl e \<Rightarrow> Inl e | Inr raw \<Rightarrow> Inr (raw @ [char_of (10 :: nat)])) }"

interpretation slots: weak_order slot_before
  by unfold_locales (auto simp: slot_before_def)


section \<open>What validation accepts\<close>

definition printable_bytes :: "string \<Rightarrow> nat \<Rightarrow> bool" where
  "printable_bytes u mx \<longleftrightarrow> u \<noteq> [] \<and> length u \<le> mx \<and> (\<forall>c \<in> set u. byte_of c \<in> {0x20..0x7e})"

lemma isPrintableASCII_net_iff: "isPrintableASCII_net u mx \<longleftrightarrow> printable_bytes u mx"
  by (auto simp: isPrintableASCII_net_def printable_bytes_def list_all_iff)

definition report_ok :: "InterconnectReport \<Rightarrow> bool" where
  "report_ok r \<longleftrightarrow> ir_Schema r = 1 \<and> length (els (ir_ReachablePeers r)) \<le> 16 \<and> length (els (ir_PeerDomainUUIDs r)) \<le> 16 \<and>
     length (els (ir_LocalDomainUUIDs r)) \<le> 8 \<and> (\<forall>u \<in> set (els (ir_LocalDomainUUIDs r)). printable_bytes u 64) \<and>
     (\<forall>u \<in> set (els (ir_PeerDomainUUIDs r)). printable_bytes u 64) \<and> 0 \<le> sint (ir_SpeedGbps r) \<and>
     (\<forall>p \<in> set (els (ir_ReachablePeers r)). isNodeName p) \<and> distinct (els (ir_ReachablePeers r))"

lemma InterconnectReport_Validate_iff: "InterconnectReport_Validate r = None \<longleftrightarrow> report_ok r"
proof -
  have uuids: "range_err (\<lambda>i u. invalid_note (\<not> isDomainUUID u) (bad i)) 0 us = None \<longleftrightarrow> (\<forall>u \<in> set us. printable_bytes u 64)"
    for us and bad :: "nat \<Rightarrow> 'j note_cause"
    by (rule range_err_None_all) (simp add: check_simps isDomainUUID_def isPrintableASCII_net_iff const_defs)
  have slots: "nat (sint (MaxInterconnectSlot + 1)) = 8" by (simp add: const_defs)
  show ?thesis
    unfolding InterconnectReport_Validate_def check_simps uuids names_checked slots report_ok_def
    by (auto simp: const_defs)
qed

definition model_ok :: "InterconnectModelRef \<Rightarrow> bool" where
  "model_ok m \<longleftrightarrow> isNamespaceName (mr_Namespace m) \<and> isNodeName (mr_Name m) \<and> printable_bytes (mr_UID m) 64"

lemma models_loop_iff:
  "models_loop names uids i ms = (None :: 'j note_err option) \<longleftrightarrow>
     (\<forall>m \<in> set ms. model_ok m \<and> model_key m \<notin> names \<and> mr_UID m \<notin> uids) \<and>
     distinct (map model_key ms) \<and> distinct (map mr_UID ms)"
proof (induction ms arbitrary: names uids i)
  case (Cons m ms)
  have seq: "(case x of Some e \<Rightarrow> Some e | None \<Rightarrow> y) = None \<longleftrightarrow> x = None \<and> y = None" for x y :: "'j note_err option"
    by (cases x) simp_all
  have step: "models_loop names uids i (m # ms) = (None :: 'j note_err option) \<longleftrightarrow>
     model_ok m \<and> model_key m \<notin> names \<and> mr_UID m \<notin> uids \<and>
     models_loop (insert (model_key m) names) (insert (mr_UID m) uids) (Suc i) ms = (None :: 'j note_err option)"
    unfolding models_loop.simps seq check_simps by (auto simp: model_ok_def isPrintableASCII_net_iff const_defs)
  show ?case unfolding step Cons.IH by (auto simp: image_iff)
qed simp

definition desired_ok :: "InterconnectDesired \<Rightarrow> bool" where
  "desired_ok d \<longleftrightarrow> id_Schema d = 1 \<and> isNodeName (id_Interconnect d) \<and> id_Fallback d \<in> {''network'', ''none''} \<and>
     length (els (id_AllowedNamespaces d)) \<le> 64 \<and> length (els (id_MLXModels d)) \<le> 64 \<and>
     (\<forall>n \<in> set (els (id_AllowedNamespaces d)). isNamespaceName n) \<and> distinct (els (id_AllowedNamespaces d)) \<and>
     (\<forall>m \<in> set (els (id_MLXModels d)). model_ok m) \<and>
     distinct (map model_key (els (id_MLXModels d))) \<and> distinct (map mr_UID (els (id_MLXModels d)))"

lemma InterconnectDesired_Validate_iff: "InterconnectDesired_Validate d = None \<longleftrightarrow> desired_ok d"
  unfolding InterconnectDesired_Validate_def check_simps names_checked models_loop_iff desired_ok_def
  by (auto simp: const_defs)

section \<open>What the annotations carry\<close>

definition ascii_text :: "string \<Rightarrow> bool" where
  "ascii_text u \<longleftrightarrow> (\<forall>c \<in> set u. byte_of c < 0x80)"

lemma ascii_printable: "printable_bytes u mx \<Longrightarrow> ascii_text u"
  by (fastforce simp: printable_bytes_def ascii_text_def)

lemma ascii_label: "label_ok u \<Longrightarrow> ascii_text u"
  by (force simp: label_ok_def ascii_text_def label_byte_def lower_alnum_def is_lower_def is_digit_def byte_of_def)

lemma ascii_subdomain: "subdomain_ok u \<Longrightarrow> ascii_text u"
  unfolding ascii_text_def
proof
  fix c
  assume ok: "subdomain_ok u" and "c \<in> set u"
  then have "c = CHR ''.'' \<or> (\<exists>w \<in> set (split_on CHR ''.'' u). c \<in> set w)"
    using set_join [of c "CHR ''.''" "split_on CHR ''.'' u"] by simp
  with ok ascii_label show "byte_of c < 0x80"
    by (auto simp: subdomain_ok_def ascii_text_def byte_of_def)
qed

lemma names_ascii: "isNodeName u \<Longrightarrow> ascii_text u" "isNamespaceName u \<Longrightarrow> ascii_text u"
  by (simp_all add: isNodeName_iff isNamespaceName_iff ascii_subdomain ascii_label)

definition ascii_report :: "InterconnectReport \<Rightarrow> bool" where
  "ascii_report r \<longleftrightarrow>
     (\<forall>u \<in> set (els (ir_LocalDomainUUIDs r) @ els (ir_PeerDomainUUIDs r) @ els (ir_ReachablePeers r)). ascii_text u)"

definition ascii_desired :: "InterconnectDesired \<Rightarrow> bool" where
  "ascii_desired d \<longleftrightarrow> ascii_text (id_Interconnect d) \<and> ascii_text (id_Fallback d) \<and>
     (\<forall>n \<in> set (els (id_AllowedNamespaces d)). ascii_text n) \<and>
     (\<forall>m \<in> set (els (id_MLXModels d)). ascii_text (mr_Namespace m) \<and> ascii_text (mr_Name m) \<and> ascii_text (mr_UID m))"

lemma report_ok_ascii: "report_ok r \<Longrightarrow> ascii_report r"
  using ascii_printable names_ascii by (auto simp: report_ok_def ascii_report_def)

lemma desired_ok_ascii: "desired_ok d \<Longrightarrow> ascii_desired d"
proof -
  have "ascii_text ''network''" "ascii_text ''none''" by (simp_all add: ascii_text_def byte_of_def)
  then show "desired_ok d \<Longrightarrow> ascii_desired d"
    using ascii_printable names_ascii by (auto simp: desired_ok_def ascii_desired_def model_ok_def)
qed

text \<open>Payloads that differ only in the addresses of their slices, or in nil against empty (\<open>omitempty\<close>).\<close>

definition same_report :: "InterconnectReport \<Rightarrow> InterconnectReport \<Rightarrow> bool" where
  "same_report a b \<longleftrightarrow> ir_Schema a = ir_Schema b \<and> els (ir_LocalDomainUUIDs a) = els (ir_LocalDomainUUIDs b) \<and>
     els (ir_PeerDomainUUIDs a) = els (ir_PeerDomainUUIDs b) \<and> ir_Carrier a = ir_Carrier b \<and>
     ir_SpeedGbps a = ir_SpeedGbps b \<and> els (ir_ReachablePeers a) = els (ir_ReachablePeers b)"

definition same_desired :: "InterconnectDesired \<Rightarrow> InterconnectDesired \<Rightarrow> bool" where
  "same_desired a b \<longleftrightarrow> id_Schema a = id_Schema b \<and> id_Interconnect a = id_Interconnect b \<and> id_Fallback a = id_Fallback b \<and>
     els (id_AllowedNamespaces a) = els (id_AllowedNamespaces b) \<and> els (id_MLXModels a) = els (id_MLXModels b)"

lemma same_report_ok: "same_report a b \<Longrightarrow> report_ok a \<longleftrightarrow> report_ok b"
  by (simp add: same_report_def report_ok_def)

lemma same_desired_ok: "same_desired a b \<Longrightarrow> desired_ok a \<longleftrightarrow> desired_ok b"
  by (simp add: same_desired_def desired_ok_def)

text \<open>
  What the code relies on of \<open>encoding/json\<close>: the text of a payload whose strings are ASCII shows its schema to the
  probe and decodes to the payload again. (A string that is not valid UTF-8 would not come back.)
\<close>

definition json_carries ::
  "('v \<Rightarrow> bool) \<Rightarrow> ('v \<Rightarrow> 'v \<Rightarrow> bool) \<Rightarrow> ('v \<Rightarrow> int64) \<Rightarrow>
   ('v \<Rightarrow> 'j + string) \<Rightarrow> (string \<Rightarrow> 'j + int64 option) \<Rightarrow> (string \<Rightarrow> 'j + 'v) \<Rightarrow> bool"
where
  "json_carries ascii same schema marshal probe decode \<longleftrightarrow>
     (\<forall>v s. ascii v \<longrightarrow> marshal v = Inr s \<longrightarrow>
        probe s = Inr (Some (schema v)) \<and> (\<exists>v'. decode s = Inr v' \<and> same v' v))"

lemma encoded_decodes:
  assumes "json_carries ascii same schema marshal probe decode" "ascii v" "schema v = InterconnectAnnotationSchema"
    and "encodeInterconnectAnnotation marshal v = Inr s"
  shows "\<exists>v'. decodeInterconnectAnnotation probe decode s = Inr v' \<and> same v' v"
proof -
  from assms(4) have m: "marshal v = Inr s" and len: "\<not> MaxInterconnectReportBytes < length s"
    by (auto simp: encodeInterconnectAnnotation_def split: sum.splits if_splits)
  from assms(1,2) m obtain v' where "probe s = Inr (Some (schema v))" "decode s = Inr v'" "same v' v"
    unfolding json_carries_def by blast
  with len assms(3) show ?thesis by (simp add: decodeInterconnectAnnotation_def)
qed

text \<open>
  (C14) A writer can never produce an annotation value its reader rejects: whatever \<open>Encode\<close> returns, for a report and
  for a decision, the parser accepts, and it gets back what was written (up to nil against empty slices).
\<close>

theorem interconnect_notes_roundtrip:
  assumes "json_carries ascii_report same_report ir_Schema marshal_r probe_r decode_r"
    and "json_carries ascii_desired same_desired id_Schema marshal_d probe_d decode_d"
  shows "(InterconnectReport_Encode marshal_r r = Inr s \<longrightarrow>
           (\<exists>r'. ParseInterconnectReport probe_r decode_r s = Inr r' \<and> same_report r' r)) \<and>
         (InterconnectDesired_Encode marshal_d d = Inr t \<longrightarrow>
           (\<exists>d'. ParseInterconnectDesired probe_d decode_d t = Inr d' \<and> same_desired d' d))"
proof (intro conjI impI)
  assume enc: "InterconnectReport_Encode marshal_r r = Inr s"
  then have ok: "report_ok r" and e: "encodeInterconnectAnnotation marshal_r r = Inr s"
    by (auto simp: InterconnectReport_Encode_def InterconnectReport_Validate_iff split: option.splits)
  from ok have "ir_Schema r = InterconnectAnnotationSchema" by (simp add: report_ok_def const_defs)
  from encoded_decodes [OF assms(1) report_ok_ascii [OF ok] this e]
  obtain r' where r': "decodeInterconnectAnnotation probe_r decode_r s = Inr r'" "same_report r' r" by blast
  then have "InterconnectReport_Validate r' = (None :: 'a note_err option)"
    using ok same_report_ok by (simp add: InterconnectReport_Validate_iff)
  with r' show "\<exists>r'. ParseInterconnectReport probe_r decode_r s = Inr r' \<and> same_report r' r"
    by (simp add: ParseInterconnectReport_def)
next
  assume enc: "InterconnectDesired_Encode marshal_d d = Inr t"
  then have ok: "desired_ok d" and e: "encodeInterconnectAnnotation marshal_d d = Inr t"
    by (auto simp: InterconnectDesired_Encode_def InterconnectDesired_Validate_iff split: option.splits)
  from ok have "id_Schema d = InterconnectAnnotationSchema" by (simp add: desired_ok_def const_defs)
  from encoded_decodes [OF assms(2) desired_ok_ascii [OF ok] this e]
  obtain d' where d': "decodeInterconnectAnnotation probe_d decode_d t = Inr d'" "same_desired d' d" by blast
  then have "InterconnectDesired_Validate d' = (None :: 'b note_err option)"
    using ok same_desired_ok by (simp add: InterconnectDesired_Validate_iff)
  with d' show "\<exists>d'. ParseInterconnectDesired probe_d decode_d t = Inr d' \<and> same_desired d' d"
    by (simp add: ParseInterconnectDesired_def)
qed

definition sample_ic_report :: InterconnectReport where
  "sample_ic_report = \<lparr>ir_Schema = 1, ir_LocalDomainUUIDs = Ptr 0 [''A1''], ir_PeerDomainUUIDs = NilP, ir_Carrier = True,
     ir_SpeedGbps = 40, ir_ReachablePeers = Ptr 1 [''n2'']\<rparr>"

definition sample_ic_desired :: InterconnectDesired where
  "sample_ic_desired = \<lparr>id_Schema = 1, id_Interconnect = ''thunderbolt'', id_Fallback = ''none'', id_AllowedNamespaces = NilP,
     id_MLXModels = Ptr 0 [\<lparr>mr_Namespace = ''ml'', mr_Name = ''m1'', mr_UID = ''u1''\<rparr>]\<rparr>"

lemma sample_names: "isNodeName ''n2''" "isNodeName ''m1''" "isNodeName ''thunderbolt''" "isNamespaceName ''ml''"
  by (simp_all add: isNodeName_iff isNamespaceName_iff subdomain_ok_def label_ok_def label_byte_def lower_alnum_def
      is_lower_def is_digit_def byte_of_def)

lemma samples_ok: "report_ok sample_ic_report" "desired_ok sample_ic_desired"
  by (simp_all add: sample_ic_report_def sample_ic_desired_def report_ok_def desired_ok_def model_ok_def sample_names
      printable_bytes_def byte_of_def)

lemma interconnect_notes_roundtrip_witness:
  "(\<exists>r'. ParseInterconnectReport (\<lambda>s. Inr (Some 1)) (\<lambda>s. Inr sample_ic_report) ''{}'' = (Inr r' :: unit note_err + _) \<and>
     same_report r' sample_ic_report) \<and>
   (\<exists>d'. ParseInterconnectDesired (\<lambda>s. Inr (Some 1)) (\<lambda>s. Inr sample_ic_desired) ''{}'' = (Inr d' :: unit note_err + _) \<and>
     same_desired d' sample_ic_desired)"
proof -
  let ?mr = "\<lambda>r. if r = sample_ic_report then Inr ''{}'' else Inl ()"
  let ?md = "\<lambda>d. if d = sample_ic_desired then Inr ''{}'' else Inl ()"
  have r: "json_carries ascii_report same_report ir_Schema ?mr (\<lambda>s. Inr (Some 1)) (\<lambda>s. Inr sample_ic_report)"
    by (simp add: json_carries_def same_report_def) (simp add: sample_ic_report_def)
  have d: "json_carries ascii_desired same_desired id_Schema ?md (\<lambda>s. Inr (Some 1)) (\<lambda>s. Inr sample_ic_desired)"
    by (simp add: json_carries_def same_desired_def) (simp add: sample_ic_desired_def)
  have "InterconnectReport_Validate sample_ic_report = (None :: unit note_err option)"
    "InterconnectDesired_Validate sample_ic_desired = (None :: unit note_err option)"
    by (simp_all add: InterconnectReport_Validate_iff InterconnectDesired_Validate_iff samples_ok)
  then have "InterconnectReport_Encode ?mr sample_ic_report = Inr ''{}''" "InterconnectDesired_Encode ?md sample_ic_desired = Inr ''{}''"
    by (simp_all add: InterconnectReport_Encode_def InterconnectDesired_Encode_def encodeInterconnectAnnotation_def const_defs)
  with interconnect_notes_roundtrip [OF r d] show ?thesis by blast
qed



lemma label_no_slash: "label_ok u \<Longrightarrow> CHR ''/'' \<notin> set u"
proof -
  have "\<not> label_byte CHR ''/''"
    by (simp add: label_byte_def lower_alnum_def is_lower_def is_digit_def byte_of_def)
  then show "label_ok u \<Longrightarrow> CHR ''/'' \<notin> set u" unfolding label_ok_def by blast
qed

lemma model_key_inj:
  assumes "model_ok m" "model_ok n" "model_key m = model_key n"
  shows "mr_Namespace m = mr_Namespace n \<and> mr_Name m = mr_Name n"
proof -
  have clean: "CHR ''/'' \<notin> set (mr_Namespace m)" "CHR ''/'' \<notin> set (mr_Namespace n)"
    using assms(1,2) label_no_slash by (auto simp: model_ok_def isNamespaceName_iff)
  have "split_on CHR ''/'' (model_key m) = split_on CHR ''/'' (model_key n)" using assms(3) by simp
  then show ?thesis using clean by (simp add: model_key_def split_on_append)
qed

lemma HasMLXModel_mem:
  "HasMLXModel d ns n u \<Longrightarrow>
     \<exists>m \<in> set (els (id_MLXModels d)). mr_Namespace m = ns \<and> mr_Name m = n \<and> mr_UID m = u"
  by (auto simp: HasMLXModel_def list_ex_iff split: if_splits)

text \<open>
  (C15) Ownership of a slot-1 pod is unambiguous: in a decision the parser returned, no UID belongs to two models and no
  model has two UIDs. So an owner reference carried to another namespace, or to another name, matches nothing, and
  neither does the reference of a deleted model whose name is in use again under a new UID.
\<close>

theorem parsed_models_unambiguous:
  assumes "ParseInterconnectDesired probe decode value = Inr d" "HasMLXModel d ns n u"
  shows "(HasMLXModel d ns' n' u \<longrightarrow> ns' = ns \<and> n' = n) \<and> (HasMLXModel d ns n u' \<longrightarrow> u' = u)"
proof -
  from assms(1) have "desired_ok d"
    by (auto simp: ParseInterconnectDesired_def InterconnectDesired_Validate_iff split: sum.splits option.splits)
  then have ok: "\<forall>m \<in> set (els (id_MLXModels d)). model_ok m"
    and keys: "inj_on model_key (set (els (id_MLXModels d)))" and uids: "inj_on mr_UID (set (els (id_MLXModels d)))"
    by (auto simp: desired_ok_def distinct_map)
  from HasMLXModel_mem [OF assms(2)] obtain m where
    m: "m \<in> set (els (id_MLXModels d))" "mr_Namespace m = ns" "mr_Name m = n" "mr_UID m = u" by blast
  show ?thesis
  proof (intro conjI impI)
    assume "HasMLXModel d ns' n' u"
    from HasMLXModel_mem [OF this] obtain k where
      k: "k \<in> set (els (id_MLXModels d))" "mr_Namespace k = ns'" "mr_Name k = n'" "mr_UID k = u" by blast
    then have "k = m" using inj_onD [OF uids, of k m] m by simp
    with k m show "ns' = ns" "n' = n" by simp_all
  next
    assume "HasMLXModel d ns n u'"
    from HasMLXModel_mem [OF this] obtain k where
      k: "k \<in> set (els (id_MLXModels d))" "mr_Namespace k = ns" "mr_Name k = n" "mr_UID k = u'" by blast
    then have "model_key k = model_key m" by (simp add: model_key_def m)
    then have "k = m" using inj_onD [OF keys, of k m] k m by simp
    with k m show "u' = u" by simp
  qed
qed

lemma parsed_models_unambiguous_witness:
  "HasMLXModel sample_ic_desired ''ml'' ''m1'' ''u1'' \<and> \<not> HasMLXModel sample_ic_desired ''other'' ''m1'' ''u1''"
proof -
  have "InterconnectDesired_Validate sample_ic_desired = (None :: unit note_err option)"
    by (simp add: InterconnectDesired_Validate_iff samples_ok)
  then have "ParseInterconnectDesired (\<lambda>s. Inr (Some 1)) (\<lambda>s. Inr sample_ic_desired) ''{}'' = (Inr sample_ic_desired :: unit note_err + _)"
    by (simp add: ParseInterconnectDesired_def decodeInterconnectAnnotation_def const_defs)
  moreover have has: "HasMLXModel sample_ic_desired ''ml'' ''m1'' ''u1''" by (simp add: HasMLXModel_def sample_ic_desired_def)
  ultimately have "HasMLXModel sample_ic_desired ''other'' ''m1'' ''u1'' \<Longrightarrow> ''other'' = ''ml''"
    using parsed_models_unambiguous [of "\<lambda>s. Inr (Some 1)" "\<lambda>s. Inr sample_ic_desired" "''{}''" sample_ic_desired
        "''ml''" "''m1''" "''u1''" "''other''" "''m1''"] by blast
  with has show ?thesis by auto
qed

text \<open>
  A ledger written and read back names the same aliases, each as often as before, in slot order and, within a slot,
  in the order they had. An empty or nil ledger reads back as an empty list, never as a missing one. The hypothesis is
  what \<open>encoding/json\<close> gives: an array of ASCII addresses decodes to itself, and white space after it is ignored.
\<close>

theorem ledger_roundtrip:
  assumes json: "\<And>l' raw. \<forall>e \<in> set (els (il_Aliases l')). ascii_text (le_Address e) \<Longrightarrow> il_Aliases l' \<noteq> NilP \<Longrightarrow> marshal l' = Inr raw \<Longrightarrow>
      \<exists>b. decode (raw @ [char_of (10 :: nat)]) = Inr \<lparr>il_Aliases = Ptr b (els (il_Aliases l'))\<rparr>"
    and ascii: "\<forall>e \<in> set (els (il_Aliases l)). ascii_text (le_Address e)"
    and run: "fst (run_state (InterconnectLedger_Marshal marshal l) k) = Inr s"
  shows "\<exists>b xs. ParseInterconnectLedger decode s = Inr \<lparr>il_Aliases = Ptr b xs\<rparr> \<and> mset xs = mset (els (il_Aliases l)) \<and>
           sorted_wrt (\<lambda>x y. sint (le_Slot x) \<le> sint (le_Slot y)) xs \<and>
           (\<forall>i. filter (\<lambda>e. le_Slot e = i) xs = filter (\<lambda>e. le_Slot e = i) (els (il_Aliases l)))"
proof -
  let ?xs = "SliceStable slot_before (els (il_Aliases l))"
  from run obtain raw where raw: "marshal \<lparr>il_Aliases = Ptr k ?xs\<rparr> = Inr raw" and s: "s = raw @ [char_of (10 :: nat)]"
    by (auto simp: InterconnectLedger_Marshal_def fresh_def Let_def split: sum.splits)
  have "\<forall>e \<in> set (els (il_Aliases \<lparr>il_Aliases = Ptr k ?xs\<rparr>)). ascii_text (le_Address e)" using ascii by simp
  from json [OF this _ raw] s obtain b where "decode s = Inr \<lparr>il_Aliases = Ptr b ?xs\<rparr>" by auto
  moreover have "sorted_wrt (\<lambda>x y. sint (le_Slot x) \<le> sint (le_Slot y)) ?xs"
    using slots.SliceStable_in_order [of "els (il_Aliases l)"] by (simp add: slot_before_def not_less)
  moreover have "filter (\<lambda>e. le_Slot e = i) ?xs = filter (\<lambda>e. le_Slot e = i) (els (il_Aliases l))" for i
    by (rule slots.SliceStable_stable) (simp add: slot_before_def)
  ultimately show ?thesis
    by (intro exI [of _ b] exI [of _ ?xs]) (simp add: ParseInterconnectLedger_def)
qed

lemma ledger_roundtrip_witness:
  "\<exists>b xs. ParseInterconnectLedger (\<lambda>s. Inr \<lparr>il_Aliases = Ptr 3 [\<lparr>le_Slot = 0, le_Address = ''b''\<rparr>, \<lparr>le_Slot = 1, le_Address = ''a''\<rparr>]\<rparr>)
       (''{}'' @ [char_of (10 :: nat)]) = (Inr \<lparr>il_Aliases = Ptr b xs\<rparr> :: unit + _) \<and>
     mset xs = mset [\<lparr>le_Slot = 1, le_Address = ''a''\<rparr>, \<lparr>le_Slot = 0, le_Address = ''b''\<rparr>] \<and>
     sorted_wrt (\<lambda>x y. sint (le_Slot x) \<le> sint (le_Slot y)) xs"
proof -
  let ?a = "\<lparr>le_Slot = 1, le_Address = ''a''\<rparr>" and ?b = "\<lparr>le_Slot = 0, le_Address = ''b''\<rparr>"
  let ?m = "\<lambda>l. if els (il_Aliases l) = [?b, ?a] then Inr ''{}'' else Inl ()"
  let ?d = "\<lambda>s :: string. Inr \<lparr>il_Aliases = Ptr 3 [?b, ?a]\<rparr> :: unit + InterconnectLedger"
  have law: "\<exists>b. ?d (raw @ [char_of (10 :: nat)]) = Inr \<lparr>il_Aliases = Ptr b (els (il_Aliases l'))\<rparr>"
    if "\<forall>e \<in> set (els (il_Aliases l')). ascii_text (le_Address e)" "il_Aliases l' \<noteq> NilP" "?m l' = Inr raw" for l' raw
    using that(3) by (simp split: if_splits)
  have run: "fst (run_state (InterconnectLedger_Marshal ?m \<lparr>il_Aliases = Ptr 0 [?a, ?b]\<rparr>) 5) = Inr (''{}'' @ [char_of (10 :: nat)])"
    by (simp add: InterconnectLedger_Marshal_def fresh_def slot_before_def Let_def)
  have ascii: "\<forall>e \<in> set (els (il_Aliases \<lparr>il_Aliases = Ptr 0 [?a, ?b]\<rparr>)). ascii_text (le_Address e)"
    by (simp add: ascii_text_def byte_of_def)
  have "\<exists>b xs. ParseInterconnectLedger ?d (''{}'' @ [char_of (10 :: nat)]) = Inr \<lparr>il_Aliases = Ptr b xs\<rparr> \<and>
      mset xs = mset (els (il_Aliases \<lparr>il_Aliases = Ptr 0 [?a, ?b]\<rparr>)) \<and>
      sorted_wrt (\<lambda>x y. sint (le_Slot x) \<le> sint (le_Slot y)) xs \<and>
      (\<forall>i. filter (\<lambda>e. le_Slot e = i) xs = filter (\<lambda>e. le_Slot e = i) (els (il_Aliases \<lparr>il_Aliases = Ptr 0 [?a, ?b]\<rparr>)))"
    by (rule ledger_roundtrip [OF _ ascii run]) (erule (2) law)
  then show ?thesis by (elim exE conjE, intro exI conjI) (assumption, simp_all)
qed

end
