(* ===== verification/Updates.thy ===== *)
theory Updates
  imports Policy Observation
begin

text \<open>
  The Update and UpdatePolicy objects of \<open>updates/v1alpha1/update.go\<close> and \<open>updatepolicy.go\<close>: their types and
  the hand-written deep copies. The string types (\<open>UpdateOrder\<close>, \<open>UpdatePhase\<close> and the like) are strings; their
  values are published for other modules and no code of this one reads them.
\<close>

section \<open>Types\<close>

record UpdateStrategy =
  ust_Order :: string
  ust_MaxUnavailable :: int32
  ust_Drain :: bool

record UpdateVerify =
  uv_Signature :: string

record UpdateSpec =
  us_Version :: string
  us_Strategy :: UpdateStrategy
  us_Verify :: UpdateVerify
  us_AllowDowngrade :: bool
  us_Cancel :: bool

record UpdateNodeStatus =
  un_Name :: string
  un_From :: string
  un_To :: string
  un_Phase :: string
  un_Message :: string
  un_AdminTokenRotated :: bool
  un_StartedAt :: "Time ptr"
  un_FinishedAt :: "Time ptr"

record UpdateResolved =
  ur_Version :: string
  ur_Digest :: string

record UpdateStatus =
  ut_Phase :: string
  ut_Resolved :: "UpdateResolved ptr"
  ut_Nodes :: "UpdateNodeStatus slice"
  ut_Conditions :: "Condition slice"
  ut_ObservedGeneration :: int64

record 'm Update =
  up_TypeMeta :: TypeMeta
  up_ObjectMeta :: "'m ObjectMeta"
  up_Spec :: UpdateSpec
  up_Status :: UpdateStatus

record ('l, 'm) UpdateList =
  upl_TypeMeta :: TypeMeta
  upl_ListMeta :: "'l"
  upl_Items :: "'m Update slice"

record UpdatePolicySpec =
  ups_Channel :: string

record 'm UpdatePolicy =
  upp_TypeMeta :: TypeMeta
  upp_ObjectMeta :: "'m ObjectMeta"
  upp_Spec :: UpdatePolicySpec

record ('l, 'm) UpdatePolicyList =
  uppl_TypeMeta :: TypeMeta
  uppl_ListMeta :: "'l"
  uppl_Items :: "'m UpdatePolicy slice"


section \<open>Deep copies\<close>

definition UpdateSpec_DeepCopyInto :: "UpdateSpec \<Rightarrow> (addr, UpdateSpec) state" where
  "UpdateSpec_DeepCopyInto x = State_Monad.return x"

interpretation copy_upspec: deep_copier UpdateSpec_DeepCopyInto "\<lambda>x. x" "\<lambda>x. []"
  by unfold_locales (simp add: UpdateSpec_DeepCopyInto_def copies_return)

definition UpdateNodeStatus_DeepCopyInto ::
  "UpdateNodeStatus \<Rightarrow> (addr, UpdateNodeStatus) state"
where
  "UpdateNodeStatus_DeepCopyInto x = do {
     v1 \<leftarrow> clonePtr (un_StartedAt x);
     v2 \<leftarrow> clonePtr (un_FinishedAt x);
     State_Monad.return (x\<lparr>un_StartedAt := v1, un_FinishedAt := v2\<rparr>) }"

definition strip_upnode ::
  "UpdateNodeStatus \<Rightarrow> UpdateNodeStatus"
where
  "strip_upnode x = \<lparr>un_Name = un_Name x, un_From = un_From x, un_To = un_To x, un_Phase = un_Phase x,
     un_Message = un_Message x, un_AdminTokenRotated = un_AdminTokenRotated x,
     un_StartedAt = strip_leaf (un_StartedAt x), un_FinishedAt = strip_leaf (un_FinishedAt x)\<rparr>"

definition addrs_upnode ::
  "UpdateNodeStatus \<Rightarrow> addr list"
where
  "addrs_upnode x = addrs_leaf (un_StartedAt x) @ addrs_leaf (un_FinishedAt x)"

interpretation copy_upnode: deep_copier UpdateNodeStatus_DeepCopyInto strip_upnode addrs_upnode
proof
  fix x
  show "copies [] (UpdateNodeStatus_DeepCopyInto x) addrs_upnode (\<lambda>y. strip_upnode y = strip_upnode x)"
    unfolding UpdateNodeStatus_DeepCopyInto_def
    apply (rule copies_bind [OF clone_ptr.copy_copies])
    apply (rule copies_bind [OF clone_ptr.copy_copies])
    apply (rule copies_return; simp add: addrs_upnode_def strip_upnode_def)
    done
qed

definition UpdateStatus_DeepCopyInto ::
  "UpdateStatus \<Rightarrow> (addr, UpdateStatus) state"
where
  "UpdateStatus_DeepCopyInto x = do {
     v1 \<leftarrow> clonePtr (ut_Resolved x);
     v2 \<leftarrow> copySlice UpdateNodeStatus_DeepCopyInto (ut_Nodes x);
     v3 \<leftarrow> cloneSlice (ut_Conditions x);
     State_Monad.return (x\<lparr>ut_Resolved := v1, ut_Nodes := v2, ut_Conditions := v3\<rparr>) }"

definition strip_upstatus ::
  "UpdateStatus \<Rightarrow> UpdateStatus"
where
  "strip_upstatus x = \<lparr>ut_Phase = ut_Phase x, ut_Resolved = strip_leaf (ut_Resolved x),
     ut_Nodes = strip_slice strip_upnode (ut_Nodes x), ut_Conditions = strip_leaf (ut_Conditions x),
     ut_ObservedGeneration = ut_ObservedGeneration x\<rparr>"

definition addrs_upstatus ::
  "UpdateStatus \<Rightarrow> addr list"
where
  "addrs_upstatus x = addrs_leaf (ut_Resolved x) @ addrs_slice addrs_upnode (ut_Nodes x) @ addrs_leaf (ut_Conditions x)"

interpretation copy_upstatus: deep_copier UpdateStatus_DeepCopyInto strip_upstatus addrs_upstatus
proof
  fix x
  show "copies [] (UpdateStatus_DeepCopyInto x) addrs_upstatus (\<lambda>y. strip_upstatus y = strip_upstatus x)"
    unfolding UpdateStatus_DeepCopyInto_def
    apply (rule copies_bind [OF clone_ptr.copy_copies])
    apply (rule copies_bind [OF copy_upnode.copySlice_copies])
    apply (rule copies_bind [OF clone_slice.copy_copies])
    apply (rule copies_return; simp add: addrs_upstatus_def strip_upstatus_def)
    done
qed

definition Update_DeepCopyInto ::
  "('m ObjectMeta \<Rightarrow> (addr, 'm ObjectMeta) state) \<Rightarrow> 'm Update \<Rightarrow> (addr, 'm Update) state"
where
  "Update_DeepCopyInto copyMeta x = do {
     v1 \<leftarrow> copyMeta (up_ObjectMeta x);
     v2 \<leftarrow> UpdateSpec_DeepCopyInto (up_Spec x);
     v3 \<leftarrow> UpdateStatus_DeepCopyInto (up_Status x);
     State_Monad.return (x\<lparr>up_ObjectMeta := v1, up_Spec := v2, up_Status := v3\<rparr>) }"

definition strip_update ::
  "('m ObjectMeta \<Rightarrow> 'm ObjectMeta) \<Rightarrow> 'm Update \<Rightarrow> 'm Update"
where
  "strip_update stripMeta x = \<lparr>up_TypeMeta = up_TypeMeta x, up_ObjectMeta = stripMeta (up_ObjectMeta x),
     up_Spec = (\<lambda>x. x) (up_Spec x), up_Status = strip_upstatus (up_Status x)\<rparr>"

definition addrs_update ::
  "('m ObjectMeta \<Rightarrow> addr list) \<Rightarrow> 'm Update \<Rightarrow> addr list"
where
  "addrs_update addrsMeta x = addrsMeta (up_ObjectMeta x) @ (\<lambda>x. []) (up_Spec x) @ addrs_upstatus (up_Status x)"

lemma update_copier:
  assumes meta: "deep_copier copyMeta stripMeta addrsMeta"
  shows "deep_copier (Update_DeepCopyInto copyMeta) (strip_update stripMeta) (addrs_update addrsMeta)"
proof
  fix x
  show "copies [] (Update_DeepCopyInto copyMeta x) (addrs_update addrsMeta) (\<lambda>y. strip_update stripMeta y = strip_update stripMeta x)"
    unfolding Update_DeepCopyInto_def
    apply (rule copies_bind [OF deep_copier.copy_copies [OF meta]])
    apply (rule copies_bind [OF copy_upspec.copy_copies])
    apply (rule copies_bind [OF copy_upstatus.copy_copies])
    apply (rule copies_return; simp add: addrs_update_def strip_update_def)
    done
qed

definition UpdateList_DeepCopyInto ::
  "('l \<Rightarrow> (addr, 'l) state) \<Rightarrow> ('m ObjectMeta \<Rightarrow> (addr, 'm ObjectMeta) state) \<Rightarrow> ('l, 'm) UpdateList \<Rightarrow> (addr, ('l, 'm) UpdateList) state"
where
  "UpdateList_DeepCopyInto copyList copyMeta x = do {
     v1 \<leftarrow> copyList (upl_ListMeta x);
     v2 \<leftarrow> copySlice (Update_DeepCopyInto copyMeta) (upl_Items x);
     State_Monad.return (x\<lparr>upl_ListMeta := v1, upl_Items := v2\<rparr>) }"

definition strip_updates ::
  "('l \<Rightarrow> 'l) \<Rightarrow> ('m ObjectMeta \<Rightarrow> 'm ObjectMeta) \<Rightarrow> ('l, 'm) UpdateList \<Rightarrow> ('l, 'm) UpdateList"
where
  "strip_updates stripList stripMeta x = \<lparr>upl_TypeMeta = upl_TypeMeta x, upl_ListMeta = stripList (upl_ListMeta x),
     upl_Items = strip_slice (strip_update stripMeta) (upl_Items x)\<rparr>"

definition addrs_updates ::
  "('l \<Rightarrow> addr list) \<Rightarrow> ('m ObjectMeta \<Rightarrow> addr list) \<Rightarrow> ('l, 'm) UpdateList \<Rightarrow> addr list"
where
  "addrs_updates addrsList addrsMeta x = addrsList (upl_ListMeta x) @ addrs_slice (addrs_update addrsMeta) (upl_Items x)"

lemma updates_copier:
  assumes list: "deep_copier copyList stripList addrsList" and meta: "deep_copier copyMeta stripMeta addrsMeta"
  shows "deep_copier (UpdateList_DeepCopyInto copyList copyMeta) (strip_updates stripList stripMeta) (addrs_updates addrsList addrsMeta)"
proof
  fix x
  show "copies [] (UpdateList_DeepCopyInto copyList copyMeta x) (addrs_updates addrsList addrsMeta) (\<lambda>y. strip_updates stripList stripMeta y = strip_updates stripList stripMeta x)"
    unfolding UpdateList_DeepCopyInto_def
    apply (rule copies_bind [OF deep_copier.copy_copies [OF list]])
    apply (rule copies_bind [OF deep_copier.copySlice_copies [OF update_copier [OF meta]]])
    apply (rule copies_return; simp add: addrs_updates_def strip_updates_def)
    done
qed

definition UpdatePolicySpec_DeepCopyInto :: "UpdatePolicySpec \<Rightarrow> (addr, UpdatePolicySpec) state" where
  "UpdatePolicySpec_DeepCopyInto x = State_Monad.return x"

interpretation copy_uppolspec: deep_copier UpdatePolicySpec_DeepCopyInto "\<lambda>x. x" "\<lambda>x. []"
  by unfold_locales (simp add: UpdatePolicySpec_DeepCopyInto_def copies_return)

definition UpdatePolicy_DeepCopyInto ::
  "('m ObjectMeta \<Rightarrow> (addr, 'm ObjectMeta) state) \<Rightarrow> 'm UpdatePolicy \<Rightarrow> (addr, 'm UpdatePolicy) state"
where
  "UpdatePolicy_DeepCopyInto copyMeta x = do {
     v1 \<leftarrow> copyMeta (upp_ObjectMeta x);
     v2 \<leftarrow> UpdatePolicySpec_DeepCopyInto (upp_Spec x);
     State_Monad.return (x\<lparr>upp_ObjectMeta := v1, upp_Spec := v2\<rparr>) }"

definition strip_uppol ::
  "('m ObjectMeta \<Rightarrow> 'm ObjectMeta) \<Rightarrow> 'm UpdatePolicy \<Rightarrow> 'm UpdatePolicy"
where
  "strip_uppol stripMeta x = \<lparr>upp_TypeMeta = upp_TypeMeta x, upp_ObjectMeta = stripMeta (upp_ObjectMeta x),
     upp_Spec = (\<lambda>x. x) (upp_Spec x)\<rparr>"

definition addrs_uppol ::
  "('m ObjectMeta \<Rightarrow> addr list) \<Rightarrow> 'm UpdatePolicy \<Rightarrow> addr list"
where
  "addrs_uppol addrsMeta x = addrsMeta (upp_ObjectMeta x) @ (\<lambda>x. []) (upp_Spec x)"

lemma uppol_copier:
  assumes meta: "deep_copier copyMeta stripMeta addrsMeta"
  shows "deep_copier (UpdatePolicy_DeepCopyInto copyMeta) (strip_uppol stripMeta) (addrs_uppol addrsMeta)"
proof
  fix x
  show "copies [] (UpdatePolicy_DeepCopyInto copyMeta x) (addrs_uppol addrsMeta) (\<lambda>y. strip_uppol stripMeta y = strip_uppol stripMeta x)"
    unfolding UpdatePolicy_DeepCopyInto_def
    apply (rule copies_bind [OF deep_copier.copy_copies [OF meta]])
    apply (rule copies_bind [OF copy_uppolspec.copy_copies])
    apply (rule copies_return; simp add: addrs_uppol_def strip_uppol_def)
    done
qed

definition UpdatePolicyList_DeepCopyInto ::
  "('l \<Rightarrow> (addr, 'l) state) \<Rightarrow> ('m ObjectMeta \<Rightarrow> (addr, 'm ObjectMeta) state) \<Rightarrow> ('l, 'm) UpdatePolicyList \<Rightarrow> (addr, ('l, 'm) UpdatePolicyList) state"
where
  "UpdatePolicyList_DeepCopyInto copyList copyMeta x = do {
     v1 \<leftarrow> copyList (uppl_ListMeta x);
     v2 \<leftarrow> copySlice (UpdatePolicy_DeepCopyInto copyMeta) (uppl_Items x);
     State_Monad.return (x\<lparr>uppl_ListMeta := v1, uppl_Items := v2\<rparr>) }"

definition strip_uppols ::
  "('l \<Rightarrow> 'l) \<Rightarrow> ('m ObjectMeta \<Rightarrow> 'm ObjectMeta) \<Rightarrow> ('l, 'm) UpdatePolicyList \<Rightarrow> ('l, 'm) UpdatePolicyList"
where
  "strip_uppols stripList stripMeta x = \<lparr>uppl_TypeMeta = uppl_TypeMeta x, uppl_ListMeta = stripList (uppl_ListMeta x),
     uppl_Items = strip_slice (strip_uppol stripMeta) (uppl_Items x)\<rparr>"

definition addrs_uppols ::
  "('l \<Rightarrow> addr list) \<Rightarrow> ('m ObjectMeta \<Rightarrow> addr list) \<Rightarrow> ('l, 'm) UpdatePolicyList \<Rightarrow> addr list"
where
  "addrs_uppols addrsList addrsMeta x = addrsList (uppl_ListMeta x) @ addrs_slice (addrs_uppol addrsMeta) (uppl_Items x)"

lemma uppols_copier:
  assumes list: "deep_copier copyList stripList addrsList" and meta: "deep_copier copyMeta stripMeta addrsMeta"
  shows "deep_copier (UpdatePolicyList_DeepCopyInto copyList copyMeta) (strip_uppols stripList stripMeta) (addrs_uppols addrsList addrsMeta)"
proof
  fix x
  show "copies [] (UpdatePolicyList_DeepCopyInto copyList copyMeta x) (addrs_uppols addrsList addrsMeta) (\<lambda>y. strip_uppols stripList stripMeta y = strip_uppols stripList stripMeta x)"
    unfolding UpdatePolicyList_DeepCopyInto_def
    apply (rule copies_bind [OF deep_copier.copy_copies [OF list]])
    apply (rule copies_bind [OF deep_copier.copySlice_copies [OF uppol_copier [OF meta]]])
    apply (rule copies_return; simp add: addrs_uppols_def strip_uppols_def)
    done
qed

text \<open>The pointer methods: a nil receiver gives nil.\<close>

definition UpdateSpec_DeepCopy ::
  "UpdateSpec ptr \<Rightarrow> (addr, UpdateSpec ptr) state"
where
  "UpdateSpec_DeepCopy p = copyPtr UpdateSpec_DeepCopyInto p"

definition UpdateNodeStatus_DeepCopy ::
  "UpdateNodeStatus ptr \<Rightarrow> (addr, UpdateNodeStatus ptr) state"
where
  "UpdateNodeStatus_DeepCopy p = copyPtr UpdateNodeStatus_DeepCopyInto p"

definition UpdateStatus_DeepCopy ::
  "UpdateStatus ptr \<Rightarrow> (addr, UpdateStatus ptr) state"
where
  "UpdateStatus_DeepCopy p = copyPtr UpdateStatus_DeepCopyInto p"

definition UpdatePolicySpec_DeepCopy ::
  "UpdatePolicySpec ptr \<Rightarrow> (addr, UpdatePolicySpec ptr) state"
where
  "UpdatePolicySpec_DeepCopy p = copyPtr UpdatePolicySpec_DeepCopyInto p"

definition Update_DeepCopy ::
  "('m ObjectMeta \<Rightarrow> (addr, 'm ObjectMeta) state) \<Rightarrow> 'm Update ptr \<Rightarrow> (addr, 'm Update ptr) state"
where
  "Update_DeepCopy copyMeta p = copyPtr (Update_DeepCopyInto copyMeta) p"

definition Update_DeepCopyObject ::
  "('m ObjectMeta \<Rightarrow> (addr, 'm ObjectMeta) state) \<Rightarrow> 'm Update ptr \<Rightarrow> (addr, 'm Update ptr) state"
where
  "Update_DeepCopyObject copyMeta p = as_object (Update_DeepCopy copyMeta p)"

definition UpdateList_DeepCopy ::
  "('l \<Rightarrow> (addr, 'l) state) \<Rightarrow> ('m ObjectMeta \<Rightarrow> (addr, 'm ObjectMeta) state) \<Rightarrow> ('l, 'm) UpdateList ptr \<Rightarrow> (addr, ('l, 'm) UpdateList ptr) state"
where
  "UpdateList_DeepCopy copyList copyMeta p = copyPtr (UpdateList_DeepCopyInto copyList copyMeta) p"

definition UpdateList_DeepCopyObject ::
  "('l \<Rightarrow> (addr, 'l) state) \<Rightarrow> ('m ObjectMeta \<Rightarrow> (addr, 'm ObjectMeta) state) \<Rightarrow> ('l, 'm) UpdateList ptr \<Rightarrow> (addr, ('l, 'm) UpdateList ptr) state"
where
  "UpdateList_DeepCopyObject copyList copyMeta p = as_object (UpdateList_DeepCopy copyList copyMeta p)"

definition UpdatePolicy_DeepCopy ::
  "('m ObjectMeta \<Rightarrow> (addr, 'm ObjectMeta) state) \<Rightarrow> 'm UpdatePolicy ptr \<Rightarrow> (addr, 'm UpdatePolicy ptr) state"
where
  "UpdatePolicy_DeepCopy copyMeta p = copyPtr (UpdatePolicy_DeepCopyInto copyMeta) p"

definition UpdatePolicy_DeepCopyObject ::
  "('m ObjectMeta \<Rightarrow> (addr, 'm ObjectMeta) state) \<Rightarrow> 'm UpdatePolicy ptr \<Rightarrow> (addr, 'm UpdatePolicy ptr) state"
where
  "UpdatePolicy_DeepCopyObject copyMeta p = as_object (UpdatePolicy_DeepCopy copyMeta p)"

definition UpdatePolicyList_DeepCopy ::
  "('l \<Rightarrow> (addr, 'l) state) \<Rightarrow> ('m ObjectMeta \<Rightarrow> (addr, 'm ObjectMeta) state) \<Rightarrow> ('l, 'm) UpdatePolicyList ptr \<Rightarrow> (addr, ('l, 'm) UpdatePolicyList ptr) state"
where
  "UpdatePolicyList_DeepCopy copyList copyMeta p = copyPtr (UpdatePolicyList_DeepCopyInto copyList copyMeta) p"

definition UpdatePolicyList_DeepCopyObject ::
  "('l \<Rightarrow> (addr, 'l) state) \<Rightarrow> ('m ObjectMeta \<Rightarrow> (addr, 'm ObjectMeta) state) \<Rightarrow> ('l, 'm) UpdatePolicyList ptr \<Rightarrow> (addr, ('l, 'm) UpdatePolicyList ptr) state"
where
  "UpdatePolicyList_DeepCopyObject copyList copyMeta p = as_object (UpdatePolicyList_DeepCopy copyList copyMeta p)"

end
