(* ===== verification/MLXModels.thy ===== *)
theory MLXModels
  imports Policy Observation
begin

text \<open>
  The MLXModel object of \<open>mlx/v1alpha1/mlxmodel.go\<close> with the \<open>ArtifactRef\<close> of \<open>artifactref.go\<close>: types and the
  hand-written deep copies. \<open>resource.Quantity\<close> is the type variable \<open>'q\<close>, with its \<open>DeepCopy\<close> an argument.
\<close>

section \<open>Types\<close>

record ArtifactRef =
  ar_Reference :: string
  ar_Variant :: string

record MLXRuntime =
  mrt_Image :: string
  mrt_Args :: "string slice"

record 'q MLXCache =
  mc_Size :: "'q"
  mc_StorageClassName :: string

record MLXDistributed =
  md_Ranks :: int32
  md_Backend :: string
  md_Parallelism :: string
  md_Interconnect :: string

record 'q MLXModelSpec =
  ms_Model :: string
  ms_Artifact :: "ArtifactRef ptr"
  ms_Revision :: string
  ms_Quantization :: string
  ms_Memory :: "'q"
  ms_Replicas :: "int32 ptr"
  ms_Port :: int32
  ms_Runtime :: MLXRuntime
  ms_Cache :: "'q MLXCache ptr"
  ms_NodeSelector :: "(string, string) gomap ptr"
  ms_Distributed :: "MLXDistributed ptr"

record MLXModelStatus =
  mst_Conditions :: "Condition slice"
  mst_ObservedGeneration :: int64
  mst_Phase :: string
  mst_Endpoint :: string
  mst_ResolvedRevision :: string
  mst_ResolvedArtifact :: string
  mst_Replicas :: int32
  mst_ReadyReplicas :: int32
  mst_UpdatedReplicas :: int32

record ('m, 'q) MLXModel =
  mm_TypeMeta :: TypeMeta
  mm_ObjectMeta :: "'m ObjectMeta"
  mm_Spec :: "'q MLXModelSpec"
  mm_Status :: MLXModelStatus

record ('l, 'm, 'q) MLXModelList =
  mml_TypeMeta :: TypeMeta
  mml_ListMeta :: "'l"
  mml_Items :: "('m, 'q) MLXModel slice"


section \<open>Deep copies\<close>

definition MLXRuntime_DeepCopyInto ::
  "MLXRuntime \<Rightarrow> (addr, MLXRuntime) state"
where
  "MLXRuntime_DeepCopyInto x = do {
     v1 \<leftarrow> cloneSlice (mrt_Args x);
     State_Monad.return (x\<lparr>mrt_Args := v1\<rparr>) }"

definition strip_mlxruntime ::
  "MLXRuntime \<Rightarrow> MLXRuntime"
where
  "strip_mlxruntime x = \<lparr>mrt_Image = mrt_Image x, mrt_Args = strip_leaf (mrt_Args x)\<rparr>"

definition addrs_mlxruntime ::
  "MLXRuntime \<Rightarrow> addr list"
where
  "addrs_mlxruntime x = addrs_leaf (mrt_Args x)"

interpretation copy_mlxruntime: deep_copier MLXRuntime_DeepCopyInto strip_mlxruntime addrs_mlxruntime
proof
  fix x
  show "copies [] (MLXRuntime_DeepCopyInto x) addrs_mlxruntime (\<lambda>y. strip_mlxruntime y = strip_mlxruntime x)"
    unfolding MLXRuntime_DeepCopyInto_def
    apply (rule copies_bind [OF clone_slice.copy_copies])
    apply (rule copies_return; simp add: addrs_mlxruntime_def strip_mlxruntime_def)
    done
qed

definition MLXCache_DeepCopyInto ::
  "('q \<Rightarrow> (addr, 'q) state) \<Rightarrow> 'q MLXCache \<Rightarrow> (addr, 'q MLXCache) state"
where
  "MLXCache_DeepCopyInto copyQuantity x = do {
     v1 \<leftarrow> copyQuantity (mc_Size x);
     State_Monad.return (x\<lparr>mc_Size := v1\<rparr>) }"

definition strip_mlxcache ::
  "('q \<Rightarrow> 'q) \<Rightarrow> 'q MLXCache \<Rightarrow> 'q MLXCache"
where
  "strip_mlxcache stripQuantity x = \<lparr>mc_Size = stripQuantity (mc_Size x), mc_StorageClassName = mc_StorageClassName x\<rparr>"

definition addrs_mlxcache ::
  "('q \<Rightarrow> addr list) \<Rightarrow> 'q MLXCache \<Rightarrow> addr list"
where
  "addrs_mlxcache addrsQuantity x = addrsQuantity (mc_Size x)"

lemma mlxcache_copier:
  assumes quantity: "deep_copier copyQuantity stripQuantity addrsQuantity"
  shows "deep_copier (MLXCache_DeepCopyInto copyQuantity) (strip_mlxcache stripQuantity) (addrs_mlxcache addrsQuantity)"
proof
  fix x
  show "copies [] (MLXCache_DeepCopyInto copyQuantity x) (addrs_mlxcache addrsQuantity) (\<lambda>y. strip_mlxcache stripQuantity y = strip_mlxcache stripQuantity x)"
    unfolding MLXCache_DeepCopyInto_def
    apply (rule copies_bind [OF deep_copier.copy_copies [OF quantity]])
    apply (rule copies_return; simp add: addrs_mlxcache_def strip_mlxcache_def)
    done
qed

definition MLXDistributed_DeepCopyInto :: "MLXDistributed \<Rightarrow> (addr, MLXDistributed) state" where
  "MLXDistributed_DeepCopyInto x = State_Monad.return x"

interpretation copy_mlxdistributed: deep_copier MLXDistributed_DeepCopyInto "\<lambda>x. x" "\<lambda>x. []"
  by unfold_locales (simp add: MLXDistributed_DeepCopyInto_def copies_return)

definition MLXModelSpec_DeepCopyInto ::
  "('q \<Rightarrow> (addr, 'q) state) \<Rightarrow> 'q MLXModelSpec \<Rightarrow> (addr, 'q MLXModelSpec) state"
where
  "MLXModelSpec_DeepCopyInto copyQuantity x = do {
     v1 \<leftarrow> copyQuantity (ms_Memory x);
     v2 \<leftarrow> clonePtr (ms_Replicas x);
     v3 \<leftarrow> clonePtr (ms_Artifact x);
     v4 \<leftarrow> MLXRuntime_DeepCopyInto (ms_Runtime x);
     v5 \<leftarrow> copyPtr (MLXCache_DeepCopyInto copyQuantity) (ms_Cache x);
     v6 \<leftarrow> copyMap (ms_NodeSelector x);
     v7 \<leftarrow> copyPtr MLXDistributed_DeepCopyInto (ms_Distributed x);
     State_Monad.return (x\<lparr>ms_Memory := v1, ms_Replicas := v2, ms_Artifact := v3, ms_Runtime := v4, ms_Cache := v5,
       ms_NodeSelector := v6, ms_Distributed := v7\<rparr>) }"

definition strip_mlxspec ::
  "('q \<Rightarrow> 'q) \<Rightarrow> 'q MLXModelSpec \<Rightarrow> 'q MLXModelSpec"
where
  "strip_mlxspec stripQuantity x = \<lparr>ms_Model = ms_Model x, ms_Artifact = strip_leaf (ms_Artifact x), ms_Revision = ms_Revision x,
     ms_Quantization = ms_Quantization x, ms_Memory = stripQuantity (ms_Memory x),
     ms_Replicas = strip_leaf (ms_Replicas x), ms_Port = ms_Port x,
     ms_Runtime = strip_mlxruntime (ms_Runtime x),
     ms_Cache = strip_ptr (strip_mlxcache stripQuantity) (ms_Cache x),
     ms_NodeSelector = strip_map (ms_NodeSelector x),
     ms_Distributed = strip_ptr (\<lambda>x. x) (ms_Distributed x)\<rparr>"

definition addrs_mlxspec ::
  "('q \<Rightarrow> addr list) \<Rightarrow> 'q MLXModelSpec \<Rightarrow> addr list"
where
  "addrs_mlxspec addrsQuantity x = addrsQuantity (ms_Memory x) @ addrs_leaf (ms_Replicas x) @ addrs_leaf (ms_Artifact x) @
     addrs_mlxruntime (ms_Runtime x) @ addrs_ptr (addrs_mlxcache addrsQuantity) (ms_Cache x) @
     addrs_leaf (ms_NodeSelector x) @ addrs_ptr (\<lambda>x. []) (ms_Distributed x)"

lemma mlxspec_copier:
  assumes quantity: "deep_copier copyQuantity stripQuantity addrsQuantity"
  shows "deep_copier (MLXModelSpec_DeepCopyInto copyQuantity) (strip_mlxspec stripQuantity) (addrs_mlxspec addrsQuantity)"
proof
  fix x
  show "copies [] (MLXModelSpec_DeepCopyInto copyQuantity x) (addrs_mlxspec addrsQuantity) (\<lambda>y. strip_mlxspec stripQuantity y = strip_mlxspec stripQuantity x)"
    unfolding MLXModelSpec_DeepCopyInto_def
    apply (rule copies_bind [OF deep_copier.copy_copies [OF quantity]])
    apply (rule copies_bind [OF clone_ptr.copy_copies])
    apply (rule copies_bind [OF clone_ptr.copy_copies])
    apply (rule copies_bind [OF copy_mlxruntime.copy_copies])
    apply (rule copies_bind [OF deep_copier.copyPtr_copies [OF mlxcache_copier [OF quantity]]])
    apply (rule copies_bind [OF copy_map.copy_copies])
    apply (rule copies_bind [OF copy_mlxdistributed.copyPtr_copies])
    apply (rule copies_return; simp add: addrs_mlxspec_def strip_mlxspec_def)
    done
qed

definition MLXModelStatus_DeepCopyInto ::
  "MLXModelStatus \<Rightarrow> (addr, MLXModelStatus) state"
where
  "MLXModelStatus_DeepCopyInto x = do {
     v1 \<leftarrow> cloneSlice (mst_Conditions x);
     State_Monad.return (x\<lparr>mst_Conditions := v1\<rparr>) }"

definition strip_mlxstatus ::
  "MLXModelStatus \<Rightarrow> MLXModelStatus"
where
  "strip_mlxstatus x = \<lparr>mst_Conditions = strip_leaf (mst_Conditions x), mst_ObservedGeneration = mst_ObservedGeneration x,
     mst_Phase = mst_Phase x, mst_Endpoint = mst_Endpoint x,
     mst_ResolvedRevision = mst_ResolvedRevision x, mst_ResolvedArtifact = mst_ResolvedArtifact x,
     mst_Replicas = mst_Replicas x, mst_ReadyReplicas = mst_ReadyReplicas x,
     mst_UpdatedReplicas = mst_UpdatedReplicas x\<rparr>"

definition addrs_mlxstatus ::
  "MLXModelStatus \<Rightarrow> addr list"
where
  "addrs_mlxstatus x = addrs_leaf (mst_Conditions x)"

interpretation copy_mlxstatus: deep_copier MLXModelStatus_DeepCopyInto strip_mlxstatus addrs_mlxstatus
proof
  fix x
  show "copies [] (MLXModelStatus_DeepCopyInto x) addrs_mlxstatus (\<lambda>y. strip_mlxstatus y = strip_mlxstatus x)"
    unfolding MLXModelStatus_DeepCopyInto_def
    apply (rule copies_bind [OF clone_slice.copy_copies])
    apply (rule copies_return; simp add: addrs_mlxstatus_def strip_mlxstatus_def)
    done
qed

definition MLXModel_DeepCopyInto ::
  "('m ObjectMeta \<Rightarrow> (addr, 'm ObjectMeta) state) \<Rightarrow> ('q \<Rightarrow> (addr, 'q) state) \<Rightarrow> ('m, 'q) MLXModel \<Rightarrow> (addr, ('m, 'q) MLXModel) state"
where
  "MLXModel_DeepCopyInto copyMeta copyQuantity x = do {
     v1 \<leftarrow> copyMeta (mm_ObjectMeta x);
     v2 \<leftarrow> MLXModelSpec_DeepCopyInto copyQuantity (mm_Spec x);
     v3 \<leftarrow> MLXModelStatus_DeepCopyInto (mm_Status x);
     State_Monad.return (x\<lparr>mm_ObjectMeta := v1, mm_Spec := v2, mm_Status := v3\<rparr>) }"

definition strip_mlxmodel ::
  "('m ObjectMeta \<Rightarrow> 'm ObjectMeta) \<Rightarrow> ('q \<Rightarrow> 'q) \<Rightarrow> ('m, 'q) MLXModel \<Rightarrow> ('m, 'q) MLXModel"
where
  "strip_mlxmodel stripMeta stripQuantity x = \<lparr>mm_TypeMeta = mm_TypeMeta x, mm_ObjectMeta = stripMeta (mm_ObjectMeta x),
     mm_Spec = strip_mlxspec stripQuantity (mm_Spec x), mm_Status = strip_mlxstatus (mm_Status x)\<rparr>"

definition addrs_mlxmodel ::
  "('m ObjectMeta \<Rightarrow> addr list) \<Rightarrow> ('q \<Rightarrow> addr list) \<Rightarrow> ('m, 'q) MLXModel \<Rightarrow> addr list"
where
  "addrs_mlxmodel addrsMeta addrsQuantity x = addrsMeta (mm_ObjectMeta x) @ addrs_mlxspec addrsQuantity (mm_Spec x) @
     addrs_mlxstatus (mm_Status x)"

lemma mlxmodel_copier:
  assumes meta: "deep_copier copyMeta stripMeta addrsMeta" and quantity: "deep_copier copyQuantity stripQuantity addrsQuantity"
  shows "deep_copier (MLXModel_DeepCopyInto copyMeta copyQuantity) (strip_mlxmodel stripMeta stripQuantity) (addrs_mlxmodel addrsMeta addrsQuantity)"
proof
  fix x
  show "copies [] (MLXModel_DeepCopyInto copyMeta copyQuantity x) (addrs_mlxmodel addrsMeta addrsQuantity) (\<lambda>y. strip_mlxmodel stripMeta stripQuantity y = strip_mlxmodel stripMeta stripQuantity x)"
    unfolding MLXModel_DeepCopyInto_def
    apply (rule copies_bind [OF deep_copier.copy_copies [OF meta]])
    apply (rule copies_bind [OF deep_copier.copy_copies [OF mlxspec_copier [OF quantity]]])
    apply (rule copies_bind [OF copy_mlxstatus.copy_copies])
    apply (rule copies_return; simp add: addrs_mlxmodel_def strip_mlxmodel_def)
    done
qed

definition MLXModelList_DeepCopyInto ::
  "('l \<Rightarrow> (addr, 'l) state) \<Rightarrow> ('m ObjectMeta \<Rightarrow> (addr, 'm ObjectMeta) state) \<Rightarrow> ('q \<Rightarrow> (addr, 'q) state) \<Rightarrow> ('l, 'm, 'q) MLXModelList \<Rightarrow> (addr, ('l, 'm, 'q) MLXModelList) state"
where
  "MLXModelList_DeepCopyInto copyList copyMeta copyQuantity x = do {
     v1 \<leftarrow> copyList (mml_ListMeta x);
     v2 \<leftarrow> copySlice (MLXModel_DeepCopyInto copyMeta copyQuantity) (mml_Items x);
     State_Monad.return (x\<lparr>mml_ListMeta := v1, mml_Items := v2\<rparr>) }"

definition strip_mlxmodels ::
  "('l \<Rightarrow> 'l) \<Rightarrow> ('m ObjectMeta \<Rightarrow> 'm ObjectMeta) \<Rightarrow> ('q \<Rightarrow> 'q) \<Rightarrow> ('l, 'm, 'q) MLXModelList \<Rightarrow> ('l, 'm, 'q) MLXModelList"
where
  "strip_mlxmodels stripList stripMeta stripQuantity x = \<lparr>mml_TypeMeta = mml_TypeMeta x, mml_ListMeta = stripList (mml_ListMeta x),
     mml_Items = strip_slice (strip_mlxmodel stripMeta stripQuantity) (mml_Items x)\<rparr>"

definition addrs_mlxmodels ::
  "('l \<Rightarrow> addr list) \<Rightarrow> ('m ObjectMeta \<Rightarrow> addr list) \<Rightarrow> ('q \<Rightarrow> addr list) \<Rightarrow> ('l, 'm, 'q) MLXModelList \<Rightarrow> addr list"
where
  "addrs_mlxmodels addrsList addrsMeta addrsQuantity x = addrsList (mml_ListMeta x) @ addrs_slice (addrs_mlxmodel addrsMeta addrsQuantity) (mml_Items x)"

lemma mlxmodels_copier:
  assumes list: "deep_copier copyList stripList addrsList" and meta: "deep_copier copyMeta stripMeta addrsMeta" and quantity: "deep_copier copyQuantity stripQuantity addrsQuantity"
  shows "deep_copier (MLXModelList_DeepCopyInto copyList copyMeta copyQuantity) (strip_mlxmodels stripList stripMeta stripQuantity) (addrs_mlxmodels addrsList addrsMeta addrsQuantity)"
proof
  fix x
  show "copies [] (MLXModelList_DeepCopyInto copyList copyMeta copyQuantity x) (addrs_mlxmodels addrsList addrsMeta addrsQuantity) (\<lambda>y. strip_mlxmodels stripList stripMeta stripQuantity y = strip_mlxmodels stripList stripMeta stripQuantity x)"
    unfolding MLXModelList_DeepCopyInto_def
    apply (rule copies_bind [OF deep_copier.copy_copies [OF list]])
    apply (rule copies_bind [OF deep_copier.copySlice_copies [OF mlxmodel_copier [OF meta quantity]]])
    apply (rule copies_return; simp add: addrs_mlxmodels_def strip_mlxmodels_def)
    done
qed

text \<open>The pointer methods: a nil receiver gives nil.\<close>

definition MLXRuntime_DeepCopy ::
  "MLXRuntime ptr \<Rightarrow> (addr, MLXRuntime ptr) state"
where
  "MLXRuntime_DeepCopy p = copyPtr MLXRuntime_DeepCopyInto p"

definition MLXCache_DeepCopy ::
  "('q \<Rightarrow> (addr, 'q) state) \<Rightarrow> 'q MLXCache ptr \<Rightarrow> (addr, 'q MLXCache ptr) state"
where
  "MLXCache_DeepCopy copyQuantity p = copyPtr (MLXCache_DeepCopyInto copyQuantity) p"

definition MLXDistributed_DeepCopy ::
  "MLXDistributed ptr \<Rightarrow> (addr, MLXDistributed ptr) state"
where
  "MLXDistributed_DeepCopy p = copyPtr MLXDistributed_DeepCopyInto p"

definition MLXModelSpec_DeepCopy ::
  "('q \<Rightarrow> (addr, 'q) state) \<Rightarrow> 'q MLXModelSpec ptr \<Rightarrow> (addr, 'q MLXModelSpec ptr) state"
where
  "MLXModelSpec_DeepCopy copyQuantity p = copyPtr (MLXModelSpec_DeepCopyInto copyQuantity) p"

definition MLXModelStatus_DeepCopy ::
  "MLXModelStatus ptr \<Rightarrow> (addr, MLXModelStatus ptr) state"
where
  "MLXModelStatus_DeepCopy p = copyPtr MLXModelStatus_DeepCopyInto p"

definition MLXModel_DeepCopy ::
  "('m ObjectMeta \<Rightarrow> (addr, 'm ObjectMeta) state) \<Rightarrow> ('q \<Rightarrow> (addr, 'q) state) \<Rightarrow> ('m, 'q) MLXModel ptr \<Rightarrow> (addr, ('m, 'q) MLXModel ptr) state"
where
  "MLXModel_DeepCopy copyMeta copyQuantity p = copyPtr (MLXModel_DeepCopyInto copyMeta copyQuantity) p"

definition MLXModel_DeepCopyObject ::
  "('m ObjectMeta \<Rightarrow> (addr, 'm ObjectMeta) state) \<Rightarrow> ('q \<Rightarrow> (addr, 'q) state) \<Rightarrow> ('m, 'q) MLXModel ptr \<Rightarrow> (addr, ('m, 'q) MLXModel ptr) state"
where
  "MLXModel_DeepCopyObject copyMeta copyQuantity p = as_object (MLXModel_DeepCopy copyMeta copyQuantity p)"

definition MLXModelList_DeepCopy ::
  "('l \<Rightarrow> (addr, 'l) state) \<Rightarrow> ('m ObjectMeta \<Rightarrow> (addr, 'm ObjectMeta) state) \<Rightarrow> ('q \<Rightarrow> (addr, 'q) state) \<Rightarrow> ('l, 'm, 'q) MLXModelList ptr \<Rightarrow> (addr, ('l, 'm, 'q) MLXModelList ptr) state"
where
  "MLXModelList_DeepCopy copyList copyMeta copyQuantity p = copyPtr (MLXModelList_DeepCopyInto copyList copyMeta copyQuantity) p"

definition MLXModelList_DeepCopyObject ::
  "('l \<Rightarrow> (addr, 'l) state) \<Rightarrow> ('m ObjectMeta \<Rightarrow> (addr, 'm ObjectMeta) state) \<Rightarrow> ('q \<Rightarrow> (addr, 'q) state) \<Rightarrow> ('l, 'm, 'q) MLXModelList ptr \<Rightarrow> (addr, ('l, 'm, 'q) MLXModelList ptr) state"
where
  "MLXModelList_DeepCopyObject copyList copyMeta copyQuantity p = as_object (MLXModelList_DeepCopy copyList copyMeta copyQuantity p)"

end
