(* ===== verification/HelmCharts.thy ===== *)
theory HelmCharts
  imports Policy Observation
begin

text \<open>
  The HelmChart and HelmChartConfig objects of \<open>helm/v1/helmchart.go\<close> and their deep copies in \<open>deepcopy.go\<close>.
  The value types of the map \<open>Set\<close> (\<open>intstr.IntOrString\<close>) and of \<open>Timeout\<close> (\<open>metav1.Duration\<close>) are type variables.
\<close>

section \<open>Types\<close>

record ('i, 'd) HelmChartSpec =
  hs_Chart :: string
  hs_Repo :: string
  hs_Version :: string
  hs_TargetNamespace :: string
  hs_CreateNamespace :: bool
  hs_ValuesContent :: string
  hs_Set :: "(string, 'i) gomap ptr"
  hs_ChartContent :: string
  hs_Timeout :: "'d ptr"
  hs_Bootstrap :: bool
  hs_BackOffLimit :: "int32 ptr"
  hs_FailurePolicy :: string
  hs_ForceConflicts :: bool
  hs_TakeOwnership :: bool

record HelmChartCondition =
  hcn_Type :: string
  hcn_Status :: string
  hcn_LastUpdateTime :: Time
  hcn_LastTransitionTime :: Time
  hcn_Reason :: string
  hcn_Message :: string

record HelmChartStatus =
  ht_JobName :: string
  ht_Conditions :: "HelmChartCondition slice"

record ('m, 'i, 'd) HelmChart =
  hc_TypeMeta :: TypeMeta
  hc_ObjectMeta :: "'m ObjectMeta"
  hc_Spec :: "('i, 'd) HelmChartSpec"
  hc_Status :: HelmChartStatus

record ('l, 'm, 'i, 'd) HelmChartList =
  hcl_TypeMeta :: TypeMeta
  hcl_ListMeta :: "'l"
  hcl_Items :: "('m, 'i, 'd) HelmChart slice"

record HelmChartConfigSpec =
  hcs_ValuesContent :: string
  hcs_FailurePolicy :: string
  hcs_ForceConflicts :: bool

record 'm HelmChartConfig =
  hcc_TypeMeta :: TypeMeta
  hcc_ObjectMeta :: "'m ObjectMeta"
  hcc_Spec :: HelmChartConfigSpec

record ('l, 'm) HelmChartConfigList =
  hccl_TypeMeta :: TypeMeta
  hccl_ListMeta :: "'l"
  hccl_Items :: "'m HelmChartConfig slice"


section \<open>Deep copies\<close>

definition HelmChartSpec_DeepCopyInto ::
  "('i, 'd) HelmChartSpec \<Rightarrow> (addr, ('i, 'd) HelmChartSpec) state"
where
  "HelmChartSpec_DeepCopyInto x = do {
     v1 \<leftarrow> copyMap (hs_Set x);
     v2 \<leftarrow> clonePtr (hs_Timeout x);
     v3 \<leftarrow> clonePtr (hs_BackOffLimit x);
     State_Monad.return (x\<lparr>hs_Set := v1, hs_Timeout := v2, hs_BackOffLimit := v3\<rparr>) }"

definition strip_helmspec ::
  "('i, 'd) HelmChartSpec \<Rightarrow> ('i, 'd) HelmChartSpec"
where
  "strip_helmspec x = \<lparr>hs_Chart = hs_Chart x, hs_Repo = hs_Repo x, hs_Version = hs_Version x,
     hs_TargetNamespace = hs_TargetNamespace x, hs_CreateNamespace = hs_CreateNamespace x,
     hs_ValuesContent = hs_ValuesContent x, hs_Set = strip_map (hs_Set x),
     hs_ChartContent = hs_ChartContent x, hs_Timeout = strip_leaf (hs_Timeout x),
     hs_Bootstrap = hs_Bootstrap x, hs_BackOffLimit = strip_leaf (hs_BackOffLimit x),
     hs_FailurePolicy = hs_FailurePolicy x, hs_ForceConflicts = hs_ForceConflicts x,
     hs_TakeOwnership = hs_TakeOwnership x\<rparr>"

definition addrs_helmspec ::
  "('i, 'd) HelmChartSpec \<Rightarrow> addr list"
where
  "addrs_helmspec x = addrs_leaf (hs_Set x) @ addrs_leaf (hs_Timeout x) @ addrs_leaf (hs_BackOffLimit x)"

interpretation copy_helmspec: deep_copier HelmChartSpec_DeepCopyInto strip_helmspec addrs_helmspec
proof
  fix x
  show "copies [] (HelmChartSpec_DeepCopyInto x) addrs_helmspec (\<lambda>y. strip_helmspec y = strip_helmspec x)"
    unfolding HelmChartSpec_DeepCopyInto_def
    apply (rule copies_bind [OF copy_map.copy_copies])
    apply (rule copies_bind [OF clone_ptr.copy_copies])
    apply (rule copies_bind [OF clone_ptr.copy_copies])
    apply (rule copies_return; simp add: addrs_helmspec_def strip_helmspec_def)
    done
qed

definition HelmChartCondition_DeepCopyInto :: "HelmChartCondition \<Rightarrow> (addr, HelmChartCondition) state" where
  "HelmChartCondition_DeepCopyInto x = State_Monad.return
     (x\<lparr>hcn_LastUpdateTime := hcn_LastUpdateTime x, hcn_LastTransitionTime := hcn_LastTransitionTime x\<rparr>)"

interpretation copy_helmcondition: deep_copier HelmChartCondition_DeepCopyInto "\<lambda>x. x" "\<lambda>x. []"
  by unfold_locales (simp add: HelmChartCondition_DeepCopyInto_def copies_return)

definition HelmChartStatus_DeepCopyInto ::
  "HelmChartStatus \<Rightarrow> (addr, HelmChartStatus) state"
where
  "HelmChartStatus_DeepCopyInto x = do {
     v1 \<leftarrow> copySlice HelmChartCondition_DeepCopyInto (ht_Conditions x);
     State_Monad.return (x\<lparr>ht_Conditions := v1\<rparr>) }"

definition strip_helmstatus ::
  "HelmChartStatus \<Rightarrow> HelmChartStatus"
where
  "strip_helmstatus x = \<lparr>ht_JobName = ht_JobName x, ht_Conditions = strip_slice (\<lambda>x. x) (ht_Conditions x)\<rparr>"

definition addrs_helmstatus ::
  "HelmChartStatus \<Rightarrow> addr list"
where
  "addrs_helmstatus x = addrs_slice (\<lambda>x. []) (ht_Conditions x)"

interpretation copy_helmstatus: deep_copier HelmChartStatus_DeepCopyInto strip_helmstatus addrs_helmstatus
proof
  fix x
  show "copies [] (HelmChartStatus_DeepCopyInto x) addrs_helmstatus (\<lambda>y. strip_helmstatus y = strip_helmstatus x)"
    unfolding HelmChartStatus_DeepCopyInto_def
    apply (rule copies_bind [OF copy_helmcondition.copySlice_copies])
    apply (rule copies_return; simp add: addrs_helmstatus_def strip_helmstatus_def)
    done
qed

definition HelmChart_DeepCopyInto ::
  "('m ObjectMeta \<Rightarrow> (addr, 'm ObjectMeta) state) \<Rightarrow> ('m, 'i, 'd) HelmChart \<Rightarrow> (addr, ('m, 'i, 'd) HelmChart) state"
where
  "HelmChart_DeepCopyInto copyMeta x = do {
     v1 \<leftarrow> copyMeta (hc_ObjectMeta x);
     v2 \<leftarrow> HelmChartSpec_DeepCopyInto (hc_Spec x);
     v3 \<leftarrow> HelmChartStatus_DeepCopyInto (hc_Status x);
     State_Monad.return (x\<lparr>hc_ObjectMeta := v1, hc_Spec := v2, hc_Status := v3\<rparr>) }"

definition strip_helmchart ::
  "('m ObjectMeta \<Rightarrow> 'm ObjectMeta) \<Rightarrow> ('m, 'i, 'd) HelmChart \<Rightarrow> ('m, 'i, 'd) HelmChart"
where
  "strip_helmchart stripMeta x = \<lparr>hc_TypeMeta = hc_TypeMeta x, hc_ObjectMeta = stripMeta (hc_ObjectMeta x),
     hc_Spec = strip_helmspec (hc_Spec x), hc_Status = strip_helmstatus (hc_Status x)\<rparr>"

definition addrs_helmchart ::
  "('m ObjectMeta \<Rightarrow> addr list) \<Rightarrow> ('m, 'i, 'd) HelmChart \<Rightarrow> addr list"
where
  "addrs_helmchart addrsMeta x = addrsMeta (hc_ObjectMeta x) @ addrs_helmspec (hc_Spec x) @ addrs_helmstatus (hc_Status x)"

lemma helmchart_copier:
  assumes meta: "deep_copier copyMeta stripMeta addrsMeta"
  shows "deep_copier (HelmChart_DeepCopyInto copyMeta) (strip_helmchart stripMeta) (addrs_helmchart addrsMeta)"
proof
  fix x
  show "copies [] (HelmChart_DeepCopyInto copyMeta x) (addrs_helmchart addrsMeta) (\<lambda>y. strip_helmchart stripMeta y = strip_helmchart stripMeta x)"
    unfolding HelmChart_DeepCopyInto_def
    apply (rule copies_bind [OF deep_copier.copy_copies [OF meta]])
    apply (rule copies_bind [OF copy_helmspec.copy_copies])
    apply (rule copies_bind [OF copy_helmstatus.copy_copies])
    apply (rule copies_return; simp add: addrs_helmchart_def strip_helmchart_def)
    done
qed

definition HelmChartList_DeepCopyInto ::
  "('l \<Rightarrow> (addr, 'l) state) \<Rightarrow> ('m ObjectMeta \<Rightarrow> (addr, 'm ObjectMeta) state) \<Rightarrow> ('l, 'm, 'i, 'd) HelmChartList \<Rightarrow> (addr, ('l, 'm, 'i, 'd) HelmChartList) state"
where
  "HelmChartList_DeepCopyInto copyList copyMeta x = do {
     v1 \<leftarrow> copyList (hcl_ListMeta x);
     v2 \<leftarrow> copySlice (HelmChart_DeepCopyInto copyMeta) (hcl_Items x);
     State_Monad.return (x\<lparr>hcl_ListMeta := v1, hcl_Items := v2\<rparr>) }"

definition strip_helmcharts ::
  "('l \<Rightarrow> 'l) \<Rightarrow> ('m ObjectMeta \<Rightarrow> 'm ObjectMeta) \<Rightarrow> ('l, 'm, 'i, 'd) HelmChartList \<Rightarrow> ('l, 'm, 'i, 'd) HelmChartList"
where
  "strip_helmcharts stripList stripMeta x = \<lparr>hcl_TypeMeta = hcl_TypeMeta x, hcl_ListMeta = stripList (hcl_ListMeta x),
     hcl_Items = strip_slice (strip_helmchart stripMeta) (hcl_Items x)\<rparr>"

definition addrs_helmcharts ::
  "('l \<Rightarrow> addr list) \<Rightarrow> ('m ObjectMeta \<Rightarrow> addr list) \<Rightarrow> ('l, 'm, 'i, 'd) HelmChartList \<Rightarrow> addr list"
where
  "addrs_helmcharts addrsList addrsMeta x = addrsList (hcl_ListMeta x) @ addrs_slice (addrs_helmchart addrsMeta) (hcl_Items x)"

lemma helmcharts_copier:
  assumes list: "deep_copier copyList stripList addrsList" and meta: "deep_copier copyMeta stripMeta addrsMeta"
  shows "deep_copier (HelmChartList_DeepCopyInto copyList copyMeta) (strip_helmcharts stripList stripMeta) (addrs_helmcharts addrsList addrsMeta)"
proof
  fix x
  show "copies [] (HelmChartList_DeepCopyInto copyList copyMeta x) (addrs_helmcharts addrsList addrsMeta) (\<lambda>y. strip_helmcharts stripList stripMeta y = strip_helmcharts stripList stripMeta x)"
    unfolding HelmChartList_DeepCopyInto_def
    apply (rule copies_bind [OF deep_copier.copy_copies [OF list]])
    apply (rule copies_bind [OF deep_copier.copySlice_copies [OF helmchart_copier [OF meta]]])
    apply (rule copies_return; simp add: addrs_helmcharts_def strip_helmcharts_def)
    done
qed

definition HelmChartConfigSpec_DeepCopyInto :: "HelmChartConfigSpec \<Rightarrow> (addr, HelmChartConfigSpec) state" where
  "HelmChartConfigSpec_DeepCopyInto x = State_Monad.return x"

interpretation copy_helmconfspec: deep_copier HelmChartConfigSpec_DeepCopyInto "\<lambda>x. x" "\<lambda>x. []"
  by unfold_locales (simp add: HelmChartConfigSpec_DeepCopyInto_def copies_return)

definition HelmChartConfig_DeepCopyInto ::
  "('m ObjectMeta \<Rightarrow> (addr, 'm ObjectMeta) state) \<Rightarrow> 'm HelmChartConfig \<Rightarrow> (addr, 'm HelmChartConfig) state"
where
  "HelmChartConfig_DeepCopyInto copyMeta x = do {
     v1 \<leftarrow> copyMeta (hcc_ObjectMeta x);
     v2 \<leftarrow> HelmChartConfigSpec_DeepCopyInto (hcc_Spec x);
     State_Monad.return (x\<lparr>hcc_ObjectMeta := v1, hcc_Spec := v2\<rparr>) }"

definition strip_helmconf ::
  "('m ObjectMeta \<Rightarrow> 'm ObjectMeta) \<Rightarrow> 'm HelmChartConfig \<Rightarrow> 'm HelmChartConfig"
where
  "strip_helmconf stripMeta x = \<lparr>hcc_TypeMeta = hcc_TypeMeta x, hcc_ObjectMeta = stripMeta (hcc_ObjectMeta x),
     hcc_Spec = (\<lambda>x. x) (hcc_Spec x)\<rparr>"

definition addrs_helmconf ::
  "('m ObjectMeta \<Rightarrow> addr list) \<Rightarrow> 'm HelmChartConfig \<Rightarrow> addr list"
where
  "addrs_helmconf addrsMeta x = addrsMeta (hcc_ObjectMeta x) @ (\<lambda>x. []) (hcc_Spec x)"

lemma helmconf_copier:
  assumes meta: "deep_copier copyMeta stripMeta addrsMeta"
  shows "deep_copier (HelmChartConfig_DeepCopyInto copyMeta) (strip_helmconf stripMeta) (addrs_helmconf addrsMeta)"
proof
  fix x
  show "copies [] (HelmChartConfig_DeepCopyInto copyMeta x) (addrs_helmconf addrsMeta) (\<lambda>y. strip_helmconf stripMeta y = strip_helmconf stripMeta x)"
    unfolding HelmChartConfig_DeepCopyInto_def
    apply (rule copies_bind [OF deep_copier.copy_copies [OF meta]])
    apply (rule copies_bind [OF copy_helmconfspec.copy_copies])
    apply (rule copies_return; simp add: addrs_helmconf_def strip_helmconf_def)
    done
qed

definition HelmChartConfigList_DeepCopyInto ::
  "('l \<Rightarrow> (addr, 'l) state) \<Rightarrow> ('m ObjectMeta \<Rightarrow> (addr, 'm ObjectMeta) state) \<Rightarrow> ('l, 'm) HelmChartConfigList \<Rightarrow> (addr, ('l, 'm) HelmChartConfigList) state"
where
  "HelmChartConfigList_DeepCopyInto copyList copyMeta x = do {
     v1 \<leftarrow> copyList (hccl_ListMeta x);
     v2 \<leftarrow> copySlice (HelmChartConfig_DeepCopyInto copyMeta) (hccl_Items x);
     State_Monad.return (x\<lparr>hccl_ListMeta := v1, hccl_Items := v2\<rparr>) }"

definition strip_helmconfs ::
  "('l \<Rightarrow> 'l) \<Rightarrow> ('m ObjectMeta \<Rightarrow> 'm ObjectMeta) \<Rightarrow> ('l, 'm) HelmChartConfigList \<Rightarrow> ('l, 'm) HelmChartConfigList"
where
  "strip_helmconfs stripList stripMeta x = \<lparr>hccl_TypeMeta = hccl_TypeMeta x, hccl_ListMeta = stripList (hccl_ListMeta x),
     hccl_Items = strip_slice (strip_helmconf stripMeta) (hccl_Items x)\<rparr>"

definition addrs_helmconfs ::
  "('l \<Rightarrow> addr list) \<Rightarrow> ('m ObjectMeta \<Rightarrow> addr list) \<Rightarrow> ('l, 'm) HelmChartConfigList \<Rightarrow> addr list"
where
  "addrs_helmconfs addrsList addrsMeta x = addrsList (hccl_ListMeta x) @ addrs_slice (addrs_helmconf addrsMeta) (hccl_Items x)"

lemma helmconfs_copier:
  assumes list: "deep_copier copyList stripList addrsList" and meta: "deep_copier copyMeta stripMeta addrsMeta"
  shows "deep_copier (HelmChartConfigList_DeepCopyInto copyList copyMeta) (strip_helmconfs stripList stripMeta) (addrs_helmconfs addrsList addrsMeta)"
proof
  fix x
  show "copies [] (HelmChartConfigList_DeepCopyInto copyList copyMeta x) (addrs_helmconfs addrsList addrsMeta) (\<lambda>y. strip_helmconfs stripList stripMeta y = strip_helmconfs stripList stripMeta x)"
    unfolding HelmChartConfigList_DeepCopyInto_def
    apply (rule copies_bind [OF deep_copier.copy_copies [OF list]])
    apply (rule copies_bind [OF deep_copier.copySlice_copies [OF helmconf_copier [OF meta]]])
    apply (rule copies_return; simp add: addrs_helmconfs_def strip_helmconfs_def)
    done
qed

text \<open>The pointer methods: a nil receiver gives nil.\<close>

definition HelmChartSpec_DeepCopy ::
  "('i, 'd) HelmChartSpec ptr \<Rightarrow> (addr, ('i, 'd) HelmChartSpec ptr) state"
where
  "HelmChartSpec_DeepCopy p = copyPtr HelmChartSpec_DeepCopyInto p"

definition HelmChartCondition_DeepCopy ::
  "HelmChartCondition ptr \<Rightarrow> (addr, HelmChartCondition ptr) state"
where
  "HelmChartCondition_DeepCopy p = copyPtr HelmChartCondition_DeepCopyInto p"

definition HelmChartStatus_DeepCopy ::
  "HelmChartStatus ptr \<Rightarrow> (addr, HelmChartStatus ptr) state"
where
  "HelmChartStatus_DeepCopy p = copyPtr HelmChartStatus_DeepCopyInto p"

definition HelmChart_DeepCopy ::
  "('m ObjectMeta \<Rightarrow> (addr, 'm ObjectMeta) state) \<Rightarrow> ('m, 'i, 'd) HelmChart ptr \<Rightarrow> (addr, ('m, 'i, 'd) HelmChart ptr) state"
where
  "HelmChart_DeepCopy copyMeta p = copyPtr (HelmChart_DeepCopyInto copyMeta) p"

definition HelmChart_DeepCopyObject ::
  "('m ObjectMeta \<Rightarrow> (addr, 'm ObjectMeta) state) \<Rightarrow> ('m, 'i, 'd) HelmChart ptr \<Rightarrow> (addr, ('m, 'i, 'd) HelmChart ptr) state"
where
  "HelmChart_DeepCopyObject copyMeta p = as_object (HelmChart_DeepCopy copyMeta p)"

definition HelmChartList_DeepCopy ::
  "('l \<Rightarrow> (addr, 'l) state) \<Rightarrow> ('m ObjectMeta \<Rightarrow> (addr, 'm ObjectMeta) state) \<Rightarrow> ('l, 'm, 'i, 'd) HelmChartList ptr \<Rightarrow> (addr, ('l, 'm, 'i, 'd) HelmChartList ptr) state"
where
  "HelmChartList_DeepCopy copyList copyMeta p = copyPtr (HelmChartList_DeepCopyInto copyList copyMeta) p"

definition HelmChartList_DeepCopyObject ::
  "('l \<Rightarrow> (addr, 'l) state) \<Rightarrow> ('m ObjectMeta \<Rightarrow> (addr, 'm ObjectMeta) state) \<Rightarrow> ('l, 'm, 'i, 'd) HelmChartList ptr \<Rightarrow> (addr, ('l, 'm, 'i, 'd) HelmChartList ptr) state"
where
  "HelmChartList_DeepCopyObject copyList copyMeta p = as_object (HelmChartList_DeepCopy copyList copyMeta p)"

definition HelmChartConfigSpec_DeepCopy ::
  "HelmChartConfigSpec ptr \<Rightarrow> (addr, HelmChartConfigSpec ptr) state"
where
  "HelmChartConfigSpec_DeepCopy p = copyPtr HelmChartConfigSpec_DeepCopyInto p"

definition HelmChartConfig_DeepCopy ::
  "('m ObjectMeta \<Rightarrow> (addr, 'm ObjectMeta) state) \<Rightarrow> 'm HelmChartConfig ptr \<Rightarrow> (addr, 'm HelmChartConfig ptr) state"
where
  "HelmChartConfig_DeepCopy copyMeta p = copyPtr (HelmChartConfig_DeepCopyInto copyMeta) p"

definition HelmChartConfig_DeepCopyObject ::
  "('m ObjectMeta \<Rightarrow> (addr, 'm ObjectMeta) state) \<Rightarrow> 'm HelmChartConfig ptr \<Rightarrow> (addr, 'm HelmChartConfig ptr) state"
where
  "HelmChartConfig_DeepCopyObject copyMeta p = as_object (HelmChartConfig_DeepCopy copyMeta p)"

definition HelmChartConfigList_DeepCopy ::
  "('l \<Rightarrow> (addr, 'l) state) \<Rightarrow> ('m ObjectMeta \<Rightarrow> (addr, 'm ObjectMeta) state) \<Rightarrow> ('l, 'm) HelmChartConfigList ptr \<Rightarrow> (addr, ('l, 'm) HelmChartConfigList ptr) state"
where
  "HelmChartConfigList_DeepCopy copyList copyMeta p = copyPtr (HelmChartConfigList_DeepCopyInto copyList copyMeta) p"

definition HelmChartConfigList_DeepCopyObject ::
  "('l \<Rightarrow> (addr, 'l) state) \<Rightarrow> ('m ObjectMeta \<Rightarrow> (addr, 'm ObjectMeta) state) \<Rightarrow> ('l, 'm) HelmChartConfigList ptr \<Rightarrow> (addr, ('l, 'm) HelmChartConfigList ptr) state"
where
  "HelmChartConfigList_DeepCopyObject copyList copyMeta p = as_object (HelmChartConfigList_DeepCopy copyList copyMeta p)"

end
