(* ===== verification/ServedCopies.thy ===== *)
theory ServedCopies
  imports BudgetCopy Mesh Interconnect Updates MLXModels HelmCharts
begin

text \<open>
  What the served lists promise an informer: a deep copy taken through \<open>DeepCopyObject\<close> shares no memory with the
  cached object. The locale \<open>object_copy\<close> is that contract; each served list of the module meets it when the copiers
  of the third-party parts do.
\<close>

section \<open>The contract of an object copy\<close>

locale object_copy =
  fixes copyObject :: "'a ptr \<Rightarrow> (addr, 'a ptr) state" and strip :: "'a \<Rightarrow> 'a" and addrs :: "'a \<Rightarrow> addr list"
  assumes isolated: "run_state (copyObject p) n = (q, l) \<Longrightarrow> \<forall>a \<in> set (addrs_ptr addrs p). a < n \<Longrightarrow>
    strip_ptr strip q = strip_ptr strip p \<and> distinct (addrs_ptr addrs q) \<and>
    set (addrs_ptr addrs q) \<inter> set (addrs_ptr addrs p) = {} \<and> (q = NilP \<longleftrightarrow> p = NilP)"

lemma object_copyI:
  assumes "deep_copier copy strip addrs" "\<And>p. copyObject p = copyPtr copy p"
  shows "object_copy copyObject strip addrs"
  using pointer_copy_isolated [OF assms(1)] by unfold_locales (simp add: assms(2))

lemmas object_copies =
  InterconnectList_DeepCopyObject_def InterconnectList_DeepCopy_def UpdateList_DeepCopyObject_def UpdateList_DeepCopy_def
  UpdatePolicyList_DeepCopyObject_def UpdatePolicyList_DeepCopy_def MLXModelList_DeepCopyObject_def MLXModelList_DeepCopy_def
  HelmChartList_DeepCopyObject_def HelmChartList_DeepCopy_def HelmChartConfigList_DeepCopyObject_def
  HelmChartConfigList_DeepCopy_def NodeBudgetList_DeepCopyObject_def NodeBudgetList_DeepCopy_def
  NodeBudgetPolicyList_DeepCopyObject_def NodeBudgetPolicyList_DeepCopy_def MeshPeerList_DeepCopyObject_def MeshPeerList_DeepCopy_def

text \<open>With metadata that holds no references the contract is met outright.\<close>

lemma plain_copier: "deep_copier (State_Monad.return :: 'a \<Rightarrow> (addr, 'a) state) (\<lambda>m. m) (\<lambda>m. [])"
  by unfold_locales (simp add: copies_return)

interpretation plain_interconnects: object_copy
  "InterconnectList_DeepCopyObject State_Monad.return State_Monad.return"
  "strip_interconnects (\<lambda>m. m) (\<lambda>m. m)" "addrs_interconnects (\<lambda>m. []) (\<lambda>m. [])"
  by (rule object_copyI [OF interconnects_copier [OF plain_copier plain_copier]]) (simp add: object_copies)

interpretation plain_models: object_copy
  "MLXModelList_DeepCopyObject State_Monad.return State_Monad.return State_Monad.return"
  "strip_mlxmodels (\<lambda>m. m) (\<lambda>m. m) (\<lambda>m. m)" "addrs_mlxmodels (\<lambda>m. []) (\<lambda>m. []) (\<lambda>m. [])"
  by (rule object_copyI [OF mlxmodels_copier [OF plain_copier plain_copier plain_copier]]) (simp add: object_copies)


section \<open>Properties\<close>

text \<open>
  (C19) The copies of the served lists share nothing: for node budgets, budget policies, mesh peers, interconnects,
  updates, update policies, MLX models, Helm charts and Helm chart configs alike, given metadata and quantity copiers that copy deeply, the object copy of a list
  is an equal value (string lists of an interconnect up to nil against empty), all of its addresses (at every depth:
  items, conditions, maps, pointers) are distinct and none is one of the original's, and nil gives nil.
\<close>

theorem served_lists_isolated:
  assumes "deep_copier copyList stripList addrsList" "deep_copier copyMeta stripMeta addrsMeta"
    and "deep_copier copyQuantity stripQuantity addrsQuantity"
  shows "object_copy (NodeBudgetList_DeepCopyObject copyList copyMeta)
           (strip_nodebudgets stripList stripMeta) (addrs_nodebudgets addrsList addrsMeta) \<and>
         object_copy (NodeBudgetPolicyList_DeepCopyObject copyList copyMeta)
           (strip_policies stripList stripMeta) (addrs_policies addrsList addrsMeta) \<and>
         object_copy (MeshPeerList_DeepCopyObject copyList copyMeta)
           (strip_mpeers stripList stripMeta) (addrs_mpeers addrsList addrsMeta) \<and>
         object_copy (InterconnectList_DeepCopyObject copyList copyMeta)
           (strip_interconnects stripList stripMeta) (addrs_interconnects addrsList addrsMeta) \<and>
         object_copy (UpdateList_DeepCopyObject copyList copyMeta)
           (strip_updates stripList stripMeta) (addrs_updates addrsList addrsMeta) \<and>
         object_copy (UpdatePolicyList_DeepCopyObject copyList copyMeta)
           (strip_uppols stripList stripMeta) (addrs_uppols addrsList addrsMeta) \<and>
         object_copy (HelmChartList_DeepCopyObject copyList copyMeta)
           (strip_helmcharts stripList stripMeta) (addrs_helmcharts addrsList addrsMeta) \<and>
         object_copy (HelmChartConfigList_DeepCopyObject copyList copyMeta)
           (strip_helmconfs stripList stripMeta) (addrs_helmconfs addrsList addrsMeta) \<and>
         object_copy (MLXModelList_DeepCopyObject copyList copyMeta copyQuantity)
           (strip_mlxmodels stripList stripMeta stripQuantity) (addrs_mlxmodels addrsList addrsMeta addrsQuantity)"
proof (intro conjI)
  note lm = assms(1,2)
  show "object_copy (NodeBudgetList_DeepCopyObject copyList copyMeta)
      (strip_nodebudgets stripList stripMeta) (addrs_nodebudgets addrsList addrsMeta)"
    by (rule object_copyI [OF nodebudgets_copier [OF lm]]) (simp add: object_copies)
  show "object_copy (NodeBudgetPolicyList_DeepCopyObject copyList copyMeta)
      (strip_policies stripList stripMeta) (addrs_policies addrsList addrsMeta)"
    by (rule object_copyI [OF policies_copier [OF lm]]) (simp add: object_copies)
  show "object_copy (MeshPeerList_DeepCopyObject copyList copyMeta)
      (strip_mpeers stripList stripMeta) (addrs_mpeers addrsList addrsMeta)"
    by (rule object_copyI [OF mpeers_copier [OF lm]]) (simp add: object_copies)
  show "object_copy (InterconnectList_DeepCopyObject copyList copyMeta)
      (strip_interconnects stripList stripMeta) (addrs_interconnects addrsList addrsMeta)"
    by (rule object_copyI [OF interconnects_copier [OF lm]]) (simp add: object_copies)
  show "object_copy (UpdateList_DeepCopyObject copyList copyMeta)
      (strip_updates stripList stripMeta) (addrs_updates addrsList addrsMeta)"
    by (rule object_copyI [OF updates_copier [OF lm]]) (simp add: object_copies)
  show "object_copy (UpdatePolicyList_DeepCopyObject copyList copyMeta)
      (strip_uppols stripList stripMeta) (addrs_uppols addrsList addrsMeta)"
    by (rule object_copyI [OF uppols_copier [OF lm]]) (simp add: object_copies)
  show "object_copy (HelmChartList_DeepCopyObject copyList copyMeta)
      (strip_helmcharts stripList stripMeta) (addrs_helmcharts addrsList addrsMeta)"
    by (rule object_copyI [OF helmcharts_copier [OF lm]]) (simp add: object_copies)
  show "object_copy (HelmChartConfigList_DeepCopyObject copyList copyMeta)
      (strip_helmconfs stripList stripMeta) (addrs_helmconfs addrsList addrsMeta)"
    by (rule object_copyI [OF helmconfs_copier [OF lm]]) (simp add: object_copies)
  show "object_copy (MLXModelList_DeepCopyObject copyList copyMeta copyQuantity)
      (strip_mlxmodels stripList stripMeta stripQuantity) (addrs_mlxmodels addrsList addrsMeta addrsQuantity)"
    by (rule object_copyI [OF mlxmodels_copier [OF assms]]) (simp add: object_copies)
qed

definition sample_models :: "(unit, unit, unit) MLXModelList ptr" where
  "sample_models = Ptr 1 \<lparr>mml_TypeMeta = \<lparr>tm_Kind = ''MLXModelList'', tm_APIVersion = ''mlx.k3sm.io/v1alpha1''\<rparr>,
     mml_ListMeta = (), mml_Items = Ptr 2 [\<lparr>mm_TypeMeta = \<lparr>tm_Kind = '''', tm_APIVersion = ''''\<rparr>,
       mm_ObjectMeta = \<lparr>om_Name = ''llama'', om_rest = ()\<rparr>,
       mm_Spec = \<lparr>ms_Model = ''m'', ms_Artifact = NilP, ms_Revision = '''', ms_Quantization = '''', ms_Memory = (),
         ms_Replicas = Ptr 3 0, ms_Port = 0, ms_Runtime = \<lparr>mrt_Image = '''', mrt_Args = NilP\<rparr>, ms_Cache = NilP,
         ms_NodeSelector = Ptr 4 [(''k'', ''v'')], ms_Distributed = NilP\<rparr>,
       mm_Status = \<lparr>mst_Conditions = NilP, mst_ObservedGeneration = 0, mst_Phase = '''', mst_Endpoint = '''',
         mst_ResolvedRevision = '''', mst_ResolvedArtifact = '''', mst_Replicas = 0, mst_ReadyReplicas = 0,
         mst_UpdatedReplicas = 0\<rparr>\<rparr>]\<rparr>"

lemma served_lists_isolated_witness:
  "\<exists>q l. run_state (MLXModelList_DeepCopyObject State_Monad.return State_Monad.return State_Monad.return sample_models) 5 = (q, l) \<and>
     q \<noteq> NilP \<and> set (addrs_ptr (addrs_mlxmodels (\<lambda>_. []) (\<lambda>_. []) (\<lambda>_. [])) q) \<inter> {1, 2, 3, 4} = {}"
proof -
  let ?c = "MLXModelList_DeepCopyObject State_Monad.return State_Monad.return State_Monad.return"
  let ?a = "addrs_mlxmodels (\<lambda>_. []) (\<lambda>_. []) (\<lambda>_. []) :: (unit, unit, unit) MLXModelList \<Rightarrow> addr list"
  have "object_copy ?c (strip_mlxmodels (\<lambda>m :: unit. m) (\<lambda>m :: unit ObjectMeta. m) (\<lambda>m :: unit. m)) ?a"
    by (rule served_lists_isolated [OF plain_copier plain_copier plain_copier, THEN conjunct2, THEN conjunct2, THEN conjunct2,
          THEN conjunct2, THEN conjunct2, THEN conjunct2, THEN conjunct2, THEN conjunct2])
  note iso = object_copy.isolated [OF this]
  obtain q l where r: "run_state (?c sample_models) 5 = (q, l)" by (metis prod.exhaust)
  have a: "set (addrs_ptr ?a sample_models) = {1, 2, 3, 4}"
    by (auto simp: sample_models_def addrs_mlxmodels_def addrs_mlxmodel_def addrs_mlxspec_def addrs_mlxruntime_def addrs_mlxstatus_def)
  then have "\<forall>a \<in> set (addrs_ptr ?a sample_models). a < 5" by simp
  note q = iso [OF r this, unfolded a]
  have "q \<noteq> NilP" using q by (simp add: sample_models_def)
  with r q show ?thesis by (intro exI [of _ q] exI [of _ l]) simp
qed

end
