(* ===== verification/RuntimeConfig.thy ===== *)
theory RuntimeConfig
  imports Cloning Regex TextLib
begin

text \<open>
  The plain Go configuration of the runtime contract, \<open>runtime/v1\<close>: the handler table of \<open>handler.go\<close>, the
  signature classification of \<open>wasm.go\<close> and the chip label values of \<open>labels.go\<close>. The enum \<open>SandboxBackend\<close> and its name
  table are those of the generated \<open>runtime.pb.go\<close>. \<open>unicode.ToLower\<close> of a rune is an argument.
\<close>

section \<open>Handlers\<close>

type_synonym HandlerName = string
type_synonym SandboxBackend = int32

definition SANDBOX_BACKEND_UNSPECIFIED :: SandboxBackend where [const_defs]: "SANDBOX_BACKEND_UNSPECIFIED = 0"
definition SANDBOX_BACKEND_VM :: SandboxBackend where [const_defs]: "SANDBOX_BACKEND_VM = 4"
definition SANDBOX_BACKEND_WASM :: SandboxBackend where [const_defs]: "SANDBOX_BACKEND_WASM = 5"

definition SandboxBackend_name :: "(int32, string) gomap" where
  "SandboxBackend_name =
     [(0, ''SANDBOX_BACKEND_UNSPECIFIED''), (1, ''SANDBOX_BACKEND_SEATBELT_EXEC''), (2, ''SANDBOX_BACKEND_SEATBELT_INPROC''),
      (3, ''SANDBOX_BACKEND_UIDJAIL''), (4, ''SANDBOX_BACKEND_VM''), (5, ''SANDBOX_BACKEND_WASM'')]"

definition HandlerVM :: HandlerName where [const_defs]: "HandlerVM = ''vm''"
definition HandlerWasm :: HandlerName where [const_defs]: "HandlerWasm = ''wasm''"

record HandlerConfig =
  hd_Handlers :: "(HandlerName, SandboxBackend) gomap ptr"
  hd_DefaultBackend :: SandboxBackend

datatype handler_err =
    ErrUnknownHandler HandlerName
  | ErrInvalidDefault SandboxBackend
  | ErrInvalidEmptyKey
  | ErrInvalidBackend HandlerName SandboxBackend

text \<open>The entries of a map, a nil map having none.\<close>

abbreviation map_entries :: "('k, 'v) gomap ptr \<Rightarrow> ('k \<times> 'v) list" where
  "map_entries \<equiv> els"

definition DefaultHandlerConfig :: "(addr, HandlerConfig) state" where
  "DefaultHandlerConfig = do {
     a \<leftarrow> fresh;
     State_Monad.return
       \<lparr>hd_Handlers = Ptr a [(HandlerVM, SANDBOX_BACKEND_VM), (HandlerWasm, SANDBOX_BACKEND_WASM)],
        hd_DefaultBackend = SANDBOX_BACKEND_UNSPECIFIED\<rparr> }"

definition HandlerConfig_Backend :: "HandlerConfig \<Rightarrow> HandlerName \<Rightarrow> handler_err + SandboxBackend" where
  "HandlerConfig_Backend c handler =
     (if handler = '''' then Inr (hd_DefaultBackend c)
      else case map_of (map_entries (hd_Handlers c)) handler of
        Some b \<Rightarrow> Inr b
      | None \<Rightarrow> Inl (ErrUnknownHandler handler))"

definition fill_missing :: "('k, 'v) gomap \<Rightarrow> ('k, 'v) gomap \<Rightarrow> ('k, 'v) gomap" where
  "fill_missing m defs = foldl (\<lambda>out (k, v). if k \<in> fst ` set out then out else map_put k v out) m defs"

definition HandlerConfig_WithDefaults :: "HandlerConfig \<Rightarrow> (addr, HandlerConfig) state" where
  "HandlerConfig_WithDefaults c = do {
     def \<leftarrow> DefaultHandlerConfig;
     a \<leftarrow> fresh;
     let cp = (case hd_Handlers c of NilP \<Rightarrow> [] | Ptr _ m \<Rightarrow> range_copy m);
     State_Monad.return (c\<lparr>hd_Handlers := Ptr a (fill_missing cp (map_entries (hd_Handlers def)))\<rparr>) }"

definition validBackend :: "SandboxBackend \<Rightarrow> bool" where
  "validBackend b = (map_of SandboxBackend_name b \<noteq> None)"

definition HandlerConfig_Validate :: "HandlerConfig \<Rightarrow> handler_err option" where
  "HandlerConfig_Validate c = first_err
     [fail_if (\<not> validBackend (hd_DefaultBackend c)) (ErrInvalidDefault (hd_DefaultBackend c)),
      range_err (\<lambda>i (name, backend). first_err
          [fail_if (name = '''') ErrInvalidEmptyKey, fail_if (\<not> validBackend backend) (ErrInvalidBackend name backend)])
        0 (map_entries (hd_Handlers c))]"


section \<open>Wasm signatures\<close>

definition WasmPlatformAliases :: "string list" where
  "WasmPlatformAliases = [''wasi/wasm'', ''wasip1/wasm32'', ''wasip2/wasm32'']"

record WasmSignature =
  wsg_Required :: bool
  wsg_PublicKeySpkiDer :: "8 word slice"

datatype WasmSignatureMode = WasmSignatureNone | WasmSignatureEnforce | WasmSignatureInvalid

definition WasmSignature_GetRequired :: "WasmSignature ptr \<Rightarrow> bool" where
  "WasmSignature_GetRequired s = (case s of Ptr _ x \<Rightarrow> wsg_Required x | NilP \<Rightarrow> False)"

definition WasmSignature_GetPublicKeySpkiDer :: "WasmSignature ptr \<Rightarrow> 8 word slice" where
  "WasmSignature_GetPublicKeySpkiDer s = (case s of Ptr _ x \<Rightarrow> wsg_PublicKeySpkiDer x | NilP \<Rightarrow> NilP)"

definition ClassifyWasmSignature :: "WasmSignature ptr \<Rightarrow> WasmSignatureMode" where
  "ClassifyWasmSignature s =
     (if s = NilP then WasmSignatureNone
      else if WasmSignature_GetRequired s \<and> 0 < length (els (WasmSignature_GetPublicKeySpkiDer s)) then WasmSignatureEnforce
      else WasmSignatureInvalid)"


section \<open>Chip labels\<close>

definition maxLabelValueLen :: nat where [const_defs]: "maxLabelValueLen = 63"

definition slug_rune :: "nat \<Rightarrow> bool" where
  "slug_rune r = ((97 \<le> r \<and> r \<le> 122) \<or> (48 \<le> r \<and> r \<le> 57))"

text \<open>One turn of the loop on the text written so far and the pending dash.\<close>

definition slug_step :: "string \<times> bool \<Rightarrow> nat \<Rightarrow> string \<times> bool" where
  "slug_step st r =
     (let (b, pendingDash) = st
      in if slug_rune r then ((if pendingDash then b @ ''-'' else b) @ [char_of r], False)
         else (b, if 0 < length b then True else pendingDash))"

definition TrimRight :: "string \<Rightarrow> char \<Rightarrow> string" where
  "TrimRight s c = rev (dropWhile (\<lambda>x. x = c) (rev s))"

text \<open>\<open>strings.ToLower\<close> maps the runes of its argument, so ranging over it yields the lowered runes.\<close>

definition ChipSlug :: "(nat \<Rightarrow> nat) \<Rightarrow> string \<Rightarrow> string" where
  "ChipSlug lower raw =
     (let s = fst (foldl slug_step ([], False) (map lower (string_runes raw)))
      in if maxLabelValueLen < length s then TrimRight (take maxLabelValueLen s) CHR ''-'' else s)"

section \<open>Properties of the handler table\<close>

lemma map_of_snoc: "k \<notin> fst ` set m \<Longrightarrow> map_of (m @ [(k, v)]) j = (case map_of m j of Some w \<Rightarrow> Some w | None \<Rightarrow> if j = k then Some v else None)"
  by (auto simp: map_add_def split: option.split)

lemma fill_missing_Nil [simp]: "fill_missing m [] = m"
  by (simp add: fill_missing_def)

lemma fill_missing_Cons [simp]:
  "fill_missing m ((k, v) # defs) = fill_missing (if k \<in> fst ` set m then m else m @ [(k, v)]) defs"
  by (simp add: fill_missing_def map_put_def)

lemma map_of_fill_missing:
  "map_of (fill_missing m defs) j = (case map_of m j of Some v \<Rightarrow> Some v | None \<Rightarrow> map_of defs j)"
proof (induction defs arbitrary: m)
  case (Cons e defs)
  obtain k v where e: "e = (k, v)" by (cases e)
  show ?case
  proof (cases "k \<in> fst ` set m")
    case True
    then have "map_of m k \<noteq> None" by (simp add: map_of_eq_None_iff)
    with True show ?thesis by (auto simp: e Cons.IH split: option.split)
  next
    case False
    then show ?thesis unfolding e fill_missing_Cons Cons.IH if_not_P [OF False] map_of_snoc [OF False]
      by (simp split: option.split)
  qed
qed (simp split: option.split)

lemma fill_missing_distinct: "distinct (map fst m) \<Longrightarrow> distinct (map fst (fill_missing m defs))"
proof (induction defs arbitrary: m)
  case (Cons e defs)
  obtain k v where "e = (k, v)" by (cases e)
  with Cons show ?case by simp
qed simp

lemma fill_missing_present: "fst ` set defs \<subseteq> fst ` set m \<Longrightarrow> fill_missing m defs = m"
proof (induction defs)
  case (Cons e defs)
  obtain k v where "e = (k, v)" by (cases e)
  with Cons show ?case by simp
qed simp

abbreviation builtin_handlers :: "(HandlerName, SandboxBackend) gomap" where
  "builtin_handlers \<equiv> [(HandlerVM, SANDBOX_BACKEND_VM), (HandlerWasm, SANDBOX_BACKEND_WASM)]"

lemma HandlerDefaults_run:
  assumes "distinct (map fst (map_entries (hd_Handlers c)))" "run_state (HandlerConfig_WithDefaults c) n = (d, l)"
  shows "d = c\<lparr>hd_Handlers := Ptr (Suc n) (fill_missing (map_entries (hd_Handlers c)) builtin_handlers)\<rparr>"
  using assms
  by (cases "hd_Handlers c") (auto simp: HandlerConfig_WithDefaults_def DefaultHandlerConfig_def fresh_def Let_def range_copy_id)

definition table_ok :: "HandlerConfig \<Rightarrow> bool" where
  "table_ok c \<longleftrightarrow> validBackend (hd_DefaultBackend c) \<and> (\<forall>(name, b) \<in> set (map_entries (hd_Handlers c)). name \<noteq> '''' \<and> validBackend b)"

lemma HandlerConfig_Validate_iff: "HandlerConfig_Validate c = None \<longleftrightarrow> table_ok c"
proof -
  have "range_err (\<lambda>i (name, backend). first_err [fail_if (name = '''') ErrInvalidEmptyKey,
      fail_if (\<not> validBackend backend) (ErrInvalidBackend name backend)]) 0 es = None \<longleftrightarrow>
    (\<forall>e \<in> set es. case e of (name, b) \<Rightarrow> name \<noteq> '''' \<and> validBackend b)" for es
    by (rule range_err_None_all) (simp add: check_simps split: prod.split)
  then show ?thesis by (simp add: HandlerConfig_Validate_def check_simps table_ok_def)
qed

lemma fill_missing_set: "set (fill_missing m defs) \<subseteq> set m \<union> set defs"
proof (induction defs arbitrary: m)
  case (Cons e defs)
  obtain k v where e: "e = (k, v)" by (cases e)
  show ?case unfolding e fill_missing_Cons using Cons.IH [of "if k \<in> fst ` set m then m else m @ [(k, v)]"]
    by (auto split: if_splits)
qed simp

lemma builtin_valid: "validBackend SANDBOX_BACKEND_VM" "validBackend SANDBOX_BACKEND_WASM"
  by (simp_all add: validBackend_def SandboxBackend_name_def const_defs)

lemma table_ok_fill: "table_ok c \<Longrightarrow> table_ok (c\<lparr>hd_Handlers := Ptr a (fill_missing (map_entries (hd_Handlers c)) builtin_handlers)\<rparr>)"
  using fill_missing_set [of "map_entries (hd_Handlers c)" builtin_handlers] builtin_valid
  by (fastforce simp: table_ok_def HandlerVM_def HandlerWasm_def)

lemma Backend_valid:
  assumes "table_ok c" "HandlerConfig_Backend c h = Inr b"
  shows "validBackend b"
proof (cases "h = ''''")
  case False
  with assms(2) have "map_of (map_entries (hd_Handlers c)) h = Some b"
    by (simp add: HandlerConfig_Backend_def split: option.splits)
  then have "(h, b) \<in> set (map_entries (hd_Handlers c))" by (rule map_of_SomeD)
  with assms(1) show ?thesis by (auto simp: table_ok_def)
qed (use assms in \<open>auto simp: HandlerConfig_Backend_def table_ok_def\<close>)

text \<open>
  (C16) Handler resolution fails closed. With the defaults filled in, a pod without a handler gets the config's default
  backend, a configured handler its configured backend, \<open>vm\<close> and \<open>wasm\<close> the built-in ones unless the config
  overrides them, and every other name is refused, never run on the default. A config that validates still does, and
  then every backend resolved is a defined one. The filled table is fresh memory and filling again changes nothing.
\<close>

theorem handler_resolution:
  assumes "distinct (map fst (map_entries (hd_Handlers c)))" "run_state (HandlerConfig_WithDefaults c) n = (d, l)"
    and "run_state (HandlerConfig_WithDefaults d) n' = (d', l')"
  shows "HandlerConfig_Backend d h =
           (if h = '''' then Inr (hd_DefaultBackend c)
            else case map_of (map_entries (hd_Handlers c)) h of
              Some b \<Rightarrow> Inr b
            | None \<Rightarrow> if h = ''vm'' then Inr SANDBOX_BACKEND_VM else if h = ''wasm'' then Inr SANDBOX_BACKEND_WASM
                else Inl (ErrUnknownHandler h)) \<and>
         (HandlerConfig_Validate c = None \<longrightarrow> HandlerConfig_Validate d = None \<and>
            (\<forall>b. HandlerConfig_Backend d h = Inr b \<longrightarrow> validBackend b)) \<and>
         (\<exists>a m. hd_Handlers d = Ptr a m \<and> n \<le> a) \<and> map_entries (hd_Handlers d') = map_entries (hd_Handlers d)"
proof (intro conjI impI allI)
  note d = HandlerDefaults_run [OF assms(1,2)]
  then have es: "map_entries (hd_Handlers d) = fill_missing (map_entries (hd_Handlers c)) builtin_handlers" by simp
  show "HandlerConfig_Backend d h = (if h = '''' then Inr (hd_DefaultBackend c)
      else case map_of (map_entries (hd_Handlers c)) h of Some b \<Rightarrow> Inr b
      | None \<Rightarrow> if h = ''vm'' then Inr SANDBOX_BACKEND_VM else if h = ''wasm'' then Inr SANDBOX_BACKEND_WASM
          else Inl (ErrUnknownHandler h))"
    unfolding HandlerConfig_Backend_def es map_of_fill_missing
    by (simp add: d HandlerVM_def HandlerWasm_def split: option.split)
  show "\<exists>a m. hd_Handlers d = Ptr a m \<and> n \<le> a" by (simp add: d)
  have "fst ` set builtin_handlers \<subseteq> fst ` set (map_entries (hd_Handlers d))"
    using map_of_fill_missing [of "map_entries (hd_Handlers c)" builtin_handlers] unfolding es
    by (auto simp: map_of_eq_None_iff [symmetric] HandlerVM_def HandlerWasm_def split: option.splits)
  note again = fill_missing_present [OF this]
  have "distinct (map fst (map_entries (hd_Handlers d)))" unfolding es by (rule fill_missing_distinct [OF assms(1)])
  from HandlerDefaults_run [OF this assms(3)] show "map_entries (hd_Handlers d') = map_entries (hd_Handlers d)"
    unfolding again by simp
next
  assume "HandlerConfig_Validate c = None"
  then have "table_ok c" by (simp only: HandlerConfig_Validate_iff)
  then have ok: "table_ok d" unfolding HandlerDefaults_run [OF assms(1,2)] by (rule table_ok_fill)
  then show "HandlerConfig_Validate d = None" by (simp add: HandlerConfig_Validate_iff)
  show "\<And>b. HandlerConfig_Backend d h = Inr b \<Longrightarrow> validBackend b" by (rule Backend_valid [OF ok])
qed

lemma handler_resolution_witness:
  "HandlerConfig_Backend (fst (run_state (HandlerConfig_WithDefaults
     \<lparr>hd_Handlers = Ptr 0 [(''vm'', 1), (''gvisor'', 3)], hd_DefaultBackend = 2\<rparr>) 5)) ''Wasm'' = Inl (ErrUnknownHandler ''Wasm'')"
proof -
  let ?c = "\<lparr>hd_Handlers = Ptr 0 [(''vm'', 1), (''gvisor'', 3)], hd_DefaultBackend = 2\<rparr>"
  obtain d l where d: "run_state (HandlerConfig_WithDefaults ?c) 5 = (d, l)" by (metis prod.exhaust)
  obtain d' l' where d': "run_state (HandlerConfig_WithDefaults d) 9 = (d', l')" by (metis prod.exhaust)
  have "distinct (map fst (map_entries (hd_Handlers ?c)))" by simp
  from handler_resolution [OF this d d', of "''Wasm''"] d show ?thesis by simp
qed


section \<open>Properties of chip labels\<close>

text \<open>The text a loop has written: label bytes, no dash first or last, no two dashes in a row.\<close>

definition slug_text :: "string \<Rightarrow> bool" where
  "slug_text s \<longleftrightarrow> (\<forall>c \<in> set s. lower_alnum c \<or> c = CHR ''-'') \<and> (s \<noteq> [] \<longrightarrow> lower_alnum (hd s)) \<and>
     successively (\<lambda>c d. c = CHR ''-'' \<longrightarrow> lower_alnum d) s"

lemma lower_alnum_dash [simp]: "\<not> lower_alnum CHR ''-''"
  by (simp add: lower_alnum_def is_lower_def is_digit_def byte_of_def)

lemma lower_alnum_char: "slug_rune r \<Longrightarrow> lower_alnum (char_of r)"
  by (auto simp: slug_rune_def lower_alnum_def is_lower_def is_digit_def byte_of_def)

lemma slug_text_snoc:
  assumes "slug_text s" "s \<noteq> [] \<longrightarrow> lower_alnum (last s)" "lower_alnum c"
  shows "slug_text (s @ [c])" "s \<noteq> [] \<Longrightarrow> slug_text (s @ ''-'' @ [c])"
  using assms by (auto simp: slug_text_def successively_append_iff hd_append)

lemma slug_loop_inv:
  assumes "foldl slug_step ([], False) rs = (b, p)"
  shows "slug_text b \<and> (b \<noteq> [] \<longrightarrow> lower_alnum (last b)) \<and> (p \<longrightarrow> b \<noteq> []) \<and> (b = [] \<longleftrightarrow> (\<forall>r \<in> set rs. \<not> slug_rune r))"
  using assms
proof (induction rs arbitrary: b p rule: rev_induct)
  case Nil
  then show ?case by (simp add: slug_text_def)
next
  case (snoc r rs)
  obtain b' p' where f: "foldl slug_step ([], False) rs = (b', p')" by (metis prod.exhaust)
  note IH = snoc.IH [OF f]
  from snoc.prems f have s: "slug_step (b', p') r = (b, p)" by simp
  show ?case
  proof (cases "slug_rune r")
    case True
    with s have "b = (if p' then b' @ ''-'' else b') @ [char_of r]" "\<not> p" by (auto simp: slug_step_def)
    with IH slug_text_snoc [of b' "char_of r"] lower_alnum_char [OF True] True show ?thesis by auto
  next
    case False
    with s IH show ?thesis by (auto simp: slug_step_def split: if_splits)
  qed
qed

text \<open>A text of that form goes through the loop unchanged, a last dash staying pending.\<close>

lemma slug_rune_byte: "lower_alnum c \<longleftrightarrow> slug_rune (byte_of c)"
  by (auto simp: slug_rune_def lower_alnum_def is_lower_def is_digit_def)

lemma slug_loop_id:
  "slug_text s \<Longrightarrow> foldl slug_step ([], False) (map byte_of s) =
     (if s \<noteq> [] \<and> last s = CHR ''-'' then (butlast s, True) else (s, False))"
proof (induction s rule: rev_induct)
  case (snoc c s)
  then have s: "slug_text s" and c: "lower_alnum c \<or> (c = CHR ''-'' \<and> s \<noteq> [] \<and> last s \<noteq> CHR ''-'')"
    by (auto simp: slug_text_def successively_append_iff)
  note IH = snoc.IH [OF s]
  from c show ?case
  proof
    assume l: "lower_alnum c"
    then have "slug_rune (byte_of c)" "c \<noteq> CHR ''-''" by (auto simp: slug_rune_byte [symmetric])
    moreover have "s \<noteq> [] \<Longrightarrow> last s = CHR ''-'' \<Longrightarrow> butlast s @ ''-'' = s" by (metis append_butlast_last_id)
    ultimately show ?thesis using IH by (auto simp: slug_step_def byte_of_def)
  next
    assume d: "c = CHR ''-'' \<and> s \<noteq> [] \<and> last s \<noteq> CHR ''-''"
    then have "\<not> slug_rune (byte_of c)" by (simp add: slug_rune_byte [symmetric])
    with d IH show ?thesis by (simp add: slug_step_def)
  qed
qed simp

lemma slug_text_prefix: "slug_text (s @ t) \<Longrightarrow> slug_text s"
  unfolding slug_text_def successively_append_iff by (cases "s = []") auto

lemma TrimRight_split: "\<exists>q. s = TrimRight s c @ q \<and> set q \<subseteq> {c}"
proof (intro exI conjI)
  let ?P = "\<lambda>x. x = c"
  have "rev s = takeWhile ?P (rev s) @ dropWhile ?P (rev s)" by simp
  then show "s = TrimRight s c @ rev (takeWhile ?P (rev s))" unfolding TrimRight_def by (metis rev_append rev_rev_ident)
  show "set (rev (takeWhile ?P (rev s))) \<subseteq> {c}" by (auto dest: set_takeWhileD)
qed

lemma TrimRight_last: "TrimRight s c \<noteq> [] \<Longrightarrow> last (TrimRight s c) \<noteq> c"
  unfolding TrimRight_def using hd_dropWhile [of "\<lambda>x. x = c" "rev s"] by (auto simp: last_rev)

definition slug :: "string \<Rightarrow> bool" where
  "slug s \<longleftrightarrow> slug_text s \<and> (s \<noteq> [] \<longrightarrow> last s \<noteq> CHR ''-'') \<and> length s \<le> 63"

lemma slug_TrimRight:
  assumes "slug_text s" "63 < length s"
  shows "slug (TrimRight (take 63 s) CHR ''-'')" "TrimRight (take 63 s) CHR ''-'' \<noteq> []"
proof -
  let ?t = "take 63 s" let ?u = "TrimRight ?t CHR ''-''"
  obtain q where q: "?t = ?u @ q" "set q \<subseteq> {CHR ''-''}" using TrimRight_split by blast
  have t: "slug_text ?t" using slug_text_prefix [of ?t "drop 63 s"] assms(1) by simp
  have ne: "?t \<noteq> []" using assms(2) by auto
  show u: "?u \<noteq> []"
  proof
    assume "?u = []"
    with q have "?t = q" by simp
    with q(2) ne have "hd ?t = CHR ''-''" by (metis hd_in_set singletonD subsetD)
    with t ne show False by (simp add: slug_text_def)
  qed
  have "slug_text ?u" using t slug_text_prefix [of ?u q] q(1) by simp
  moreover have "length ?u \<le> length ?t" using q(1) by (metis length_append le_add1)
  ultimately show "slug ?u" using TrimRight_last [OF u] by (simp add: slug_def)
qed

lemma ChipSlug_slug:
  "slug (ChipSlug lower raw) \<and> (ChipSlug lower raw = [] \<longleftrightarrow> (\<forall>r \<in> set (string_runes raw). \<not> slug_rune (lower r)))"
proof -
  obtain b p where f: "foldl slug_step ([], False) (map lower (string_runes raw)) = (b, p)" by (metis prod.exhaust)
  note inv = slug_loop_inv [OF f]
  have e: "ChipSlug lower raw = (if 63 < length b then TrimRight (take 63 b) CHR ''-'' else b)"
    by (simp add: ChipSlug_def f const_defs)
  show ?thesis
  proof (cases "63 < length b")
    case True
    then have "b \<noteq> []" by auto
    with True inv slug_TrimRight [of b] show ?thesis by (simp add: e)
  next
    case False
    with inv have "slug b" by (auto simp: slug_def)
    with False inv show ?thesis by (simp add: e)
  qed
qed

lemma slug_label: "slug s \<Longrightarrow> s \<noteq> [] \<Longrightarrow> label_ok s"
proof -
  assume s: "slug s" "s \<noteq> []"
  then have "lower_alnum (last s)" by (metis last_in_set slug_def slug_text_def)
  with s show ?thesis by (auto simp: label_ok_def slug_def slug_text_def label_byte_def)
qed

lemma ChipSlug_id:
  assumes "\<And>r. slug_rune r \<or> r = 45 \<Longrightarrow> lower r = r" "slug s"
  shows "ChipSlug lower s = s"
proof -
  have cs: "slug_rune (byte_of c) \<or> byte_of c = 45" if "c \<in> set s" for c
  proof -
    from that assms(2) have "lower_alnum c \<or> c = CHR ''-''" by (simp add: slug_def slug_text_def)
    then show ?thesis by (auto simp: slug_rune_byte) (simp add: byte_of_def)
  qed
  then have "list_all (\<lambda>b. b < 128) (map byte_of s)" by (fastforce simp: list_all_iff slug_rune_def)
  then have "string_runes s = map byte_of s" by (simp add: string_runes_def runes_ascii)
  moreover have "map lower (map byte_of s) = map byte_of s" using cs assms(1) by simp
  ultimately have "map lower (string_runes s) = map byte_of s" by (simp only:)
  then have "fst (foldl slug_step ([], False) (map lower (string_runes s))) = s"
    using slug_loop_id [of s] assms(2) by (auto simp: slug_def)
  with assms(2) show ?thesis by (simp add: ChipSlug_def slug_def const_defs)
qed

text \<open>
  (C20) A chip slug is always a valid label value: empty, or a DNS label of at most 63 bytes. It is empty exactly when
  no rune of the raw fact lowers to a letter a to z or a digit, however the fact is encoded. Making the slug of a slug
  changes nothing. The hypothesis is that \<open>unicode.ToLower\<close> leaves lower-case letters, digits and the dash alone.
\<close>

theorem ChipSlug_label_value:
  assumes "\<And>r. slug_rune r \<or> r = 45 \<Longrightarrow> lower r = r"
  shows "(ChipSlug lower raw = [] \<or> label_ok (ChipSlug lower raw)) \<and> length (ChipSlug lower raw) \<le> 63 \<and>
         (ChipSlug lower raw = [] \<longleftrightarrow> (\<forall>r \<in> set (string_runes raw). \<not> slug_rune (lower r))) \<and>
         ChipSlug lower (ChipSlug lower raw) = ChipSlug lower raw"
proof -
  have s: "slug (ChipSlug lower raw)" using ChipSlug_slug by blast
  then have "length (ChipSlug lower raw) \<le> 63" by (simp add: slug_def)
  with s ChipSlug_slug [of lower raw] slug_label ChipSlug_id [OF assms s] show ?thesis by blast
qed

lemma ChipSlug_label_value_witness:
  "ChipSlug (\<lambda>r. if 65 \<le> r \<and> r \<le> 90 then r + 32 else r) ''Apple M4'' = ''apple-m4'' \<and> label_ok ''apple-m4''"
proof -
  let ?l = "\<lambda>r :: nat. if 65 \<le> r \<and> r \<le> 90 then r + 32 else r"
  have "string_runes ''Apple M4'' = map byte_of ''Apple M4''" unfolding string_runes_def by (rule runes_ascii) (simp add: byte_of_def)
  then have e: "ChipSlug ?l ''Apple M4'' = ''apple-m4''"
    by (simp add: ChipSlug_def slug_step_def slug_rune_def byte_of_def const_defs char_of_def bit_0)
  have "?l r = r" if "slug_rune r \<or> r = 45" for r using that by (auto simp: slug_rune_def)
  then have "ChipSlug ?l ''Apple M4'' = [] \<or> label_ok (ChipSlug ?l ''Apple M4'')"
    using ChipSlug_label_value [of ?l "''Apple M4''"] by blast
  with e show ?thesis by simp
qed

text \<open>A signature message that is present is enforced or refused, never read as no check.\<close>

lemma ClassifyWasmSignature_present:
  "ClassifyWasmSignature s = WasmSignatureNone \<longleftrightarrow> s = NilP"
  "ClassifyWasmSignature s = WasmSignatureEnforce \<longleftrightarrow>
     (\<exists>a x. s = Ptr a x \<and> wsg_Required x \<and> els (wsg_PublicKeySpkiDer x) \<noteq> [])"
  by (cases s; simp add: ClassifyWasmSignature_def WasmSignature_GetRequired_def WasmSignature_GetPublicKeySpkiDer_def)+

end
