(* ===== verification/TestGate.thy ===== *)
theory TestGate
  imports TextLib
begin

text \<open>
  The capability gate of \<open>k3smtest\<close> (\<open>capability.go\<close>, \<open>skip.go\<close>). The process's environment is a record: what
  \<open>os.Getenv\<close> returns for a name, \<open>runtime.GOOS\<close> and \<open>os.Geteuid\<close>. \<open>SkipUnless\<close> returns its verdict.
\<close>

section \<open>Capabilities\<close>

type_synonym Capability = string

definition DevMac :: Capability where [const_defs]: "DevMac = ''dev-mac''"
definition Root :: Capability where [const_defs]: "Root = ''root''"
definition Network :: Capability where [const_defs]: "Network = ''network''"
definition Signing :: Capability where [const_defs]: "Signing = ''signing''"
definition AppleGPU :: Capability where [const_defs]: "AppleGPU = ''apple-gpu''"
definition TwoMacs :: Capability where [const_defs]: "TwoMacs = ''two-macs''"
definition VZ :: Capability where [const_defs]: "VZ = ''vz''"
definition Postgres :: Capability where [const_defs]: "Postgres = ''postgres''"
definition MacOSRunner :: Capability where [const_defs]: "MacOSRunner = ''macos-runner''"
definition Reboot :: Capability where [const_defs]: "Reboot = ''reboot''"

definition all_capabilities :: "Capability list" where
  "all_capabilities = [DevMac, Root, Network, Signing, AppleGPU, TwoMacs, VZ, Postgres, MacOSRunner, Reboot]"

definition All_capabilities :: "Capability list" where
  "All_capabilities = all_capabilities"

record environment =
  e_Getenv :: "string \<Rightarrow> string"
  e_GOOS :: string
  e_Geteuid :: int

text \<open>\<open>ToUpper\<close> is applied to the capability names, which are ASCII. In \<open>truthy\<close> the ASCII \<open>ToLower\<close> decides as the
  Unicode one does: no rune outside ASCII lowers to a letter of the words compared with.\<close>

definition upper_byte :: "char \<Rightarrow> char" where
  "upper_byte c = (if is_lower c then char_of (byte_of c - 32) else c)"

definition envVarName :: "Capability \<Rightarrow> string" where
  "envVarName cap = ''K3SM_CAP_'' @ map upper_byte (map (\<lambda>c. if c = CHR ''-'' then CHR ''_'' else c) cap)"

definition truthy :: "string \<Rightarrow> bool" where
  "truthy v = (ToLower (TrimSpace v) \<in> {''1'', ''true'', ''yes''})"

definition declared :: "Capability \<Rightarrow> environment \<Rightarrow> bool" where
  "declared cap e = truthy (e_Getenv e (envVarName cap))"

definition probers :: "(Capability \<times> (environment \<Rightarrow> bool)) list" where
  "probers =
     [(DevMac, \<lambda>e. e_GOOS e = ''darwin''),
      (Root, \<lambda>e. e_Geteuid e = 0),
      (Network, declared Network),
      (Signing, declared Signing),
      (AppleGPU, declared AppleGPU),
      (TwoMacs, declared TwoMacs),
      (VZ, declared VZ),
      (Postgres, declared Postgres),
      (MacOSRunner, declared MacOSRunner),
      (Reboot, declared Reboot)]"

definition isDeclared :: "Capability \<Rightarrow> bool" where
  "isDeclared cap = (if cap = DevMac \<or> cap = Root then False else map_of probers cap \<noteq> None)"

definition Available :: "environment \<Rightarrow> Capability \<Rightarrow> bool" where
  "Available e cap = (case map_of probers cap of None \<Rightarrow> False | Some p \<Rightarrow> p e)"

text \<open>\<open>strings.FieldsFunc\<close>: the maximal runs of bytes outside the separators.\<close>

primrec FieldsFunc :: "(char \<Rightarrow> bool) \<Rightarrow> string \<Rightarrow> string \<Rightarrow> string list" where
  "FieldsFunc sep cur [] = (if cur = [] then [] else [cur])"
| "FieldsFunc sep cur (c # s) =
     (if sep c then (if cur = [] then FieldsFunc sep [] s else cur # FieldsFunc sep [] s)
      else FieldsFunc sep (cur @ [c]) s)"

definition require_sep :: "char \<Rightarrow> bool" where
  "require_sep c = (c = CHR '','' \<or> c = CHR '' '' \<or> byte_of c = 9 \<or> byte_of c = 10)"

definition required :: "environment \<Rightarrow> Capability \<Rightarrow> bool" where
  "required e cap =
     (let raw = e_Getenv e ''K3SM_CI_REQUIRE''
      in if raw = '''' then False else list_ex (\<lambda>f. TrimSpace f = cap) (FieldsFunc require_sep [] raw))"

datatype gate = Runs | FatalUnknown Capability | FatalAbsent Capability | SkipDeclared Capability string | SkipProbed Capability

definition SkipUnless :: "environment \<Rightarrow> Capability \<Rightarrow> gate" where
  "SkipUnless e cap =
     (if map_of probers cap = None then FatalUnknown cap
      else if Available e cap then Runs
      else if required e cap then FatalAbsent cap
      else if isDeclared cap then SkipDeclared cap (envVarName cap)
      else SkipProbed cap)"


section \<open>Properties\<close>

lemma probers_known: "map fst probers = all_capabilities"
  by (simp add: probers_def all_capabilities_def)

lemma known_iff: "map_of probers cap = None \<longleftrightarrow> cap \<notin> set All_capabilities"
  by (simp add: map_of_eq_None_iff All_capabilities_def probers_known [symmetric])

lemma TrimSpace_id:
  assumes "list_all (\<lambda>c. byte_of c < 128 \<and> \<not> IsSpace (byte_of c)) s"
  shows "TrimSpace s = s"
proof -
  have "string_runes s = map byte_of s"
    unfolding string_runes_def using assms by (intro runes_ascii) (simp add: list_all_iff)
  then have "set (map fst (rune_chunks s)) = byte_of ` set s" by (simp only: map_fst_chunks) simp
  then have "fst p \<in> byte_of ` set s" if "p \<in> set (rune_chunks s)" for p using that by (metis image_eqI list.set_map)
  then have "\<not> IsSpace (fst p)" if "p \<in> set (rune_chunks s)" for p
    using that assms unfolding list_all_iff by (metis (no_types, lifting) imageE)
  then have "dropWhile (\<lambda>p. IsSpace (fst p)) xs = xs" if "set xs \<subseteq> set (rune_chunks s)" for xs
    using that by (cases xs) auto
  then show ?thesis by (simp add: TrimSpace_def concat_chunks)
qed

definition cap_byte :: "char \<Rightarrow> bool" where
  "cap_byte c = (is_lower c \<or> c = CHR ''-'')"

lemma cap_byte_plain: "cap_byte c \<Longrightarrow> byte_of c < 128 \<and> \<not> IsSpace (byte_of c) \<and> \<not> require_sep c"
  by (auto simp: cap_byte_def require_sep_def is_lower_def IsSpace_def byte_of_def)

lemma capabilities_plain: "cap \<in> set All_capabilities \<Longrightarrow> cap \<noteq> [] \<and> list_all cap_byte cap"
  by (auto simp: All_capabilities_def all_capabilities_def const_defs cap_byte_def is_lower_def byte_of_def)

lemma FieldsFunc_word:
  assumes "list_all (\<lambda>c. \<not> sep c) w" "cur @ w \<noteq> []" "post = [] \<or> sep (hd post)"
  shows "cur @ w \<in> set (FieldsFunc sep cur (w @ post))"
  using assms
proof (induction w arbitrary: cur)
  case Nil
  then show ?case by (cases post) auto
next
  case (Cons c w)
  from Cons.IH [of "cur @ [c]"] Cons.prems show ?case by simp
qed

lemma FieldsFunc_skip:
  assumes "pre = [] \<or> sep (last pre)" "pre = [] \<Longrightarrow> cur = []" "w \<in> set (FieldsFunc sep [] rest)"
  shows "w \<in> set (FieldsFunc sep cur (pre @ rest))"
  using assms
proof (induction pre arbitrary: cur)
  case (Cons c pre)
  show ?case
  proof (cases "pre = []")
    case True
    with Cons.prems show ?thesis by simp
  next
    case False
    then show ?thesis using Cons.IH [of "[]"] Cons.IH [of "cur @ [c]"] Cons.prems by auto
  qed
qed simp

text \<open>
  (C21) A capability a run promised is never skipped over. If \<open>K3SM_CI_REQUIRE\<close> names a known capability as one of
  its words, wherever it stands among commas, blanks, tabs and newlines, a test gated on it runs or fails. A name
  outside the taxonomy always fails, and a skip is given only for a known capability that is absent.
\<close>

theorem promised_capability_not_skipped:
  assumes "cap \<in> set All_capabilities" "e_Getenv e ''K3SM_CI_REQUIRE'' = pre @ cap @ post"
    and "pre = [] \<or> require_sep (last pre)" "post = [] \<or> require_sep (hd post)"
  shows "SkipUnless e cap = (if Available e cap then Runs else FatalAbsent cap) \<and>
         (other \<notin> set All_capabilities \<longrightarrow> SkipUnless e other = FatalUnknown other) \<and>
         ((\<exists>v. SkipUnless e other = SkipDeclared other v) \<or> SkipUnless e other = SkipProbed other \<longrightarrow>
            other \<in> set All_capabilities \<and> \<not> Available e other)"
proof -
  have cap: "cap \<noteq> []" "list_all cap_byte cap" using capabilities_plain [OF assms(1)] by auto
  then have clean: "list_all (\<lambda>c. \<not> require_sep c) cap" "TrimSpace cap = cap"
    using cap_byte_plain by (auto simp: list_all_iff intro!: TrimSpace_id)
  have "cap \<in> set (FieldsFunc require_sep [] (cap @ post))"
    using FieldsFunc_word [OF clean(1) _ assms(4), of "[]"] cap by simp
  then have "cap \<in> set (FieldsFunc require_sep [] (pre @ cap @ post))"
    using FieldsFunc_skip [of pre require_sep "[]"] assms(3) by blast
  with clean(2) cap(1) have "required e cap"
    by (auto simp: required_def assms(2) list_ex_iff intro!: bexI [of _ cap])
  then show ?thesis using assms(1) by (auto simp: SkipUnless_def known_iff split: if_splits)
qed

lemma promised_capability_not_skipped_witness:
  "SkipUnless \<lparr>e_Getenv = (\<lambda>n. if n = ''K3SM_CI_REQUIRE'' then ''vz, apple-gpu'' else ''''), e_GOOS = ''linux'', e_Geteuid = 1\<rparr>
     ''apple-gpu'' = FatalAbsent ''apple-gpu''"
proof -
  let ?e = "\<lparr>e_Getenv = (\<lambda>n. if n = ''K3SM_CI_REQUIRE'' then ''vz, apple-gpu'' else ''''), e_GOOS = ''linux'', e_Geteuid = 1\<rparr>"
  have t: "TrimSpace [] = []" by (rule TrimSpace_id) simp
  have "e_Getenv ?e (envVarName ''apple-gpu'') = ''''" by (simp add: envVarName_def)
  then have "\<not> declared ''apple-gpu'' ?e" by (simp only: declared_def truthy_def t) simp
  moreover have "map_of probers ''apple-gpu'' = Some (declared ''apple-gpu'')" by (simp add: probers_def const_defs)
  ultimately have absent: "\<not> Available ?e ''apple-gpu''" by (simp only: Available_def option.case) simp
  have known: "''apple-gpu'' \<in> set All_capabilities" by (simp add: All_capabilities_def all_capabilities_def const_defs)
  have env: "e_Getenv ?e ''K3SM_CI_REQUIRE'' = ''vz, '' @ ''apple-gpu'' @ []" by simp
  have pre: "''vz, '' = [] \<or> require_sep (last ''vz, '')" by (simp add: require_sep_def)
  have post: "[] = [] \<or> require_sep (hd [])" by simp
  have "SkipUnless ?e ''apple-gpu'' = (if Available ?e ''apple-gpu'' then Runs else FatalAbsent ''apple-gpu'')"
    by (rule promised_capability_not_skipped [OF known env pre post, THEN conjunct1])
  with absent show ?thesis by (simp only: if_False)
qed

text \<open>Declaring one capability makes no other one available.\<close>

lemma envVarName_inj:
  assumes "list_all cap_byte s" "list_all cap_byte t" "envVarName s = envVarName t"
  shows "s = t"
proof -
  let ?f = "\<lambda>c. upper_byte (if c = CHR ''-'' then CHR ''_'' else c)"
  have f: "byte_of (?f c) = (if c = CHR ''-'' then 95 else byte_of c - 32)" if "cap_byte c" for c
    using that by (auto simp: cap_byte_def upper_byte_def is_lower_def byte_of_def)
  have "inj_on ?f (set s \<union> set t)"
  proof (rule inj_onI)
    fix c d
    assume "c \<in> set s \<union> set t" "d \<in> set s \<union> set t" and e: "?f c = ?f d"
    then have cd: "cap_byte c" "cap_byte d" using assms(1,2) by (auto simp: list_all_iff)
    have "byte_of (?f c) = byte_of (?f d)" using e by simp
    then have "byte_of c = byte_of d" unfolding f [OF cd(1)] f [OF cd(2)]
      using cd by (auto simp: cap_byte_def is_lower_def simp del: byte_of_inj split: if_splits)
    then show "c = d" by simp
  qed
  moreover have "map ?f s = map ?f t" using assms(3) by (simp add: envVarName_def comp_def)
  ultimately show ?thesis by (simp add: map_inj_on)
qed

lemma declaring_is_independent:
  assumes "cap \<in> set All_capabilities" "other \<in> set All_capabilities" "cap \<noteq> other"
  shows "Available (e\<lparr>e_Getenv := (e_Getenv e)(envVarName cap := v)\<rparr>) other = Available e other"
proof -
  have ne: "envVarName other \<noteq> envVarName cap"
    using envVarName_inj capabilities_plain assms by blast
  have "declared other (e\<lparr>e_Getenv := (e_Getenv e)(envVarName cap := v)\<rparr>) = declared other e"
    using ne by (simp add: declared_def)
  moreover obtain p where p: "map_of probers other = Some p" using assms(2) known_iff by blast
  moreover have "p = declared other \<or> p = (\<lambda>e. e_GOOS e = ''darwin'') \<or> p = (\<lambda>e. e_Geteuid e = 0)"
    using p unfolding probers_def map_of.simps prod.sel fun_upd_apply by (simp split: if_splits)
  ultimately show ?thesis by (auto simp: Available_def)
qed

end
