(* ===== verification/ContractSuite.thy ===== *)
theory ContractSuite
  imports Prelude "HOL-Library.State_Monad" "HOL-Library.Monad_Syntax"
begin

text \<open>
  The contract suite of \<open>k3smtest/runtimecontract/runtimecontract.go\<close>. The runtime under test is an argument: a client whose
  calls read and change a state of the runtime's own type \<open>'s\<close>, and fail in transport with an error of type \<open>'e\<close> (a
  call cut off by the case's deadline is one of these). Messages carry the fields the suite reads.
\<close>

section \<open>Messages and the client\<close>

type_synonym ('s, 'e, 'a) call = "('s, 'e + 'a) state"

record rpc_Status =
  st_Code :: int32
  st_Message :: string

record PodStatus =
  ps_PodId :: string
  ps_Phase :: int32

record CreatePodResponse =
  cr_Status :: "PodStatus option"
  cr_Error :: "rpc_Status option"

record GetPodStatusResponse =
  gr_Status :: "PodStatus option"
  gr_Error :: "rpc_Status option"

record ('s, 'e, 'p, 't) RuntimeContract =
  rc_GetRuntimeInfo :: "('s, 'e, string) call"
  rc_CreatePod :: "'p \<Rightarrow> ('s, 'e, CreatePodResponse) call"
  rc_GetPodStatus :: "string \<Rightarrow> ('s, 'e, GetPodStatusResponse) call"
  rc_WatchPodStatus :: "string \<Rightarrow> ('s, 'e, 't) call"
  rc_Recv :: "'t \<Rightarrow> ('s, 'e, PodStatus option) call"
  rc_ListPodStats :: "('s, 'e, string list) call"
  rc_DeletePod :: "string \<Rightarrow> ('s, 'e, unit) call"
  rc_Pod :: "string \<Rightarrow> 'p"

datatype 'e contract_err =
    Transport string string 'e
  | RefusedInBand string int32
  | NoStatus string string
  | WrongPodId string string string
  | NoPhase string string
  | NotInBandNotFound string int32
  | EmptyRuntimeName
  | InBandError string int32
  | EmptyStatsPodId nat
  | AfterDelete "'e contract_err"

definition POD_PHASE_UNSPECIFIED :: int32 where [const_defs]: "POD_PHASE_UNSPECIFIED = 0"
definition codes_NotFound :: int32 where [const_defs]: "codes_NotFound = 5"
definition contractAbsentPodID :: string where [const_defs]: "contractAbsentPodID = ''contractabsentpod''"

text \<open>\<open>resp.GetError().GetCode()\<close>: an absent error has code 0.\<close>

definition error_code :: "rpc_Status option \<Rightarrow> int32" where
  "error_code e = (case e of None \<Rightarrow> 0 | Some x \<Rightarrow> st_Code x)"


section \<open>The cases\<close>

definition createPod ::
  "('s, 'e, 'p, 't) RuntimeContract \<Rightarrow> string \<Rightarrow> ('s, ('e contract_err + CreatePodResponse) \<times> ('s, unit) state) state"
where
  "createPod c pid = do {
     r \<leftarrow> rc_CreatePod c (rc_Pod c pid);
     State_Monad.return
       (case r of
          Inl e \<Rightarrow> (Inl (Transport ''CreatePod'' pid e), State_Monad.return ())
        | Inr resp \<Rightarrow>
            (if cr_Error resp \<noteq> None \<and> error_code (cr_Error resp) \<noteq> 0
             then Inl (RefusedInBand pid (error_code (cr_Error resp))) else Inr resp,
             do { _ \<leftarrow> rc_DeletePod c pid; State_Monad.return () })) }"

definition checkStatusBody :: "string \<Rightarrow> string \<Rightarrow> PodStatus option \<Rightarrow> 'e contract_err option" where
  "checkStatusBody whr pid st =
     (case st of
        None \<Rightarrow> Some (NoStatus whr pid)
      | Some x \<Rightarrow>
          if ps_PodId x \<noteq> pid then Some (WrongPodId whr (ps_PodId x) pid)
          else if ps_Phase x = POD_PHASE_UNSPECIFIED then Some (NoPhase whr pid)
          else None)"

definition wantInBandNotFound ::
  "('s, 'e, 'p, 't) RuntimeContract \<Rightarrow> string \<Rightarrow> ('s, 'e contract_err option) state"
where
  "wantInBandNotFound c pid = do {
     r \<leftarrow> rc_GetPodStatus c pid;
     State_Monad.return
       (case r of
          Inl e \<Rightarrow> Some (Transport ''GetPodStatus'' pid e)
        | Inr resp \<Rightarrow>
            if error_code (gr_Error resp) \<noteq> codes_NotFound then Some (NotInBandNotFound pid (error_code (gr_Error resp)))
            else None) }"

text \<open>The shape of a case: create a pod, run the body if that went well, and clean up in every case (\<open>defer\<close>).\<close>

definition with_pod ::
  "('s, 'e, 'p, 't) RuntimeContract \<Rightarrow> string \<Rightarrow> (CreatePodResponse \<Rightarrow> ('s, 'e contract_err option) state) \<Rightarrow>
   ('s, 'e contract_err option) state"
where
  "with_pod c pid body = do {
     (r, cleanup) \<leftarrow> createPod c pid;
     v \<leftarrow> (case r of Inl e \<Rightarrow> State_Monad.return (Some e) | Inr resp \<Rightarrow> body resp);
     _ \<leftarrow> cleanup;
     State_Monad.return v }"

definition checkRuntimeInfo :: "('s, 'e, 'p, 't) RuntimeContract \<Rightarrow> ('s, 'e contract_err option) state" where
  "checkRuntimeInfo c = do {
     r \<leftarrow> rc_GetRuntimeInfo c;
     State_Monad.return
       (case r of
          Inl e \<Rightarrow> Some (Transport ''GetRuntimeInfo'' '''' e)
        | Inr name \<Rightarrow> if name = '''' then Some EmptyRuntimeName else None) }"

definition checkCreate :: "('s, 'e, 'p, 't) RuntimeContract \<Rightarrow> ('s, 'e contract_err option) state" where
  "checkCreate c = with_pod c ''contractcreate''
     (\<lambda>resp. State_Monad.return (checkStatusBody ''CreatePod'' ''contractcreate'' (cr_Status resp)))"

definition status_steps :: "('s, 'e, 'p, 't) RuntimeContract \<Rightarrow> ('s, 'e contract_err option) state" where
  "status_steps c = do {
     r \<leftarrow> rc_GetPodStatus c ''contractstatus'';
     State_Monad.return
       (case r of
          Inl e \<Rightarrow> Some (Transport ''GetPodStatus'' ''contractstatus'' e)
        | Inr resp \<Rightarrow>
            if gr_Error resp \<noteq> None \<and> error_code (gr_Error resp) \<noteq> 0
            then Some (InBandError ''contractstatus'' (error_code (gr_Error resp)))
            else checkStatusBody ''GetPodStatus'' ''contractstatus'' (gr_Status resp)) }"

definition checkStatus :: "('s, 'e, 'p, 't) RuntimeContract \<Rightarrow> ('s, 'e contract_err option) state" where
  "checkStatus c = with_pod c ''contractstatus'' (\<lambda>_. status_steps c)"

definition checkStatusUnknown :: "('s, 'e, 'p, 't) RuntimeContract \<Rightarrow> ('s, 'e contract_err option) state" where
  "checkStatusUnknown c = wantInBandNotFound c contractAbsentPodID"

definition watch_steps :: "('s, 'e, 'p, 't) RuntimeContract \<Rightarrow> ('s, 'e contract_err option) state" where
  "watch_steps c = do {
     r \<leftarrow> rc_WatchPodStatus c ''contractwatch'';
     case r of
       Inl e \<Rightarrow> State_Monad.return (Some (Transport ''WatchPodStatus'' ''contractwatch'' e))
     | Inr stream \<Rightarrow> do {
         ev \<leftarrow> rc_Recv c stream;
         State_Monad.return
           (case ev of
              Inl e \<Rightarrow> Some (Transport ''Recv'' ''contractwatch'' e)
            | Inr st \<Rightarrow> checkStatusBody ''WatchPodStatus'' ''contractwatch'' st) } }"

definition checkWatch :: "('s, 'e, 'p, 't) RuntimeContract \<Rightarrow> ('s, 'e contract_err option) state" where
  "checkWatch c = with_pod c ''contractwatch'' (\<lambda>_. watch_steps c)"

definition stats_steps :: "('s, 'e, 'p, 't) RuntimeContract \<Rightarrow> ('s, 'e contract_err option) state" where
  "stats_steps c = do {
     r \<leftarrow> rc_ListPodStats c;
     State_Monad.return
       (case r of
          Inl e \<Rightarrow> Some (Transport ''ListPodStats'' '''' e)
        | Inr stats \<Rightarrow> range_err (\<lambda>i pid. fail_if (pid = '''') (EmptyStatsPodId i)) 0 stats) }"

definition checkStats :: "('s, 'e, 'p, 't) RuntimeContract \<Rightarrow> ('s, 'e contract_err option) state" where
  "checkStats c = with_pod c ''contractstats'' (\<lambda>_. stats_steps c)"

definition delete_steps :: "('s, 'e, 'p, 't) RuntimeContract \<Rightarrow> ('s, 'e contract_err option) state" where
  "delete_steps c = do {
     r1 \<leftarrow> rc_DeletePod c ''contractdelete'';
     case r1 of
       Inl e \<Rightarrow> State_Monad.return (Some (Transport ''DeletePod'' ''contractdelete'' e))
     | Inr _ \<Rightarrow> do {
         nf \<leftarrow> wantInBandNotFound c ''contractdelete'';
         case nf of
           Some e \<Rightarrow> State_Monad.return (Some (AfterDelete e))
         | None \<Rightarrow> do {
             r2 \<leftarrow> rc_DeletePod c ''contractdelete'';
             case r2 of
               Inl e \<Rightarrow> State_Monad.return (Some (Transport ''second DeletePod'' ''contractdelete'' e))
             | Inr _ \<Rightarrow> do {
                 r3 \<leftarrow> rc_DeletePod c contractAbsentPodID;
                 State_Monad.return
                   (case r3 of Inl e \<Rightarrow> Some (Transport ''DeletePod'' contractAbsentPodID e) | Inr _ \<Rightarrow> None) } } } }"

definition checkDelete :: "('s, 'e, 'p, 't) RuntimeContract \<Rightarrow> ('s, 'e contract_err option) state" where
  "checkDelete c = with_pod c ''contractdelete'' (\<lambda>_. delete_steps c)"

definition runtimeContractCases ::
  "(string \<times> (('s, 'e, 'p, 't) RuntimeContract \<Rightarrow> ('s, 'e contract_err option) state)) list"
where
  "runtimeContractCases =
     [(''runtime-info'', checkRuntimeInfo), (''create'', checkCreate), (''status'', checkStatus),
      (''status-unknown'', checkStatusUnknown), (''watch'', checkWatch), (''stats'', checkStats), (''delete'', checkDelete)]"

primrec check_cases ::
  "(string \<times> ('c \<Rightarrow> ('s, 'r option) state)) list \<Rightarrow> 'c \<Rightarrow> ('s, (string \<times> 'r option) list) state"
where
  "check_cases [] c = State_Monad.return []"
| "check_cases (cc # ccs) c = do {
     e \<leftarrow> snd cc c;
     out \<leftarrow> check_cases ccs c;
     State_Monad.return ((fst cc, e) # out) }"

definition CheckRuntimeContract ::
  "('s, 'e, 'p, 't) RuntimeContract \<Rightarrow> ('s, (string \<times> 'e contract_err option) list) state"
where
  "CheckRuntimeContract c = check_cases runtimeContractCases c"

text \<open>\<open>RunRuntimeContract\<close> reports each case's error to its subtest: the failures it leaves.\<close>

definition RunRuntimeContract ::
  "('s, 'e, 'p, 't) RuntimeContract \<Rightarrow> ('s, (string \<times> 'e contract_err) list) state"
where
  "RunRuntimeContract c = do {
     out \<leftarrow> check_cases runtimeContractCases c;
     State_Monad.return (List.map_filter (\<lambda>(n, e). map_option (Pair n) e) out) }"

section \<open>What a runtime must do\<close>

definition good_status :: "string \<Rightarrow> PodStatus option \<Rightarrow> bool" where
  "good_status pid st \<longleftrightarrow> (\<exists>x. st = Some x \<and> ps_PodId x = pid \<and> ps_Phase x \<noteq> POD_PHASE_UNSPECIFIED)"

lemma checkStatusBody_None: "checkStatusBody whr pid st = None \<longleftrightarrow> good_status pid st"
  by (auto simp: checkStatusBody_def good_status_def split: option.split)

text \<open>The promises, over the set of pods the runtime holds in a state.\<close>

definition reports_info :: "('s, 'e, 'p, 't) RuntimeContract \<Rightarrow> ('s \<Rightarrow> string set) \<Rightarrow> bool" where
  "reports_info c pods \<longleftrightarrow> (\<forall>s. \<exists>name s'. run_state (rc_GetRuntimeInfo c) s = (Inr name, s') \<and> name \<noteq> '''' \<and> pods s' = pods s)"

definition creates_pods :: "('s, 'e, 'p, 't) RuntimeContract \<Rightarrow> ('s \<Rightarrow> string set) \<Rightarrow> bool" where
  "creates_pods c pods \<longleftrightarrow> (\<forall>s pid. pid \<notin> pods s \<longrightarrow>
     (\<exists>resp s'. run_state (rc_CreatePod c (rc_Pod c pid)) s = (Inr resp, s') \<and> error_code (cr_Error resp) = 0 \<and>
        good_status pid (cr_Status resp) \<and> pods s' = insert pid (pods s)))"

definition reports_status :: "('s, 'e, 'p, 't) RuntimeContract \<Rightarrow> ('s \<Rightarrow> string set) \<Rightarrow> bool" where
  "reports_status c pods \<longleftrightarrow> (\<forall>s pid. \<exists>resp s'. run_state (rc_GetPodStatus c pid) s = (Inr resp, s') \<and> pods s' = pods s \<and>
     (if pid \<in> pods s then error_code (gr_Error resp) = 0 \<and> good_status pid (gr_Status resp)
      else error_code (gr_Error resp) = codes_NotFound))"

definition streams_status :: "('s, 'e, 'p, 't) RuntimeContract \<Rightarrow> ('s \<Rightarrow> string set) \<Rightarrow> bool" where
  "streams_status c pods \<longleftrightarrow> (\<forall>s pid. pid \<in> pods s \<longrightarrow>
     (\<exists>t s1 st s2. run_state (rc_WatchPodStatus c pid) s = (Inr t, s1) \<and> run_state (rc_Recv c t) s1 = (Inr st, s2) \<and>
        good_status pid st \<and> pods s1 = pods s \<and> pods s2 = pods s))"

definition lists_stats :: "('s, 'e, 'p, 't) RuntimeContract \<Rightarrow> ('s \<Rightarrow> string set) \<Rightarrow> bool" where
  "lists_stats c pods \<longleftrightarrow> (\<forall>s. \<exists>stats s'. run_state (rc_ListPodStats c) s = (Inr stats, s') \<and> '''' \<notin> set stats \<and> pods s' = pods s)"

definition deletes_pods :: "('s, 'e, 'p, 't) RuntimeContract \<Rightarrow> ('s \<Rightarrow> string set) \<Rightarrow> bool" where
  "deletes_pods c pods \<longleftrightarrow> (\<forall>s pid. \<exists>s'. run_state (rc_DeletePod c pid) s = (Inr (), s') \<and> pods s' = pods s - {pid})"

text \<open>A case passes from a state and leaves the pods as they were.\<close>

definition passes :: "('s \<Rightarrow> string set) \<Rightarrow> ('s, 'r option) state \<Rightarrow> 's \<Rightarrow> bool" where
  "passes pods m s \<longleftrightarrow> (\<exists>s'. run_state m s = (None, s') \<and> pods s' = pods s)"

lemma with_pod_run:
  assumes "creates_pods c pods" "pid \<notin> pods s"
  obtains resp s1 where "run_state (rc_CreatePod c (rc_Pod c pid)) s = (Inr resp, s1)" "good_status pid (cr_Status resp)"
    "pods s1 = insert pid (pods s)"
    "\<And>body. run_state (with_pod c pid body) s =
       (let (v, s2) = run_state (body resp) s1 in (v, snd (run_state (rc_DeletePod c pid) s2)))"
proof -
  from assms obtain resp s1 where r: "run_state (rc_CreatePod c (rc_Pod c pid)) s = (Inr resp, s1)"
    "error_code (cr_Error resp) = 0" "good_status pid (cr_Status resp)" "pods s1 = insert pid (pods s)"
    unfolding creates_pods_def by blast
  have "run_state (with_pod c pid body) s = (let (v, s2) = run_state (body resp) s1 in (v, snd (run_state (rc_DeletePod c pid) s2)))"
    for body
    by (simp add: with_pod_def createPod_def r split: prod.split)
  with r that show thesis by blast
qed

lemma with_pod_passes:
  assumes "creates_pods c pods" "deletes_pods c pods" "pid \<notin> pods s"
    and "\<And>resp s1. good_status pid (cr_Status resp) \<Longrightarrow> pods s1 = insert pid (pods s) \<Longrightarrow>
      \<exists>s2. run_state (body resp) s1 = (None, s2) \<and> pods s2 - {pid} = pods s"
  shows "passes pods (with_pod c pid body) s"
proof -
  obtain resp s1 where r: "good_status pid (cr_Status resp)" "pods s1 = insert pid (pods s)"
    and w: "run_state (with_pod c pid body) s =
      (let (v, s2) = run_state (body resp) s1 in (v, snd (run_state (rc_DeletePod c pid) s2)))"
    by (rule with_pod_run [OF assms(1,3)]) blast
  from assms(4) [OF r] obtain s2 where s2: "run_state (body resp) s1 = (None, s2)" "pods s2 - {pid} = pods s" by blast
  from assms(2) obtain s3 where "run_state (rc_DeletePod c pid) s2 = (Inr (), s3)" "pods s3 = pods s2 - {pid}"
    unfolding deletes_pods_def by blast
  with w s2 show ?thesis by (simp add: passes_def)
qed

section \<open>Each case\<close>

lemma wantInBandNotFound_absent:
  assumes "reports_status c pods" "pid \<notin> pods s"
  shows "passes pods (wantInBandNotFound c pid) s"
proof -
  from assms obtain resp s' where "run_state (rc_GetPodStatus c pid) s = (Inr resp, s')" "pods s' = pods s"
    "error_code (gr_Error resp) = codes_NotFound"
    unfolding reports_status_def by metis
  then show ?thesis by (simp add: passes_def wantInBandNotFound_def)
qed

lemma wantInBandNotFound_held:
  assumes "reports_status c pods" "fst (run_state (wantInBandNotFound c pid) s) = None"
  shows "pid \<notin> pods s"
proof
  assume "pid \<in> pods s"
  with assms(1) obtain resp s' where "run_state (rc_GetPodStatus c pid) s = (Inr resp, s')" "error_code (gr_Error resp) = 0"
    unfolding reports_status_def by metis
  with assms(2) show False by (simp add: wantInBandNotFound_def const_defs)
qed

lemma checkRuntimeInfo_passes: "reports_info c pods \<Longrightarrow> passes pods (checkRuntimeInfo c) s"
proof -
  assume "reports_info c pods"
  then obtain name s' where "run_state (rc_GetRuntimeInfo c) s = (Inr name, s')" "name \<noteq> ''''" "pods s' = pods s"
    unfolding reports_info_def by blast
  then show ?thesis by (simp add: passes_def checkRuntimeInfo_def)
qed

lemma checkCreate_passes:
  assumes "creates_pods c pods" "deletes_pods c pods" "''contractcreate'' \<notin> pods s"
  shows "passes pods (checkCreate c) s"
  unfolding checkCreate_def using assms
  by (rule with_pod_passes) (use assms(3) in \<open>simp add: checkStatusBody_None\<close>)

lemma checkStatus_passes:
  assumes "creates_pods c pods" "deletes_pods c pods" "reports_status c pods" "''contractstatus'' \<notin> pods s"
  shows "passes pods (checkStatus c) s"
  unfolding checkStatus_def using assms(1,2,4)
proof (rule with_pod_passes)
  fix s1
  assume s1: "pods s1 = insert ''contractstatus'' (pods s)"
  then have "''contractstatus'' \<in> pods s1" by simp
  with assms(3) obtain resp s2 where "run_state (rc_GetPodStatus c ''contractstatus'') s1 = (Inr resp, s2)"
    "pods s2 = pods s1" "error_code (gr_Error resp) = 0" "good_status ''contractstatus'' (gr_Status resp)"
    unfolding reports_status_def by metis
  with s1 assms(4) show "\<exists>s2. run_state (status_steps c) s1 = (None, s2) \<and> pods s2 - {''contractstatus''} = pods s"
    by (simp add: status_steps_def checkStatusBody_None)
qed

lemma checkWatch_passes:
  assumes "creates_pods c pods" "deletes_pods c pods" "streams_status c pods" "''contractwatch'' \<notin> pods s"
  shows "passes pods (checkWatch c) s"
  unfolding checkWatch_def using assms(1,2,4)
proof (rule with_pod_passes)
  fix s1
  assume s1: "pods s1 = insert ''contractwatch'' (pods s)"
  then have "''contractwatch'' \<in> pods s1" by simp
  with assms(3) obtain t s2 st s3 where "run_state (rc_WatchPodStatus c ''contractwatch'') s1 = (Inr t, s2)"
    "run_state (rc_Recv c t) s2 = (Inr st, s3)" "good_status ''contractwatch'' st" "pods s3 = pods s1"
    unfolding streams_status_def by metis
  with s1 assms(4) show "\<exists>s2. run_state (watch_steps c) s1 = (None, s2) \<and> pods s2 - {''contractwatch''} = pods s"
    by (simp add: watch_steps_def checkStatusBody_None)
qed

lemma checkStats_passes:
  assumes "creates_pods c pods" "deletes_pods c pods" "lists_stats c pods" "''contractstats'' \<notin> pods s"
  shows "passes pods (checkStats c) s"
  unfolding checkStats_def using assms(1,2,4)
proof (rule with_pod_passes)
  fix s1
  assume s1: "pods s1 = insert ''contractstats'' (pods s)"
  from assms(3) obtain stats s2 where "run_state (rc_ListPodStats c) s1 = (Inr stats, s2)" "'''' \<notin> set stats" "pods s2 = pods s1"
    unfolding lists_stats_def by metis
  moreover from this(2) have "range_err (\<lambda>i pid. fail_if (pid = '''') (EmptyStatsPodId i)) 0 stats = None"
    by (subst range_err_None_all [where P = "\<lambda>pid. pid \<noteq> ''''"]) (auto simp: check_simps)
  ultimately show "\<exists>s2. run_state (stats_steps c) s1 = (None, s2) \<and> pods s2 - {''contractstats''} = pods s"
    using s1 assms(4) by (simp add: stats_steps_def)
qed

lemma checkDelete_passes:
  assumes "creates_pods c pods" "deletes_pods c pods" "reports_status c pods"
    and "''contractdelete'' \<notin> pods s" "contractAbsentPodID \<notin> pods s"
  shows "passes pods (checkDelete c) s"
  unfolding checkDelete_def using assms(1,2,4)
proof (rule with_pod_passes)
  fix s1
  assume s1: "pods s1 = insert ''contractdelete'' (pods s)"
  note del = assms(2) [unfolded deletes_pods_def, rule_format]
  obtain s2 where s2: "run_state (rc_DeletePod c ''contractdelete'') s1 = (Inr (), s2)" "pods s2 = pods s"
    using del [of "''contractdelete''" s1] s1 assms(4) by auto
  obtain s3 where s3: "run_state (wantInBandNotFound c ''contractdelete'') s2 = (None, s3)" "pods s3 = pods s"
    using wantInBandNotFound_absent [OF assms(3), of "''contractdelete''" s2] s2(2) assms(4) by (auto simp: passes_def)
  obtain s4 where s4: "run_state (rc_DeletePod c ''contractdelete'') s3 = (Inr (), s4)" "pods s4 = pods s"
    using del [of "''contractdelete''" s3] s3(2) assms(4) by auto
  obtain s5 where s5: "run_state (rc_DeletePod c contractAbsentPodID) s4 = (Inr (), s5)" "pods s5 = pods s"
    using del [of contractAbsentPodID s4] s4(2) assms(5) by auto
  show "\<exists>s2. run_state (delete_steps c) s1 = (None, s2) \<and> pods s2 - {''contractdelete''} = pods s"
    using assms(4) by (simp add: delete_steps_def s2(1) s3(1) s4(1) s5)
qed

section \<open>The suite\<close>

lemma check_cases_pass:
  assumes "\<And>n f s. (n, f) \<in> set ccs \<Longrightarrow> pods s = ps \<Longrightarrow> passes pods (f c) s" "pods s = ps" "map fst ccs = names"
  shows "\<exists>s'. run_state (check_cases ccs c) s = (map (\<lambda>n. (n, None)) names, s') \<and> pods s' = ps"
  using assms
proof (induction ccs arbitrary: s names)
  case (Cons cc ccs)
  have "passes pods (snd cc c) s" by (rule Cons.prems(1) [of "fst cc"]) (simp_all add: Cons.prems(2))
  then obtain s1 where s1: "run_state (snd cc c) s = (None, s1)" "pods s1 = ps"
    by (auto simp: passes_def Cons.prems(2))
  have rest: "passes pods (f c) s" if "(n, f) \<in> set ccs" "pods s = ps" for n f s
    by (rule Cons.prems(1) [of n]) (simp_all add: that)
  have "\<exists>s2. run_state (check_cases ccs c) s1 = (map (\<lambda>n. (n, None)) (map fst ccs), s2) \<and> pods s2 = ps"
    by (rule Cons.IH) (erule (1) rest, rule s1(2), rule refl)
  then obtain s2 where "run_state (check_cases ccs c) s1 = (map (\<lambda>n. (n, None)) (map fst ccs), s2)" "pods s2 = ps"
    by (elim exE conjE)
  then show ?case unfolding Cons.prems(3) [symmetric] by (simp add: s1(1))
qed simp

definition contract_ids :: "string set" where
  "contract_ids = {''contractcreate'', ''contractstatus'', ''contractwatch'', ''contractstats'', ''contractdelete'', contractAbsentPodID}"

lemma suite_passes:
  assumes "reports_info c pods" "creates_pods c pods" "reports_status c pods" "streams_status c pods"
    and "lists_stats c pods" "deletes_pods c pods" "pods s \<inter> contract_ids = {}"
    and "(n, f) \<in> set runtimeContractCases"
  shows "passes pods (f c) s"
proof -
  have free: "pid \<notin> pods s" if "pid \<in> contract_ids" for pid using that assms(7) by blast
  have ids: "''contractcreate'' \<notin> pods s" "''contractstatus'' \<notin> pods s" "''contractwatch'' \<notin> pods s"
    "''contractstats'' \<notin> pods s" "''contractdelete'' \<notin> pods s" "contractAbsentPodID \<notin> pods s"
    using free by (simp_all only: contract_ids_def insert_iff simp_thms)
  have unknown: "passes pods (checkStatusUnknown c) s"
    unfolding checkStatusUnknown_def by (rule wantInBandNotFound_absent [OF assms(3) ids(6)])
  note passed = checkRuntimeInfo_passes [OF assms(1)] checkCreate_passes [OF assms(2,6) ids(1)]
    checkStatus_passes [OF assms(2,6,3) ids(2)] unknown checkWatch_passes [OF assms(2,6,4) ids(3)]
    checkStats_passes [OF assms(2,6,5) ids(4)] checkDelete_passes [OF assms(2,6,3) ids(5,6)]
  show ?thesis
    using assms(8) unfolding runtimeContractCases_def list.set insert_iff empty_iff prod.inject
    by (elim disjE conjE FalseE) (simp_all only: passed)
qed

text \<open>
  (C17) The suite asks nothing a sound runtime does not do, and it leaves no trace. A runtime that names itself, creates
  pods, reports held pods with their id and a phase and others as not found in-band, streams a snapshot, attributes its
  statistics and deletes idempotently passes every case, in the published order, and holds the pods it held before.
\<close>

theorem sound_runtime_passes:
  assumes "reports_info c pods" "creates_pods c pods" "reports_status c pods" "streams_status c pods"
    and "lists_stats c pods" "deletes_pods c pods" "pods s \<inter> contract_ids = {}"
    and "run_state (CheckRuntimeContract c) s = (out, s')" "run_state (RunRuntimeContract c) s = (fails, s'')"
  shows "out = map (\<lambda>n. (n, None))
           [''runtime-info'', ''create'', ''status'', ''status-unknown'', ''watch'', ''stats'', ''delete''] \<and>
         pods s' = pods s \<and> fails = [] \<and> pods s'' = pods s"
proof -
  have pass: "passes pods (f c) s1" if "(n, f) \<in> set runtimeContractCases" "pods s1 = pods s" for n f s1
    by (rule suite_passes [OF assms(1-6) _ that(1)]) (simp add: that(2) assms(7))
  have "\<exists>s1. run_state (check_cases runtimeContractCases c) s = (map (\<lambda>n. (n, None))
      [''runtime-info'', ''create'', ''status'', ''status-unknown'', ''watch'', ''stats'', ''delete''], s1) \<and> pods s1 = pods s"
    by (rule check_cases_pass) (erule (1) pass, rule refl, simp add: runtimeContractCases_def)
  then obtain s1 where r: "run_state (check_cases runtimeContractCases c) s = (map (\<lambda>n. (n, None))
      [''runtime-info'', ''create'', ''status'', ''status-unknown'', ''watch'', ''stats'', ''delete''], s1)" "pods s1 = pods s"
    by (elim exE conjE)
  from r(1) assms(8) have "out = map (\<lambda>n. (n, None))
      [''runtime-info'', ''create'', ''status'', ''status-unknown'', ''watch'', ''stats'', ''delete'']" "s' = s1"
    unfolding CheckRuntimeContract_def by (simp_all only: prod.inject)
  moreover from r(1) assms(9) have "fails = []" "s'' = s1" by (simp_all add: RunRuntimeContract_def map_filter_simps)
  ultimately show ?thesis using r(2) by (simp only: simp_thms)
qed

text \<open>
  (C18) The delete case cannot be passed by a runtime that keeps the pod. If creation and status work as promised, then
  whatever \<open>DeletePod\<close> does, the case passes only when the first delete succeeded and the pod was gone after it.
\<close>

theorem delete_case_is_sound:
  assumes "creates_pods c pods" "reports_status c pods" "''contractdelete'' \<notin> pods s"
    and "fst (run_state (checkDelete c) s) = None"
  shows "\<exists>resp s1 s2. run_state (rc_CreatePod c (rc_Pod c ''contractdelete'')) s = (Inr resp, s1) \<and>
           ''contractdelete'' \<in> pods s1 \<and> run_state (rc_DeletePod c ''contractdelete'') s1 = (Inr (), s2) \<and>
           ''contractdelete'' \<notin> pods s2"
proof -
  obtain resp s1 where r: "run_state (rc_CreatePod c (rc_Pod c ''contractdelete'')) s = (Inr resp, s1)"
    "pods s1 = insert ''contractdelete'' (pods s)"
    and w: "\<And>body. run_state (with_pod c ''contractdelete'' body) s =
      (let (v, s2) = run_state (body resp) s1 in (v, snd (run_state (rc_DeletePod c ''contractdelete'') s2)))"
    by (rule with_pod_run [OF assms(1,3)]) blast
  from assms(4) have none: "fst (run_state (delete_steps c) s1) = None"
    by (simp add: checkDelete_def w split: prod.splits)
  obtain d s2 where d: "run_state (rc_DeletePod c ''contractdelete'') s1 = (d, s2)" by (metis prod.exhaust)
  with none obtain u where u: "d = Inr u" by (cases d) (simp_all add: delete_steps_def)
  obtain nf s3 where "run_state (wantInBandNotFound c ''contractdelete'') s2 = (nf, s3)" by (metis prod.exhaust)
  with none d u have "fst (run_state (wantInBandNotFound c ''contractdelete'') s2) = None"
    by (cases nf) (simp_all add: delete_steps_def)
  from wantInBandNotFound_held [OF assms(2) this] r d u show ?thesis by auto
qed


section \<open>A runtime that keeps the contract\<close>

text \<open>Pods in a list, every call answered from it.\<close>

definition list_status :: "string \<Rightarrow> PodStatus option" where
  "list_status pid = Some \<lparr>ps_PodId = pid, ps_Phase = 2\<rparr>"

definition list_runtime :: "(string list, unit, string, string) RuntimeContract" where
  "list_runtime = \<lparr>rc_GetRuntimeInfo = State (\<lambda>s. (Inr ''list'', s)),
     rc_CreatePod = (\<lambda>pid. State (\<lambda>s. (Inr \<lparr>cr_Status = list_status pid, cr_Error = None\<rparr>, pid # s))),
     rc_GetPodStatus = (\<lambda>pid. State (\<lambda>s.
       (Inr (if pid \<in> set s then \<lparr>gr_Status = list_status pid, gr_Error = None\<rparr>
         else \<lparr>gr_Status = None, gr_Error = Some \<lparr>st_Code = 5, st_Message = ''not found''\<rparr>\<rparr>), s))),
     rc_WatchPodStatus = (\<lambda>pid. State (\<lambda>s. (Inr pid, s))), rc_Recv = (\<lambda>pid. State (\<lambda>s. (Inr (list_status pid), s))),
     rc_ListPodStats = State (\<lambda>s. (Inr (filter (\<lambda>pid. pid \<noteq> '''') s), s)),
     rc_DeletePod = (\<lambda>pid. State (\<lambda>s. (Inr (), removeAll pid s))), rc_Pod = (\<lambda>pid. pid)\<rparr>"

lemma list_runtime_keeps:
  "reports_info list_runtime set" "creates_pods list_runtime set" "reports_status list_runtime set"
  "streams_status list_runtime set" "lists_stats list_runtime set" "deletes_pods list_runtime set"
  by (simp_all add: list_runtime_def reports_info_def creates_pods_def reports_status_def streams_status_def lists_stats_def
      deletes_pods_def list_status_def good_status_def error_code_def const_defs)

lemma sound_runtime_passes_witness:
  "set (snd (run_state (CheckRuntimeContract list_runtime) [''web''])) = {''web''}"
proof -
  obtain out s' where o: "run_state (CheckRuntimeContract list_runtime) [''web''] = (out, s')" by (metis prod.exhaust)
  obtain f s'' where f: "run_state (RunRuntimeContract list_runtime) [''web''] = (f, s'')" by (metis prod.exhaust)
  have "set [''web''] \<inter> contract_ids = {}" by (simp add: contract_ids_def const_defs)
  from sound_runtime_passes [OF list_runtime_keeps this o f] o show ?thesis by simp
qed

lemma delete_case_is_sound_witness:
  "\<exists>resp s1 s2. run_state (rc_CreatePod list_runtime (rc_Pod list_runtime ''contractdelete'')) [] = (Inr resp, s1) \<and>
     ''contractdelete'' \<in> set s1 \<and> run_state (rc_DeletePod list_runtime ''contractdelete'') s1 = (Inr (), s2) \<and>
     ''contractdelete'' \<notin> set s2"
proof -
  have "passes set (checkDelete list_runtime) []"
    by (rule checkDelete_passes [OF list_runtime_keeps(2,6,3)]) simp_all
  then have "fst (run_state (checkDelete list_runtime) []) = None" by (auto simp: passes_def)
  from delete_case_is_sound [OF list_runtime_keeps(2,3) _ this] show ?thesis by simp
qed

end
