(* ===== verification/Spec2Isabelle.thy ===== *)
theory Spec2Isabelle
  imports Seqlock BudgetCopy Annotation Service Dns Mesh LinkAddr Artifact Storage Collector
    InterconnectNote ServedCopies RuntimeConfig TestGate ContractSuite
begin

text \<open>
  A verification library for the Go module of shared contracts: the types, validators, codecs and copies that the k3sm
  server, node agent, runtime and operators import, and the checker of its test results.

  \<^bold>\<open>The program.\<close> The module has no main loop. Its parts are contracts between processes. A node agent publishes its
  memory budget as a Kubernetes object, as an annotation on its Node, and as a page of shared memory that other
  processes read without locks (\<open>budget/v1alpha1\<close>). The server configures agents with policies whose compiled floors no
  policy may lower. Mesh, service, DNS and interconnect types describe the pod network (\<open>net/v1\<close>, \<open>net/v1alpha1\<close>).
  Artifact paths and local-path claims become file paths on a node (\<open>artifact/v1\<close>, \<open>storage/v1\<close>). Update, MLX model
  and Helm chart objects are served to informers (\<open>updates/v1alpha1\<close>, \<open>mlx/v1alpha1\<close>, \<open>helm/v1\<close>). The runtime contract
  maps RuntimeClass handlers to sandboxes (\<open>runtime/v1\<close>). The test support gates tests on capabilities and checks a
  runtime against the contract (\<open>k3smtest\<close>), and \<open>hack/lib/testresults.go\<close> decides whether a test run is green.

  \<^bold>\<open>Conventions.\<close> \<open>int64\<close>, \<open>uint64\<close>, \<open>int32\<close> and \<open>byte\<close> are words of their width; \<open>sint\<close> and \<open>uint\<close> read them.
  Strings are byte strings. A pointer or slice is \<open>NilP\<close> or \<open>Ptr\<close> with an address and a value, so that nil, empty and
  aliasing can be told apart; code that allocates runs in a state monad over the next free address. A Go map is its
  entries in iteration order. A validator returns the first error it meets or \<open>None\<close>. Definitions bear the source's
  names, with the receiver in front of a method (\<open>InterconnectSpec_Validate\<close>). Plain one-line constants bear their
  source names too.

  \<^bold>\<open>Shared theories.\<close> Prelude: machine types, early-return chains, indexed loops. Regex: the regular expressions of the
  sources and what they match. Bytes: little-endian words in memory. Cloning: allocation and the locale
  \<open>deep_copier\<close> (a copy has the value of the original and only new, distinct addresses). StableSort: the locale
  \<open>weak_order\<close>. NetText and TextLib: what is used of Go's strings, UTF-8, \<open>netip\<close> and \<open>path\<close>.

  \<^bold>\<open>The budget contract.\<close>
  \<^item> Vocab, Ladder, Observation (\<open>vocab.go\<close>, \<open>page_codes.go\<close>, \<open>validate.go\<close>, \<open>floors.go\<close>, \<open>nodebudget.go\<close>): the
    vocabularies and their page codes, threshold ladders, every validator of an observation. The validators are
    shown equal to well-formedness predicates. Rules of the field comments that no validator checks (the deadline's
    level, a zero recommendation while not admitting, the band of a decision) are the producer's.
  \<^item> Policy, BudgetCopy (\<open>nodebudgetpolicy.go\<close>): \<open>ApplyFloors\<close> clamps exactly and shares no memory; \<open>SelectPolicy\<close> picks
    the highest priority, then the smallest name, whatever the input order; every deep copy is isolated.
  \<^item> Page, PageCodec, PageFit (\<open>page.go\<close>): the layout table, \<open>EncodePage\<close>, its round trip, and that each valid
    observation has a page from which the snapshot can be told, field by field (the \<open>view\<close> definitions of PageFit).
  \<^item> PageWriter, Seqlock: \<open>Resume\<close> and \<open>Publish\<close> as sequences of word stores, then a step relation in which the writer
    may die between any two stores and readers copy words in any order. A stable read is one publication; from every
    reachable state a new writer recovers.
  \<^item> JsonKeys, Annotation (\<open>annotationpayload.go\<close>): the strict decoder's key checks, and what the parsers accept. The
    inductive \<open>field_of\<close> says what a field name is, apart from the walk \<open>collectJSONFields\<close> that is checked against it.

  \<^bold>\<open>The network contract.\<close>
  \<^item> Service, Dns, Mesh, LinkAddr (\<open>service.go\<close>, \<open>dns.go\<close>, \<open>mesh.go\<close>, \<open>linkip.go\<close>, \<open>interconnectaddr.go\<close>): defaults,
    validation and derived addresses. This theory joins them: which addresses of 169.254/16 are derived, which are
    accepted as mesh endpoints, and where the two differ.
  \<^item> Interconnect, InterconnectNote (\<open>interconnect.go\<close>, \<open>interconnectannotation.go\<close>, \<open>interconnectledger.go\<close>): a writer
    produces only what its reader accepts; the decision carries the Interconnect's namespace rule; model references
    are unambiguous; the ledger reads back in slot order.

  \<^bold>\<open>Artifacts, storage and served objects.\<close>
  \<^item> Artifact, Storage (\<open>path.go\<close>, \<open>mediatypes.go\<close>, \<open>allowset.go\<close>, \<open>storage.go\<close>): accepted path sets lay out as one tree;
    the directories of two claims are apart.
  \<^item> Updates, MLXModels, HelmCharts, ServedCopies (\<open>update.go\<close>, \<open>updatepolicy.go\<close>, \<open>mlxmodel.go\<close>, \<open>artifactref.go\<close>,
    \<open>helmchart.go\<close>, \<open>deepcopy.go\<close>): types and hand-written copies; the locale \<open>object_copy\<close> states what an informer relies
    on, and every served list of the module meets it.

  \<^bold>\<open>Runtime and tests.\<close>
  \<^item> RuntimeConfig (\<open>handler.go\<close>, \<open>wasm.go\<close>, \<open>labels.go\<close>): handlers resolve fail-closed; chip slugs are label values.
  \<^item> TestGate (\<open>capability.go\<close>, \<open>skip.go\<close>): a promised capability is never skipped over.
  \<^item> ContractSuite (\<open>runtimecontract.go\<close>): sound runtimes pass and are left as they were; the delete case is sound.
  \<^item> Registry, Quarantine, Collector (\<open>testresults.go\<close>): the registry parser and shell lexer, the two-pass verdict, and
    the event collector, up to what the exit status promises.

  \<^bold>\<open>Termination and bounds.\<close> No definition uses fuel. Loops that are not structural (the shell lexer, IPv6 text, rune
  decoding, substring counting, the JSON field walk) are functions with a termination proof. Sizes and limits are the
  source's constants. Page offsets and seqlock counters are 64-bit words and wrap as in the source.

  \<^bold>\<open>Parameters.\<close> Code outside the sources is an argument: \<open>encoding/json\<close>, the copies of \<open>ObjectMeta\<close>, \<open>ListMeta\<close> and
  \<open>resource.Quantity\<close>, \<open>unicode.ToLower\<close> of a rune, the process environment, and the runtime under test. A theorem that
  relies on such code states what it relies on as a hypothesis, and its witness shows the hypothesis can hold.

  \<^bold>\<open>Not modelled.\<close> Generated protocol code (only the enum values and getters RuntimeConfig reads), scheme registration,
  \<open>Resource\<close> and the published label and annotation keys (library calls and strings without operations), the pairing
  wire structs, the accessors of embedded CRD files, the in-memory gRPC server \<open>ServeRuntime\<close>, package documentation.
  The string constants of update phases and orders, model backends and chart policies are left out as well: nothing in
  the module reads them. The rules that the CRD files state in their own expression language are not Go code.
  Contexts and deadlines appear only as transport errors.
\<close>

section \<open>Derived addresses meet mesh validation\<close>

text \<open>The alpha package derives addresses (\<open>LinkIP\<close>), the stable package validates endpoints
  (\<open>MeshPeerSpec.Validate\<close>) without depending on the derivation. An endpoint here is an IPv4 literal and
  a port.\<close>

definition literal_endpoint :: "byte \<Rightarrow> byte \<Rightarrow> byte \<Rightarrow> byte \<Rightarrow> nat \<Rightarrow> string" where
  "literal_endpoint a b c d port = addr4_string a b c d @ CHR '':'' # nat_dec port"

lemma addr4_string_chars: "x \<in> set (addr4_string a b c d) \<Longrightarrow> is_digit x \<or> x = CHR ''.''"
  by (auto simp: addr4_string_def dest: nat_dec_clean)

lemma literal_split: "SplitHostPort (literal_endpoint a b c d port) = Some (addr4_string a b c d, nat_dec port)"
  unfolding literal_endpoint_def
  by (rule SplitHostPort_plain) (auto dest!: addr4_string_chars nat_dec_clean digit_not_dot)

lemma addr4_string_nonempty: "addr4_string a b c d \<noteq> []"
  by (simp add: addr4_string_def)

lemma literal_hostport:
  "1 \<le> port \<Longrightarrow> port \<le> 65535 \<Longrightarrow> validateHostPort (literal_endpoint a b c d port) = None"
  by (simp add: validateHostPort_def literal_split addr4_string_nonempty ParseAddr_string ParseUint16_nat_dec check_simps)

lemma literal_linklocal:
  "validateLinkLocal (literal_endpoint 169 254 c d port) allow =
     (if c \<noteq> 0 \<and> c \<noteq> 255 then Some (SelfAssigned (literal_endpoint 169 254 c d port))
      else if \<not> allow then Some (DirectOnOther (literal_endpoint 169 254 c d port)) else None)"
  by (simp add: validateLinkLocal_def literal_split ParseAddr_string IsLinkLocalUnicast_def)

lemma literal_nonempty: "literal_endpoint a b c d port \<noteq> ''''"
  by (simp add: literal_endpoint_def)

text \<open>(C37) The derivation and the validation meet, for endpoints written as a dotted quad and a port.
  Take any valid peer, any address of 169.254/16 and any port. A node index and a port ordinal
  derive the address exactly when it is one of the hosts 1 to 248 of the two reserved /24s, and
  every derived address is of this form. The peer with that address as its endpoint, or as a
  direct candidate, is valid exactly when the address is in a reserved /24, so every derived
  address is accepted, and the hosts 0 and 249 to 255, which nothing derives, are accepted too; in
  the rest of 169.254/16 it is refused as self-assigned. As an underlay candidate it is always
  refused: as a direct-link address in the reserved /24s, as self-assigned elsewhere.\<close>

theorem derived_address_is_direct_endpoint:
  assumes "1 \<le> port" "port \<le> 65535" "MeshPeerSpec_Validate s = None"
    and e_def: "e = literal_endpoint 169 254 c d port"
  shows "((\<exists>idx p. LinkIP idx p = Inr (Addr4 169 254 c d)) \<longleftrightarrow> (c = 0 \<or> c = 255) \<and> 1 \<le> uint d \<and> uint d \<le> 248) \<and>
    (\<forall>idx p a. LinkIP idx p = Inr a \<longrightarrow> (\<exists>c' d'. a = Addr4 169 254 c' d')) \<and>
    MeshPeerSpec_Validate (s\<lparr>ms_Endpoint := e\<rparr>) =
      (if c = 0 \<or> c = 255 then None else Some (PeerEndpoint (ms_NodeName s) (SelfAssigned e))) \<and>
    MeshPeerSpec_Validate (s\<lparr>ms_Endpoints := Ptr k [\<lparr>ec_Address = e, ec_Link = EndpointLinkDirect\<rparr>]\<rparr>) =
      (if c = 0 \<or> c = 255 then None else Some (PeerCandidate (ms_NodeName s) 0 (SelfAssigned e))) \<and>
    MeshPeerSpec_Validate (s\<lparr>ms_Endpoints := Ptr k [\<lparr>ec_Address = e, ec_Link = EndpointLinkUnderlay\<rparr>]\<rparr>) =
      Some (PeerCandidate (ms_NodeName s) 0 (if c = 0 \<or> c = 255 then DirectOnOther e else SelfAssigned e))"
proof -
  have host: "validateHostPort e = None" and ne: "e \<noteq> ''''"
    unfolding e_def using assms(1,2) by (simp_all add: literal_hostport literal_nonempty)
  have link: "validateLinkLocal e allow =
      (if c \<noteq> 0 \<and> c \<noteq> 255 then Some (SelfAssigned e) else if allow then None else Some (DirectOnOther e))" for allow
    unfolding e_def by (simp add: literal_linklocal)
  note v = assms(3) [unfolded MeshPeerSpec_Validate_def check_simps]
  have links: "EndpointLinkDirect \<noteq> EndpointLinkUnderlay" by (simp add: const_defs)
  have direct: "EndpointCandidate_validate \<lparr>ec_Address = e, ec_Link = EndpointLinkDirect\<rparr> =
      (if c = 0 \<or> c = 255 then None else Some (SelfAssigned e))"
    using host ne by (auto simp: EndpointCandidate_validate_def first_err_eval link)
  have under: "EndpointCandidate_validate \<lparr>ec_Address = e, ec_Link = EndpointLinkUnderlay\<rparr> =
      Some (if c = 0 \<or> c = 255 then DirectOnOther e else SelfAssigned e)"
    using host ne links by (auto simp: EndpointCandidate_validate_def first_err_eval link)
  have "MeshPeerSpec_Validate (s\<lparr>ms_Endpoint := e\<rparr>) =
      (if c = 0 \<or> c = 255 then None else Some (PeerEndpoint (ms_NodeName s) (SelfAssigned e)))"
    using v host ne by (simp add: MeshPeerSpec_Validate_def first_err_eval link)
  moreover have "MeshPeerSpec_Validate (s\<lparr>ms_Endpoints := Ptr k [\<lparr>ec_Address = e, ec_Link = EndpointLinkDirect\<rparr>]\<rparr>) =
      (if c = 0 \<or> c = 255 then None else Some (PeerCandidate (ms_NodeName s) 0 (SelfAssigned e)))"
    using v by (simp add: MeshPeerSpec_Validate_def first_err_eval direct)
  moreover have "MeshPeerSpec_Validate (s\<lparr>ms_Endpoints := Ptr k [\<lparr>ec_Address = e, ec_Link = EndpointLinkUnderlay\<rparr>]\<rparr>) =
      Some (PeerCandidate (ms_NodeName s) 0 (if c = 0 \<or> c = 255 then DirectOnOther e else SelfAssigned e))"
    using v by (simp add: MeshPeerSpec_Validate_def first_err_eval under)
  moreover have "\<forall>idx p a. LinkIP idx p = Inr a \<longrightarrow> (\<exists>c' d'. a = Addr4 169 254 c' d')" using LinkIP_shape by blast
  ultimately show ?thesis using LinkIP_range by blast
qed

theorem derived_address_is_direct_endpoint_witness:
  "(\<nexists>idx p. LinkIP idx p = Inr (Addr4 169 254 0 250)) \<and>
   MeshPeerSpec_Validate (sample_mspec\<lparr>ms_Endpoint := literal_endpoint 169 254 0 250 51820\<rparr>) = None \<and>
   MeshPeerSpec_Validate (sample_mspec\<lparr>ms_Endpoint := literal_endpoint 169 254 7 7 51820\<rparr>) \<noteq> None"
proof -
  have "ParseAddr ''mac-1.lan'' = None"
    by (simp add: ParseAddr_def parseIPv4_def octet_def is_digit_def byte_of_def)
  then have v: "MeshPeerSpec_Validate sample_mspec = None"
    by (simp add: MeshPeerSpec_Validate_iff sample_mspec_def sample_endpoint_syntax names_link_local_def sample_host)
  note d = derived_address_is_direct_endpoint [OF _ _ v refl, of 51820]
  from d [of 0 250] have "\<nexists>idx p. LinkIP idx p = Inr (Addr4 169 254 0 250)"
    and "MeshPeerSpec_Validate (sample_mspec\<lparr>ms_Endpoint := literal_endpoint 169 254 0 250 51820\<rparr>) = None"
    by simp_all
  moreover from d [of 7 7]
  have "MeshPeerSpec_Validate (sample_mspec\<lparr>ms_Endpoint := literal_endpoint 169 254 7 7 51820\<rparr>) \<noteq> None" by simp
  ultimately show ?thesis by blast
qed

end
